(* ===== verification/Uds_Prelude.thy ===== *)
theory Uds_Prelude
  imports Main "HOL-Library.Word"
begin

text \<open>
  Vocabulary shared by every component of the model: the machine integers of the code,
  byte buffers of a fixed size and the big-endian packing of bytes into 16, 24 and 32 bit
  values. A C++ array is a list of its bytes; \<open>put\<close> is the run of assignments
  \<open>buf[off] = b0; buf[off + 1] = b1; ...\<close> (or the \<open>memcpy\<close>) of the source, and it keeps
  the length of the list exactly when all those writes are inside the array.
  \<open>mem_read\<close> is the source side of a \<open>memcpy\<close>: \<open>None\<close> is a read outside the array.
\<close>

unbundle bit_operations_syntax

type_synonym u8 = "8 word"
type_synonym u16 = "16 word"
type_synonym u32 = "32 word"

text \<open>
  \<open>put_simps\<close> collects the laws of buffer writes, \<open>byte_simps\<close> those of byte packing.
\<close>

named_theorems put_simps
named_theorems byte_simps

section \<open>Buffers\<close>

definition put :: "nat \<Rightarrow> 'b list \<Rightarrow> 'b list \<Rightarrow> 'b list" where
  "put off bs buf = take off buf @ bs @ drop (off + length bs) buf"

definition mem_read :: "'b list \<Rightarrow> nat \<Rightarrow> nat \<Rightarrow> 'b list option" where
  "mem_read buf off n =
     (if off + n \<le> length buf then Some (take n (drop off buf)) else None)"

lemma length_put [put_simps]:
  "off + length bs \<le> length buf \<Longrightarrow> length (put off bs buf) = length buf"
  by (simp add: put_def)

lemma length_put_le: "length buf \<le> length (put off bs buf)" if "off \<le> length buf"
  using that by (simp add: put_def)

lemma length_put_out_of_range:
  "off \<le> length buf \<Longrightarrow> length buf < off + length bs \<Longrightarrow>
    length buf < length (put off bs buf)"
  by (simp add: put_def)

lemma take_put_0 [put_simps]: "take (length bs) (put 0 bs buf) = bs"
  by (simp add: put_def)

lemma take_put_0_eq [put_simps]: "n = length bs \<Longrightarrow> take n (put 0 bs buf) = bs"
  by (simp add: put_def)

lemma take_put_before [put_simps]:
  "off \<le> length buf \<Longrightarrow> n \<le> off \<Longrightarrow> take n (put off bs buf) = take n buf"
  by (simp add: put_def)

lemma take_put_to [put_simps]:
  "off \<le> length buf \<Longrightarrow> take (off + length bs) (put off bs buf) = take off buf @ bs"
  by (simp add: put_def)

lemma drop_put_after [put_simps]:
  "off \<le> length buf \<Longrightarrow> drop (off + length bs) (put off bs buf) = drop (off + length bs) buf"
  by (simp add: put_def)

lemma put_nil [simp]: "put off [] buf = buf"
  by (simp add: put_def)

lemma put_put_append:
  assumes "off + length as + length bs \<le> length buf"
  shows "put (off + length as) bs (put off as buf) = put off (as @ bs) buf"
  using assms by (simp add: put_def algebra_simps)

lemma put_put_at:
  "j = off + length as \<Longrightarrow> j + length bs \<le> length buf \<Longrightarrow>
    put j bs (put off as buf) = put off (as @ bs) buf"
  by (simp add: put_put_append)

lemma mem_read_Some:
  "mem_read buf off n = Some bs \<longleftrightarrow> off + n \<le> length buf \<and> bs = take n (drop off buf)"
  by (auto simp: mem_read_def)

lemma length_mem_read: "mem_read buf off n = Some bs \<Longrightarrow> length bs = n"
  by (auto simp: mem_read_Some)

lemma mem_read_in_range: "off + n \<le> length buf \<Longrightarrow>
    mem_read buf off n = Some (take n (drop off buf))"
  by (simp add: mem_read_def)

section \<open>Sizes\<close>

text \<open>
  \<open>size_t\<close> has 32 bits on the STM32 targets. Sizes are natural numbers; where the source
  subtracts or adds sizes that could leave the range the wrap-around is written out.
\<close>

definition size_sub :: "nat \<Rightarrow> nat \<Rightarrow> nat" where
  "size_sub a b = (if b \<le> a then a - b else a + 2 ^ 32 - b)"

definition size_add :: "nat \<Rightarrow> nat \<Rightarrow> nat" where
  "size_add a b = (a + b) mod 2 ^ 32"

lemma size_sub_le [simp]: "b \<le> a \<Longrightarrow> size_sub a b = a - b"
  by (simp add: size_sub_def)

lemma size_add_small [simp]: "a + b < 2 ^ 32 \<Longrightarrow> size_add a b = a + b"
  by (simp add: size_add_def)

text \<open>Ranges of the machine integers, as numbers.\<close>

lemma unat_u8_lt: "unat (x :: u8) < 256"
  using unsigned_less [of x] by simp

lemma unat_u16_lt: "unat (x :: u16) < 65536"
  using unsigned_less [of x] by simp

lemma unat_u32_lt: "unat (x :: u32) < 4294967296"
  using unsigned_less [of x] by simp

lemma unat_ucast_u16_u32 [simp]: "unat (ucast (x :: u16) :: u32) = unat x"
  by (simp add: unsigned_ucast_eq take_bit_nat_eq_self
      order.strict_trans [OF unat_u8_lt] order.strict_trans [OF unat_u16_lt])

lemma unat_ucast_u8_u32 [simp]: "unat (ucast (x :: u8) :: u32) = unat x"
  by (simp add: unsigned_ucast_eq take_bit_nat_eq_self
      order.strict_trans [OF unat_u8_lt] order.strict_trans [OF unat_u16_lt])

lemma unat_ucast_u8_u16 [simp]: "unat (ucast (x :: u8) :: u16) = unat x"
  by (simp add: unsigned_ucast_eq take_bit_nat_eq_self
      order.strict_trans [OF unat_u8_lt] order.strict_trans [OF unat_u16_lt])

section \<open>Bytes of wider integers\<close>

definition hi8 :: "u16 \<Rightarrow> u8" where
  "hi8 x = ucast (drop_bit 8 x)"

definition lo8 :: "u16 \<Rightarrow> u8" where
  "lo8 x = ucast (x AND 0xFF)"

definition be16 :: "u8 \<Rightarrow> u8 \<Rightarrow> u16" where
  "be16 a b = push_bit 8 (ucast a) OR ucast b"

definition be24 :: "u8 \<Rightarrow> u8 \<Rightarrow> u8 \<Rightarrow> u32" where
  "be24 a b c = push_bit 16 (ucast a) OR push_bit 8 (ucast b) OR ucast c"

definition be32 :: "u8 \<Rightarrow> u8 \<Rightarrow> u8 \<Rightarrow> u8 \<Rightarrow> u32" where
  "be32 a b c d =
     push_bit 24 (ucast a) OR push_bit 16 (ucast b) OR push_bit 8 (ucast c) OR ucast d"

lemma unat_or_disjoint:
  assumes "x AND y = (0 :: 'a::len word)"
  shows "unat (x OR y) = unat x + unat y"
proof -
  have "unat x AND unat y = (0 :: nat)"
    using assms by (metis unsigned_and_eq unsigned_0)
  then have "unat x + unat y = unat x OR unat y" by (rule disjunctive_add_eq_or)
  then show ?thesis by (simp add: unsigned_or_eq)
qed

lemma unat_be16: "unat (be16 a b) = unat a * 256 + unat b"
proof -
  have "push_bit 8 (ucast a) AND (ucast b :: u16) = 0"
    by (rule bit_word_eqI) (auto simp: bit_simps dest: bit_imp_le_length)
  moreover have "unat (push_bit 8 (ucast a) :: u16) = unat a * 256"
    using unat_u8_lt [of a] by (simp add: push_bit_eq_mult unat_word_ariths)
  ultimately show ?thesis by (simp add: be16_def unat_or_disjoint)
qed

lemma unat_Suc_small: "n \<le> 7 \<Longrightarrow> unat (1 + of_nat n :: u8) = Suc n"
  by (simp add: unat_word_ariths unat_of_nat)

text \<open>\<open>byte_at k x\<close> is \<open>static_cast<uint8_t>(x >> (8 * k))\<close>.\<close>

definition byte_at :: "nat \<Rightarrow> u32 \<Rightarrow> u8" where
  "byte_at k x = ucast (drop_bit (8 * k) x)"

lemma ff_eq_mask: "(0xFF :: 'a::len word) = mask 8"
  by (simp add: mask_eq_exp_minus_1)

lemma bit_ff_word: "bit (0xFF :: 'a::len word) n \<longleftrightarrow> n < 8 \<and> n < LENGTH('a)"
  unfolding ff_eq_mask by (auto simp: bit_simps)

lemma nibble_eq_take_bit: "(x :: 'a::len word) AND 0x0F = take_bit 4 x"
  by (simp add: take_bit_eq_mask mask_eq_exp_minus_1)

lemma low_nibble_le: "unat (x AND 0x0F :: u8) \<le> 15"
  using word_and_le1 [of x "0x0F"] by (simp add: word_le_nat_alt)

lemma xor_cancel_right: "(a XOR c = b XOR c) \<longleftrightarrow> a = b" for a b c :: "'a::len word"
  by (metis xor.assoc xor.right_neutral xor_self_eq)

lemma take_bit_small: "unat x < 2 ^ n \<Longrightarrow> take_bit n x = x" for x :: "'a::len word"
  by (simp add: word_unat_eq_iff unsigned_take_bit_eq take_bit_nat_eq_self)

lemma ucast_back_u8 [simp]: "ucast (ucast (d :: u8) :: u32) = d"
  by (rule bit_word_eqI) (auto simp: bit_simps)

lemma index_of_offset: "m \<le> n \<Longrightarrow> m + (n - m) = (n::nat)"
  by simp

lemma hi8_be16 [byte_simps]: "hi8 (be16 a b) = a"
  by (rule bit_word_eqI) (auto simp: hi8_def be16_def bit_simps dest: bit_imp_le_length)

lemma lo8_be16 [byte_simps]: "lo8 (be16 a b) = b"
  unfolding lo8_def be16_def ff_eq_mask by (rule bit_word_eqI) (auto simp: bit_simps)

lemma be16_hi8_lo8 [byte_simps]: "be16 (hi8 x) (lo8 x) = x"
  unfolding hi8_def lo8_def be16_def ff_eq_mask
  by (rule bit_word_eqI) (auto simp: bit_simps not_less index_of_offset)

lemma be32_byte_at [byte_simps]:
  "be32 (byte_at 3 x) (byte_at 2 x) (byte_at 1 x) (byte_at 0 x) = x"
proof (rule bit_word_eqI)
  fix n :: nat
  assume "n < LENGTH(32)"
  then have "n < 8 \<or> 8 \<le> n \<and> n < 16 \<or> 16 \<le> n \<and> n < 24 \<or> 24 \<le> n \<and> n < 32"
    by simp arith
  then show "bit (be32 (byte_at 3 x) (byte_at 2 x) (byte_at 1 x) (byte_at 0 x)) n = bit x n"
    by (elim disjE) (auto simp: byte_at_def be32_def bit_simps)
qed

lemma byte_at_be32 [byte_simps]:
  "byte_at 3 (be32 a b c d) = a" "byte_at 2 (be32 a b c d) = b"
  "byte_at 1 (be32 a b c d) = c" "byte_at 0 (be32 a b c d) = d"
  by (rule bit_word_eqI; auto simp: byte_at_def be32_def bit_simps dest: bit_imp_le_length)+

lemma be32_zero: "be32 0 a b c = be24 a b c"
  by (simp add: be32_def be24_def)

section \<open>What happened last\<close>

text \<open>
  \<open>since P Q xs\<close>: the history \<open>xs\<close> (oldest first) has an event with P and none with Q after
  it.
\<close>

definition since :: "('a \<Rightarrow> bool) \<Rightarrow> ('a \<Rightarrow> bool) \<Rightarrow> 'a list \<Rightarrow> bool" where
  "since P Q xs \<longleftrightarrow> (\<exists>ys x zs. xs = ys @ x # zs \<and> P x \<and> (\<forall>z \<in> set zs. \<not> Q z))"

lemma since_nil [simp]: "\<not> since P Q []"
  by (simp add: since_def)

lemma since_snoc [simp]: "since P Q (xs @ [x]) \<longleftrightarrow> P x \<or> \<not> Q x \<and> since P Q xs"
proof
  assume "since P Q (xs @ [x])"
  then obtain ys y zs where *: "xs @ [x] = ys @ y # zs" "P y" "\<forall>z \<in> set zs. \<not> Q z"
    by (auto simp: since_def)
  show "P x \<or> \<not> Q x \<and> since P Q xs"
  proof (cases zs rule: rev_cases)
    case Nil
    with * show ?thesis by simp
  next
    case (snoc zs' z)
    with * have "xs = ys @ y # zs'" "z = x" by auto
    with * snoc show ?thesis unfolding since_def by auto
  qed
next
  assume "P x \<or> \<not> Q x \<and> since P Q xs"
  then show "since P Q (xs @ [x])"
  proof (elim disjE conjE)
    assume "P x"
    then show ?thesis unfolding since_def by force
  next
    assume "\<not> Q x" "since P Q xs"
    then obtain ys y zs where "xs = ys @ y # zs" "P y" "\<forall>z \<in> set zs. \<not> Q z"
      by (auto simp: since_def)
    with \<open>\<not> Q x\<close> have "xs @ [x] = ys @ y # (zs @ [x])" "\<forall>z \<in> set (zs @ [x]). \<not> Q z" by auto
    with \<open>P y\<close> show ?thesis unfolding since_def by blast
  qed
qed

end
