(* ===== verification/Crc_Utils.thy ===== *)
theory Crc_Utils
  imports Uds_Prelude
begin

text \<open>
  The checksums of \<open>src/uds/utils/crc.cpp\<close>: the table-driven CRC-32, the bitwise CRC-16 and
  the 8 bit sum. The table is the initialiser of the source, in which 32 entries are written
  and C++ zeroes the other 224; \<open>crc32_entry\<close> is the entry the polynomial of the standard
  (0xEDB88320, reflected) gives.
\<close>

section \<open>The functions\<close>

definition crc32_written :: "u32 list" where
  "crc32_written =
    [0x00000000, 0x77073096, 0xEE0E612C, 0x990951BA,
     0x076DC419, 0x706AF48F, 0xE963A535, 0x9E6495A3,
     0x0EDB8832, 0x79DCB8A4, 0xE0D5E91B, 0x97D2D988,
     0x09B64C2B, 0x7EB17CBF, 0xE7B82D09, 0x90BF1222,
     0x1DB71064, 0x6AB020F2, 0xF3B97148, 0x84BE41DE,
     0x1ADAD47D, 0x6DDDE4EB, 0xF4D4B551, 0x83D385C7,
     0x136C9856, 0x646BA8C0, 0xFD62F97A, 0x8A65C9EC,
     0x14015C4F, 0x63066CD9, 0xFA0F3D63, 0x8D080DF5]"

definition kCrc32Table :: "u32 list" where
  "kCrc32Table = crc32_written @ replicate 224 0"

definition crc32_step :: "u8 \<Rightarrow> u32 \<Rightarrow> u32" where
  "crc32_step b crc =
     (let idx = ucast ((crc XOR ucast b) AND 0xFF) :: u8
      in kCrc32Table ! unat idx XOR drop_bit 8 crc)"

definition crc32 :: "u8 list \<Rightarrow> u32 \<Rightarrow> u32" where
  "crc32 data crc_init = fold crc32_step data crc_init XOR 0xFFFFFFFF"

definition crc16_shift :: "u16 \<Rightarrow> u16" where
  "crc16_shift crc =
     (if crc AND 0x8000 \<noteq> 0 then push_bit 1 crc XOR 0x1021 else push_bit 1 crc)"

definition crc16_step :: "u8 \<Rightarrow> u16 \<Rightarrow> u16" where
  "crc16_step b crc = (crc16_shift ^^ 8) (crc XOR push_bit 8 (ucast b))"

definition crc16_ccitt :: "u8 list \<Rightarrow> u16 \<Rightarrow> u16" where
  "crc16_ccitt data crc_init = fold crc16_step data crc_init"

definition checksum8 :: "u8 list \<Rightarrow> u8" where
  "checksum8 data = fold (\<lambda>b sum. sum + b) data 0"

section \<open>CRC-16\<close>

lemma top_bit_16: "(x :: u16) AND 0x8000 \<noteq> 0 \<longleftrightarrow> bit x 15"
  using and_exp_eq_0_iff_not_bit [of x 15] by simp

lemma crc16_shift_bit0: "bit (crc16_shift x) 0 \<longleftrightarrow> bit x 15"
  by (simp add: crc16_shift_def top_bit_16 bit_0 even_xor_iff)

lemma inj_crc16_shift: "inj crc16_shift"
proof (rule injI)
  fix x y
  assume eq: "crc16_shift x = crc16_shift y"
  then have top: "bit x 15 \<longleftrightarrow> bit y 15" using crc16_shift_bit0 by metis
  with eq have sh: "push_bit 1 x = push_bit 1 y"
    unfolding crc16_shift_def top_bit_16 by (auto simp only: xor_cancel_right if_True if_False)
  show "x = y"
  proof (rule bit_word_eqI)
    fix n assume "n < LENGTH(16)"
    then consider "n = 15" | "n < 15" by fastforce
    then show "bit x n \<longleftrightarrow> bit y n"
    proof cases
      case 2
      have "bit (push_bit 1 x) (Suc n) \<longleftrightarrow> bit (push_bit 1 y) (Suc n)" by (simp only: sh)
      with 2 show ?thesis by (simp only: bit_push_bit_iff) simp
    qed (use top in simp)
  qed
qed

lemma crc16_step_inject: "crc16_step b x = crc16_step b y \<longleftrightarrow> x = y"
  unfolding crc16_step_def using inj_fn [OF inj_crc16_shift, of 8]
  by (simp add: inj_eq xor_cancel_right)

lemma push_8_inject: "push_bit 8 (ucast a :: u16) = push_bit 8 (ucast b) \<longleftrightarrow> a = b"
  for a b :: u8
proof
  assume "push_bit 8 (ucast a :: u16) = push_bit 8 (ucast b)"
  then have "be16 a 0 = be16 b 0" by (simp add: be16_def)
  then show "a = b" by (metis hi8_be16)
qed simp

lemma crc16_step_byte_inject: "crc16_step a x = crc16_step b x \<longleftrightarrow> a = b"
  unfolding crc16_step_def using inj_fn [OF inj_crc16_shift, of 8]
  by (simp add: inj_eq xor.commute [of x] xor_cancel_right push_8_inject)

lemma fold_crc16_inject: "fold crc16_step bs x = fold crc16_step bs y \<longleftrightarrow> x = y"
  by (induction bs arbitrary: x y) (simp_all add: crc16_step_inject)

lemma crc16_append: "crc16_ccitt (xs @ ys) c = crc16_ccitt ys (crc16_ccitt xs c)"
  by (simp add: crc16_ccitt_def)

text \<open>A value whose high byte is zero is only shifted.\<close>

lemma crc16_shifts_low:
  "k \<le> 8 \<Longrightarrow> (crc16_shift ^^ k) (ucast (b :: u8)) = push_bit k (ucast b)"
proof (induction k)
  case (Suc k)
  then have "\<not> bit (push_bit k (ucast b) :: u16) 15"
    by (auto simp: bit_simps dest: bit_imp_le_length)
  with Suc show ?case
    by (simp add: crc16_shift_def top_bit_16 push_bit_push_bit)
qed simp

lemma crc16_step_hi: "crc16_step (hi8 c) c = push_bit 8 (ucast (lo8 c))"
proof -
  have "c XOR push_bit 8 (ucast (hi8 c)) = ucast (lo8 c)"
    unfolding hi8_def lo8_def ff_eq_mask
    by (rule bit_word_eqI) (auto simp: bit_simps not_less index_of_offset)
  then show ?thesis unfolding crc16_step_def using crc16_shifts_low [of 8 "lo8 c"] by simp
qed

lemma crc16_step_lo: "crc16_step b (push_bit 8 (ucast b)) = 0"
  using crc16_shifts_low [of 8 0] by (simp add: crc16_step_def)

text \<open>
  A block followed by its own CRC-16, high byte first, has the CRC 0, for every start
  value: the receiver can check a block by running the CRC over the block and its check
  bytes.
\<close>

theorem crc16_residue:
  "crc16_ccitt (data @ [hi8 (crc16_ccitt data i), lo8 (crc16_ccitt data i)]) i = 0"
  by (simp add: crc16_append) (simp add: crc16_ccitt_def crc16_step_hi crc16_step_lo)

text \<open>
  C39. CRC-16 detects every error confined to one byte: blocks that differ in one byte, at any
  position, have different CRCs.
\<close>

theorem crc16_detects_byte_error:
  "crc16_ccitt (xs @ a # ys) i = crc16_ccitt (xs @ b # ys) i \<longleftrightarrow> a = b"
  by (simp add: crc16_ccitt_def fold_crc16_inject crc16_step_byte_inject)

section \<open>CRC-32\<close>

definition crc32_bit :: "u32 \<Rightarrow> u32" where
  "crc32_bit x = (if bit x 0 then drop_bit 1 x XOR 0xEDB88320 else drop_bit 1 x)"

definition crc32_entry :: "nat \<Rightarrow> u32" where
  "crc32_entry i = (crc32_bit ^^ 8) (of_nat i)"

lemma length_crc32_written: "length crc32_written = 32"
  by (simp add: crc32_written_def)

lemma crc32_table_high: "32 \<le> i \<Longrightarrow> i < 256 \<Longrightarrow> kCrc32Table ! i = 0"
  by (simp add: kCrc32Table_def nth_append length_crc32_written)

lemma crc32_bit_even: "crc32_bit x = (if odd x then drop_bit 1 x XOR 0xEDB88320 else drop_bit 1 x)"
  by (simp add: crc32_bit_def bit_0)

lemma crc32_entry_steps:
  "crc32_entry i = crc32_bit (crc32_bit (crc32_bit (crc32_bit
     (crc32_bit (crc32_bit (crc32_bit (crc32_bit (of_nat i))))))))"
  by (simp add: crc32_entry_def numeral_eq_Suc)

definition crc32_standard :: "u32 list" where
  "crc32_standard =
    [0x00000000, 0x77073096, 0xEE0E612C, 0x990951BA,
     0x076DC419, 0x706AF48F, 0xE963A535, 0x9E6495A3,
     0x0EDB8832, 0x79DCB8A4, 0xE0D5E91E, 0x97D2D988,
     0x09B64C2B, 0x7EB17CBD, 0xE7B82D07, 0x90BF1D91,
     0x1DB71064, 0x6AB020F2, 0xF3B97148, 0x84BE41DE,
     0x1ADAD47D, 0x6DDDE4EB, 0xF4D4B551, 0x83D385C7,
     0x136C9856, 0x646BA8C0, 0xFD62F97A, 0x8A65C9EC,
     0x14015C4F, 0x63066CD9, 0xFA0F3D63, 0x8D080DF5]"

lemma crc32_entries_low: "map crc32_entry [0..<32] = crc32_standard"
  by (simp add: crc32_entry_steps crc32_bit_even upt_rec crc32_standard_def)

lemma crc32_table_low:
  "filter (\<lambda>i. kCrc32Table ! i = crc32_entry i) [0..<32] =
     filter (\<lambda>i. i \<notin> {10, 13, 14, 15}) [0..<32]"
proof -
  have entry: "crc32_entry i = crc32_standard ! i" if "i < 32" for i
    using that by (simp flip: crc32_entries_low)
  have table: "kCrc32Table ! i = crc32_written ! i" if "i < 32" for i
    using that by (simp add: kCrc32Table_def nth_append length_crc32_written)
  have "filter (\<lambda>i. kCrc32Table ! i = crc32_entry i) [0..<32] =
      filter (\<lambda>i. crc32_written ! i = crc32_standard ! i) [0..<32]"
    by (rule filter_cong) (simp_all add: entry table)
  also have "\<dots> = filter (\<lambda>i. i \<notin> {10, 13, 14, 15}) [0..<32]"
    by (simp add: crc32_written_def crc32_standard_def upt_rec)
  finally show ?thesis .
qed

text \<open>The entries of the standard are zero only at 0: a bit step loses no information.\<close>

lemma crc32_bit_eq_0: "crc32_bit x = 0 \<longleftrightarrow> x = 0"
proof
  assume eq: "crc32_bit x = 0"
  have "\<not> bit x 0"
  proof
    assume "bit x 0"
    with eq have "drop_bit 1 x XOR 0xEDB88320 = 0" by (simp add: crc32_bit_def)
    then have "bit (drop_bit 1 x XOR 0xEDB88320) 31 = bit (0 :: u32) 31" by (simp only:)
    then show False using bit_imp_le_length [of x 32] by (auto simp: bit_simps)
  qed
  with eq have half: "drop_bit 1 x = 0" by (simp add: crc32_bit_def)
  show "x = 0"
  proof (rule bit_word_eqI)
    fix n assume "n < LENGTH(32)"
    show "bit x n \<longleftrightarrow> bit 0 n"
    proof (cases n)
      case (Suc k)
      have "bit (drop_bit 1 x) k = bit (0 :: u32) k" by (simp only: half)
      with Suc show ?thesis by (simp only: bit_drop_bit_eq) simp
    qed (use \<open>\<not> bit x 0\<close> in simp)
  qed
qed (simp add: crc32_bit_def)

lemma crc32_entry_eq_0: "i < 256 \<Longrightarrow> crc32_entry i = 0 \<longleftrightarrow> i = 0"
proof -
  have "(crc32_bit ^^ k) x = 0 \<longleftrightarrow> x = 0" for k x
    by (induction k) (simp_all add: crc32_bit_eq_0)
  then show "i < 256 \<Longrightarrow> crc32_entry i = 0 \<longleftrightarrow> i = 0"
    by (auto simp: crc32_entry_def word_unat_eq_iff unat_of_nat)
qed

text \<open>
  Exactly 28 entries of the table are those of CRC-32: entry 0 and the written ones except
  10, 13, 14 and 15; the 224 entries that are left to zero are all wrong.
\<close>

theorem crc32_table_entries:
  "filter (\<lambda>i. kCrc32Table ! i = crc32_entry i) [0..<256] =
     filter (\<lambda>i. i \<notin> {10, 13, 14, 15}) [0..<32]"
proof -
  have "[0..<256] = [0..<32] @ [32..<256]"
    using upt_add_eq_append [of 0 32 224] by (simp del: upt_rec_numeral)
  moreover have "filter (\<lambda>i. kCrc32Table ! i = crc32_entry i) [32..<256] = []"
    by (auto simp: crc32_table_high filter_empty_conv crc32_entry_eq_0 dest!: sym [of 0])
  ultimately show ?thesis
    by (simp only: filter_append crc32_table_low append_Nil2)
qed

text \<open>
  For lack of the other entries, CRC-32 with its default start value does not see the first
  byte of a block at all, unless it is 0xE0 or more: blocks that differ in nothing else have
  the same CRC.
\<close>

theorem crc32_misses_first_byte:
  assumes "a < 0xE0" "b < 0xE0"
  shows "crc32 (a # data) 0xFFFFFFFF = crc32 (b # data) 0xFFFFFFFF"
proof -
  have "crc32_step c 0xFFFFFFFF = 0x00FFFFFF" if "c < 0xE0" for c :: u8
  proof -
    have c: "unat c < 224" using that by (simp add: word_less_nat_alt)
    have idx: "ucast ((0xFFFFFFFF XOR ucast c) AND 0xFF :: u32) = NOT c"
    proof (rule bit_word_eqI)
      have ones: "(0xFFFFFFFF :: u32) = NOT 0" by simp
      show "bit (ucast ((0xFFFFFFFF XOR ucast c) AND 0xFF :: u32) :: u8) n \<longleftrightarrow> bit (NOT c) n"
        if "n < LENGTH(8)" for n
        using that unfolding ff_eq_mask ones by (auto simp: bit_simps)
    qed
    have "NOT c = 255 - c" by (simp add: not_eq_complement eq_diff_eq)
    then have "unat (NOT c) = 255 - unat c"
      using unat_sub [of c 255] word_le_nat_alt [of c 255] unat_u8_lt [of c] by simp
    with c have "32 \<le> unat (NOT c)" "unat (NOT c) < 256" by simp_all
    then show ?thesis by (simp add: crc32_step_def idx crc32_table_high)
  qed
  with assms show ?thesis by (simp add: crc32_def)
qed

theorem crc32_misses_first_byte_witness:
  "crc32 [0x31, 0x32] 0xFFFFFFFF = crc32 [0x30, 0x32] 0xFFFFFFFF"
  using crc32_misses_first_byte [of "0x31" "0x30" "[0x32]"] by simp

section \<open>The 8 bit sum\<close>

lemma checksum8_append: "checksum8 (xs @ ys) = checksum8 xs + checksum8 ys"
proof -
  have "fold (\<lambda>b sum. sum + b) ys s = s + sum_list ys" for s :: u8 and ys
    by (induction ys arbitrary: s) (simp_all add: add.assoc)
  then show ?thesis by (simp add: checksum8_def)
qed

text \<open>
  The checksum is the sum of the bytes modulo 256; a block followed by the two's complement
  of its checksum has checksum 0. Exchanging two parts of the block is not noticed.
\<close>

theorem checksum8_sum:
  "unat (checksum8 data) = sum_list (map unat data) mod 256 \<and>
   checksum8 (data @ [- checksum8 data]) = 0 \<and>
   checksum8 (xs @ ys) = checksum8 (ys @ xs)"
proof -
  have "unat (checksum8 data) = sum_list (map unat data) mod 256"
  proof (induction data rule: rev_induct)
    case (snoc b data)
    then show ?case by (simp add: checksum8_def unat_word_ariths mod_simps)
  qed (simp add: checksum8_def)
  moreover have "checksum8 (data @ [- checksum8 data]) = 0"
    unfolding checksum8_append by (simp add: checksum8_def)
  ultimately show ?thesis by (simp add: checksum8_append add.commute)
qed

end
