(* ===== verification/Uds_Types.thy ===== *)
theory Uds_Types
  imports Uds_Prelude
begin

text \<open>
  The types of \<open>include/uds/uds_types.hpp\<close>: service identifiers, negative response codes,
  session types and the timing parameters, with the fixed-size byte buffer
  \<open>StaticBuffer<N>\<close>. An \<open>enum class : uint8_t\<close> is a datatype with the function that
  gives each enumerator its byte.
\<close>

datatype ServiceId =
    DiagnosticSessionControl
  | EcuReset
  | ClearDiagnosticInformation
  | ReadDtcInformation
  | ReadDataByIdentifier
  | ReadMemoryByAddress
  | SecurityAccess
  | CommunicationControl
  | WriteDataByIdentifier
  | InputOutputControlByIdentifier
  | RoutineControl
  | RequestDownload
  | RequestUpload
  | TransferData
  | RequestTransferExit
  | WriteMemoryByAddress
  | TesterPresent
  | ControlDtcSetting
  | ResponseOnEvent
  | LinkControl
  | PositiveResponseOffset
  | NegativeResponse

fun sid_byte :: "ServiceId \<Rightarrow> u8" where
  "sid_byte DiagnosticSessionControl = 0x10"
| "sid_byte EcuReset = 0x11"
| "sid_byte ClearDiagnosticInformation = 0x14"
| "sid_byte ReadDtcInformation = 0x19"
| "sid_byte ReadDataByIdentifier = 0x22"
| "sid_byte ReadMemoryByAddress = 0x23"
| "sid_byte SecurityAccess = 0x27"
| "sid_byte CommunicationControl = 0x28"
| "sid_byte WriteDataByIdentifier = 0x2E"
| "sid_byte InputOutputControlByIdentifier = 0x2F"
| "sid_byte RoutineControl = 0x31"
| "sid_byte RequestDownload = 0x34"
| "sid_byte RequestUpload = 0x35"
| "sid_byte TransferData = 0x36"
| "sid_byte RequestTransferExit = 0x37"
| "sid_byte WriteMemoryByAddress = 0x3D"
| "sid_byte TesterPresent = 0x3E"
| "sid_byte ControlDtcSetting = 0x85"
| "sid_byte ResponseOnEvent = 0x86"
| "sid_byte LinkControl = 0x87"
| "sid_byte PositiveResponseOffset = 0x40"
| "sid_byte NegativeResponse = 0x7F"

datatype NrcCode =
    GeneralReject
  | ServiceNotSupported
  | SubFunctionNotSupported
  | IncorrectMessageLengthOrInvalidFormat
  | ResponseTooLong
  | BusyRepeatRequest
  | ConditionsNotCorrect
  | RequestSequenceError
  | NoResponseFromSubnetComponent
  | FailurePreventsExecutionOfRequestedAction
  | RequestOutOfRange
  | SecurityAccessDenied
  | InvalidKey
  | ExceededNumberOfAttempts
  | RequiredTimeDelayNotExpired
  | UploadDownloadNotAccepted
  | TransferDataSuspended
  | GeneralProgrammingFailure
  | WrongBlockSequenceCounter
  | RequestCorrectlyReceivedResponsePending
  | SubFunctionNotSupportedInActiveSession
  | ServiceNotSupportedInActiveSession

fun nrc_byte :: "NrcCode \<Rightarrow> u8" where
  "nrc_byte GeneralReject = 0x10"
| "nrc_byte ServiceNotSupported = 0x11"
| "nrc_byte SubFunctionNotSupported = 0x12"
| "nrc_byte IncorrectMessageLengthOrInvalidFormat = 0x13"
| "nrc_byte ResponseTooLong = 0x14"
| "nrc_byte BusyRepeatRequest = 0x21"
| "nrc_byte ConditionsNotCorrect = 0x22"
| "nrc_byte RequestSequenceError = 0x24"
| "nrc_byte NoResponseFromSubnetComponent = 0x25"
| "nrc_byte FailurePreventsExecutionOfRequestedAction = 0x26"
| "nrc_byte RequestOutOfRange = 0x31"
| "nrc_byte SecurityAccessDenied = 0x33"
| "nrc_byte InvalidKey = 0x35"
| "nrc_byte ExceededNumberOfAttempts = 0x36"
| "nrc_byte RequiredTimeDelayNotExpired = 0x37"
| "nrc_byte UploadDownloadNotAccepted = 0x70"
| "nrc_byte TransferDataSuspended = 0x71"
| "nrc_byte GeneralProgrammingFailure = 0x72"
| "nrc_byte WrongBlockSequenceCounter = 0x73"
| "nrc_byte RequestCorrectlyReceivedResponsePending = 0x78"
| "nrc_byte SubFunctionNotSupportedInActiveSession = 0x7E"
| "nrc_byte ServiceNotSupportedInActiveSession = 0x7F"

datatype SessionType = Default | Programming | Extended

fun session_byte :: "SessionType \<Rightarrow> u8" where
  "session_byte Default = 0x01"
| "session_byte Programming = 0x02"
| "session_byte Extended = 0x03"

record TimingConfig =
  p2_ms :: u16
  p2_star_ms :: u16
  s3_ms :: u16

definition kDefaultTiming :: TimingConfig where
  "kDefaultTiming = \<lparr>p2_ms = 50, p2_star_ms = 5000, s3_ms = 5000\<rparr>"

definition session_allows_service :: "SessionType \<Rightarrow> SessionType \<Rightarrow> bool" where
  "session_allows_service current required =
     (if required = Default then True else current = required)"

text \<open>The enumerators have distinct bytes, so a byte names at most one of them.\<close>

lemma sid_byte_inject [simp]: "sid_byte a = sid_byte b \<longleftrightarrow> a = b"
  by (cases a; cases b; simp)

lemma nrc_byte_inject [simp]: "nrc_byte a = nrc_byte b \<longleftrightarrow> a = b"
  by (cases a; cases b; simp)

lemma session_byte_inject [simp]: "session_byte a = session_byte b \<longleftrightarrow> a = b"
  by (cases a; cases b; simp)

section \<open>The fixed-size buffer\<close>

record static_buffer =
  sb_data :: "u8 list"
  sb_length :: nat

text \<open>\<open>N\<close> is the length of the list \<open>sb_data\<close>, whose content the constructor leaves open.\<close>

definition sb_new :: "u8 list \<Rightarrow> static_buffer" where
  "sb_new garbage = \<lparr>sb_data = garbage, sb_length = 0\<rparr>"

definition sb_clear :: "static_buffer \<Rightarrow> static_buffer" where
  "sb_clear b = b\<lparr>sb_length := 0\<rparr>"

definition sb_append :: "u8 \<Rightarrow> static_buffer \<Rightarrow> bool \<times> static_buffer" where
  "sb_append x b =
     (if sb_length b \<ge> length (sb_data b) then (False, b)
      else (True, b\<lparr>sb_data := put (sb_length b) [x] (sb_data b),
                    sb_length := sb_length b + 1\<rparr>))"

definition sb_append_all :: "u8 list \<Rightarrow> static_buffer \<Rightarrow> bool \<times> static_buffer" where
  "sb_append_all src b =
     (if size_add (sb_length b) (length src) > length (sb_data b) then (False, b)
      else (True, b\<lparr>sb_data := put (sb_length b) src (sb_data b),
                    sb_length := sb_length b + length src\<rparr>))"

definition sb_wf :: "static_buffer \<Rightarrow> bool" where
  "sb_wf b \<longleftrightarrow> sb_length b \<le> length (sb_data b)"

definition sb_content :: "static_buffer \<Rightarrow> u8 list" where
  "sb_content b = take (sb_length b) (sb_data b)"

lemma sb_append_all_content:
  assumes "sb_wf b" "sb_length b + length src < 2 ^ 32"
  shows "sb_append_all src b =
     (if sb_length b + length src \<le> length (sb_data b)
      then (True, b\<lparr>sb_data := put (sb_length b) src (sb_data b),
                    sb_length := sb_length b + length src\<rparr>)
      else (False, b))"
  using assms by (simp add: sb_append_all_def)

lemma sb_append_as_append_all:
  assumes "sb_wf b" "sb_length b + 1 < 2 ^ 32"
  shows "sb_append x b = sb_append_all [x] b"
  using assms by (auto simp: sb_append_def sb_append_all_def)

end
