(* ===== verification/Uds_Session.thy ===== *)
theory Uds_Session
  imports Uds_Types
begin

text \<open>
  The session manager \<open>UdsSession\<close> (\<open>uds_session.hpp\<close>, \<open>uds_session.cpp\<close>): the active
  session, its timing parameters and the S3 timer, a deadline of the 32 bit millisecond
  tick with 0 for "not running". The timeout callback is a function on the environment
  \<open>'w\<close>, the state of everything outside the library (hardware and application).
\<close>

record 'w uds_session =
  m_session :: SessionType
  m_timing :: TimingConfig
  m_s3_deadline :: u32
  m_timed_out :: bool
  m_timeout_cb :: "('w \<Rightarrow> 'w) option"

definition session_new :: "TimingConfig \<Rightarrow> 'w uds_session" where
  "session_new timing =
     \<lparr>m_session = Default, m_timing = timing, m_s3_deadline = 0, m_timed_out = False,
      m_timeout_cb = None\<rparr>"

definition set_timeout_callback :: "('w \<Rightarrow> 'w) option \<Rightarrow> 'w uds_session \<Rightarrow> 'w uds_session" where
  "set_timeout_callback cb s = s\<lparr>m_timeout_cb := cb\<rparr>"

definition session_reset :: "'w uds_session \<Rightarrow> 'w uds_session" where
  "session_reset s = s\<lparr>m_session := Default, m_timed_out := False, m_s3_deadline := 0\<rparr>"

definition session_transition ::
  "SessionType \<Rightarrow> 'w uds_session \<Rightarrow> bool \<times> 'w uds_session" where
  "session_transition new_session s =
     (if new_session = Default then (True, session_reset s)
      else if new_session = Programming \<and> m_session s \<noteq> Default then (False, s)
      else (True, s\<lparr>m_session := new_session, m_timed_out := False\<rparr>))"

definition session_update :: "u32 \<Rightarrow> 'w uds_session \<Rightarrow> 'w \<Rightarrow> 'w uds_session \<times> 'w" where
  "session_update tick_ms s w =
     (if m_session s = Default then (s\<lparr>m_s3_deadline := 0, m_timed_out := False\<rparr>, w)
      else if m_s3_deadline s \<noteq> 0 \<and> tick_ms \<ge> m_s3_deadline s
      then (s\<lparr>m_timed_out := True, m_session := Default, m_s3_deadline := 0\<rparr>,
            case m_timeout_cb s of None \<Rightarrow> w | Some cb \<Rightarrow> cb w)
      else (s, w))"

definition session_keep_alive :: "u32 \<Rightarrow> 'w uds_session \<Rightarrow> 'w uds_session" where
  "session_keep_alive tick_ms s =
     (let s = s\<lparr>m_timed_out := False\<rparr> in
      if m_session s \<noteq> Default
      then s\<lparr>m_s3_deadline := tick_ms + ucast (s3_ms (m_timing s))\<rparr>
      else s)"

section \<open>Runs of the session manager\<close>

text \<open>The public operations that change the session, as events of a run.\<close>

datatype session_event =
    Transition SessionType
  | Reset
  | Update u32
  | KeepAlive u32

fun session_apply :: "session_event \<Rightarrow> 'w uds_session \<times> 'w \<Rightarrow> 'w uds_session \<times> 'w" where
  "session_apply (Transition t) (s, w) = (snd (session_transition t s), w)"
| "session_apply Reset (s, w) = (session_reset s, w)"
| "session_apply (Update t) (s, w) = session_update t s w"
| "session_apply (KeepAlive t) (s, w) = (session_keep_alive t s, w)"

fun session_run :: "session_event list \<Rightarrow> 'w uds_session \<times> 'w \<Rightarrow> 'w uds_session \<times> 'w" where
  "session_run [] sw = sw"
| "session_run (e # es) sw = session_run es (session_apply e sw)"


text \<open>The session states and the changes between them that \<open>session_design.md\<close> draws.\<close>

inductive session_step :: "SessionType \<Rightarrow> SessionType \<Rightarrow> bool" where
  stay: "session_step t t"
| enter_programming: "session_step Default Programming"
| enter_extended: "session_step t Extended"
| leave: "session_step t Default"

inductive_simps session_step_simps [simp]:
  "session_step t Programming"
  "session_step t Extended"
  "session_step t Default"



text \<open>
  The deadline is stopped whenever the default session is active; the transitions out of
  the default session therefore start with a stopped deadline.
\<close>

definition session_inv :: "'w uds_session \<Rightarrow> bool" where
  "session_inv s \<longleftrightarrow> (m_session s = Default \<longrightarrow> m_s3_deadline s = 0)"

lemma session_inv_new: "session_inv (session_new t)"
  by (simp add: session_inv_def session_new_def)

lemma session_inv_apply:
  "session_inv (fst sw) \<Longrightarrow> session_inv (fst (session_apply e sw))"
  by (cases e; cases sw)
    (auto simp: session_inv_def session_transition_def session_reset_def session_update_def
      session_keep_alive_def Let_def)

lemma session_inv_run:
  "session_inv (fst sw) \<Longrightarrow> session_inv (fst (session_run es sw))"
  by (induction es arbitrary: sw) (simp_all add: session_inv_apply)

lemma session_timing_apply [simp]:
  "m_timing (fst (session_apply e sw)) = m_timing (fst sw)"
  by (cases e; cases sw)
    (auto simp: session_transition_def session_reset_def session_update_def
      session_keep_alive_def Let_def)


text \<open>The wrap-around of the deadline, as numbers.\<close>

lemma unat_deadline:
  "unat (t + ucast d :: u32) = (unat t + unat (d :: u16)) mod 2 ^ 32"
  by (simp add: unat_word_ariths)

lemma session_update_nondefault:
  assumes "m_session s \<noteq> Default"
  shows "m_session (fst (session_update t s w)) \<noteq> Default \<longleftrightarrow>
    m_s3_deadline s = 0 \<or> unat t < unat (m_s3_deadline s)"
  using assms by (auto simp: session_update_def word_le_nat_alt)

lemma session_update_live_unchanged:
  assumes "m_session s \<noteq> Default" "m_session (fst (session_update t s w)) \<noteq> Default"
  shows "session_update t s w = (s, w)"
  using assms by (auto simp: session_update_def split: if_splits)

lemma stopped_deadline_updates:
  "m_session (fst sw) \<noteq> Default \<Longrightarrow> m_s3_deadline (fst sw) = 0 \<Longrightarrow>
    session_run (map Update ts) sw = sw"
proof (induction ts arbitrary: sw)
  case Nil
  then show ?case by simp
next
  case (Cons t ts)
  then have "session_apply (Update t) sw = sw"
    by (cases sw) (simp add: session_update_def)
  with Cons show ?case by simp
qed

section \<open>Properties\<close>



text \<open>
  C16. The S3 timer is exact while the tick counter does not wrap: after a
  \<open>keep_alive\<close> at tick \<open>t0\<close> in a non-default session, an \<open>update\<close> at tick \<open>t\<close> returns the
  ECU to the default session, raises \<open>is_timed_out\<close> and calls the timeout callback if and
  only if \<open>s3_ms\<close> milliseconds have passed; otherwise it changes nothing.
\<close>

theorem s3_timeout_exact:
  assumes "m_session s \<noteq> Default"
    and "unat t0 + unat (s3_ms (m_timing s)) < 2 ^ 32"
    and "0 < unat t0 + unat (s3_ms (m_timing s))"
  shows "session_update t (session_keep_alive t0 s) w =
    (if unat t0 + unat (s3_ms (m_timing s)) \<le> unat t
     then (s\<lparr>m_session := Default, m_s3_deadline := 0, m_timed_out := True\<rparr>,
           case m_timeout_cb s of None \<Rightarrow> w | Some cb \<Rightarrow> cb w)
     else (s\<lparr>m_s3_deadline := t0 + ucast (s3_ms (m_timing s)), m_timed_out := False\<rparr>, w))"
proof -
  let ?d = "t0 + ucast (s3_ms (m_timing s)) :: u32"
  from assms(2) have d: "unat ?d = unat t0 + unat (s3_ms (m_timing s))"
    by (simp add: unat_deadline)
  with assms(3) have "?d \<noteq> 0" by (metis less_not_refl unat_0)
  with d show ?thesis using assms(1)
    by (simp add: session_update_def session_keep_alive_def word_le_nat_alt)
qed

theorem s3_timeout_exact_witness:
  "fst (session_update 5100 (session_keep_alive 100
     ((session_new kDefaultTiming)\<lparr>m_session := Extended\<rparr>)) ()) =
   (session_new kDefaultTiming)\<lparr>m_timed_out := True\<rparr>"
  using s3_timeout_exact [of "(session_new kDefaultTiming)\<lparr>m_session := Extended\<rparr>" 100 5100 "()"]
  by (simp add: session_new_def kDefaultTiming_def)

text \<open>
  Entering a non-default session does not start the S3 timer: if the tester sends
  nothing after a successful transition out of the default session, the ECU stays in that
  session however often and at whatever ticks \<open>update\<close> is called.
\<close>

theorem s3_not_started_by_transition:
  assumes "session_inv s" and "m_session s = Default" and "t \<noteq> Default"
  shows "m_session (fst (session_run (map Update ts)
    (snd (session_transition t s), w))) = t"
  using assms by (subst stopped_deadline_updates)
    (auto simp: session_transition_def session_inv_def)

theorem s3_not_started_by_transition_witness:
  "m_session (fst (session_run (map Update [5000, 4000000000])
    (snd (session_transition Extended (session_new kDefaultTiming)), ()))) = Extended"
  by (rule s3_not_started_by_transition) (simp_all add: session_inv_new, simp add: session_new_def)

text \<open>
  The plain comparison with the deadline is not safe for a wrapping tick counter: when
  \<open>keep_alive\<close> runs within \<open>s3_ms\<close> of the end of the 32 bit range, the very next \<open>update\<close>
  at the same tick ends the session.
\<close>

theorem s3_wraparound_ends_session:
  assumes "m_session s \<noteq> Default"
    and "2 ^ 32 < unat t0 + unat (s3_ms (m_timing s))"
  shows "m_session (fst (session_update t0 (session_keep_alive t0 s) w)) = Default"
proof -
  let ?d = "t0 + ucast (s3_ms (m_timing s)) :: u32"
  have b: "unat t0 < 2 ^ 32" "unat (s3_ms (m_timing s)) < 2 ^ 16"
    using unat_u32_lt [of t0] unat_u16_lt [of "s3_ms (m_timing s)"] by simp_all
  with assms(2) have d: "unat ?d = unat t0 + unat (s3_ms (m_timing s)) - 2 ^ 32"
    unfolding unat_deadline by (subst le_mod_geq) (simp_all add: less_imp_le)
  with assms(2) have "?d \<noteq> 0" by (metis less_not_refl unat_0 zero_less_diff)
  moreover from d b have "unat ?d \<le> unat t0" by simp
  ultimately show ?thesis using assms(1)
    by (simp add: session_update_def session_keep_alive_def word_le_nat_alt)
qed

theorem s3_wraparound_ends_session_witness:
  "m_session (fst (session_update 0xFFFFFFF0 (session_keep_alive 0xFFFFFFF0
     ((session_new kDefaultTiming)\<lparr>m_session := Extended\<rparr>)) ())) = Default"
  by (rule s3_wraparound_ends_session) (simp_all add: session_new_def kDefaultTiming_def)

end
