(* ===== verification/Service_Base.thy ===== *)
theory Service_Base
  imports Uds_Session
begin

text \<open>
  What all service handlers share (\<open>include/uds/services/service_base.hpp\<close>). A handler gets the
  request bytes, the response buffer and its own state, and yields a \<open>reply\<close>: the boolean the
  function returns, the buffer it leaves and the final \<open>resp_len\<close>. On entry \<open>resp_len\<close> is the
  size of the buffer (the server passes \<open>sizeof(m_resp_buf)\<close>), so handlers read it as the
  length of the list. \<open>uds_service\<close> is the contract of \<open>IService\<close> the server relies on.
\<close>

record reply =
  r_send :: bool
  r_buf :: "u8 list"
  r_len :: nat

definition write_nrc :: "ServiceId \<Rightarrow> NrcCode \<Rightarrow> u8 list \<Rightarrow> u8 list \<times> nat" where
  "write_nrc sid nrc resp =
     (put 0 [sid_byte NegativeResponse, sid_byte sid, nrc_byte nrc] resp, 3)"

text \<open>\<open>write_nrc(...); return true;\<close>\<close>

definition nrc_reply :: "ServiceId \<Rightarrow> NrcCode \<Rightarrow> u8 list \<Rightarrow> reply" where
  "nrc_reply sid nrc resp =
     (case write_nrc sid nrc resp of (buf, n) \<Rightarrow> \<lparr>r_send = True, r_buf = buf, r_len = n\<rparr>)"

definition ensure_space :: "u8 list \<Rightarrow> nat \<Rightarrow> ServiceId \<Rightarrow> nat \<Rightarrow> bool \<times> u8 list \<times> nat" where
  "ensure_space resp len sid required =
     (if len < required then (case write_nrc sid ResponseTooLong resp of (buf, n) \<Rightarrow> (False, buf, n))
      else (True, resp, len))"

definition is_suppress_positive_response :: "u8 \<Rightarrow> bool" where
  "is_suppress_positive_response sub_func_byte \<longleftrightarrow> sub_func_byte AND 0x80 \<noteq> 0"

definition get_sub_func :: "u8 \<Rightarrow> u8" where
  "get_sub_func sub_func_byte = sub_func_byte AND 0x7F"

text \<open>\<open>resp[0] = sid + 0x40; resp[1] = ...; resp_len = ...; return send;\<close>\<close>

definition pos_reply :: "bool \<Rightarrow> ServiceId \<Rightarrow> u8 list \<Rightarrow> u8 list \<Rightarrow> reply" where
  "pos_reply send sid bs resp =
     \<lparr>r_send = send, r_buf = put 0 ((sid_byte sid + 0x40) # bs) resp, r_len = Suc (length bs)\<rparr>"

text \<open>A callback pointer that may be null, on the environment.\<close>

definition call_if :: "('w \<Rightarrow> 'w) option \<Rightarrow> 'w \<Rightarrow> 'w" where
  "call_if cb w = (case cb of None \<Rightarrow> w | Some f \<Rightarrow> f w)"

section \<open>Well-formed replies\<close>

text \<open>The bytes of a reply that go on the bus.\<close>

definition reply_bytes :: "reply \<Rightarrow> u8 list" where
  "reply_bytes r = take (r_len r) (r_buf r)"

definition negative_reply :: "ServiceId \<Rightarrow> NrcCode \<Rightarrow> reply \<Rightarrow> bool" where
  "negative_reply sid nrc r \<longleftrightarrow> r_send r \<and>
     reply_bytes r = [sid_byte NegativeResponse, sid_byte sid, nrc_byte nrc]"

definition positive_reply :: "ServiceId \<Rightarrow> reply \<Rightarrow> bool" where
  "positive_reply sid r \<longleftrightarrow>
     (\<exists>bs. reply_bytes r = (sid_byte sid + 0x40) # bs)"

definition reply_wf :: "nat \<Rightarrow> ServiceId \<Rightarrow> reply \<Rightarrow> bool" where
  "reply_wf cap sid r \<longleftrightarrow> length (r_buf r) = cap \<and> r_len r \<le> cap \<and>
     (positive_reply sid r \<or> (\<exists>nrc. negative_reply sid nrc r))"

lemma reply_bytes_nrc [simp]:
  "reply_bytes (nrc_reply sid nrc resp) = [sid_byte NegativeResponse, sid_byte sid, nrc_byte nrc]"
  by (simp add: reply_bytes_def nrc_reply_def write_nrc_def put_simps)

lemma reply_bytes_pos [simp]:
  "reply_bytes (pos_reply send sid bs resp) = (sid_byte sid + 0x40) # bs"
  by (simp add: reply_bytes_def pos_reply_def put_simps)

lemma r_send_nrc [simp]: "r_send (nrc_reply sid nrc resp)"
  by (simp add: nrc_reply_def write_nrc_def)

lemma r_send_pos [simp]: "r_send (pos_reply send sid bs resp) = send"
  by (simp add: pos_reply_def)

lemma negative_nrc [simp]: "negative_reply sid n (nrc_reply sid' n' resp) \<longleftrightarrow> sid = sid' \<and> n = n'"
  by (auto simp: negative_reply_def)

lemma positive_sid_not_negative: "sid_byte sid + 0x40 \<noteq> sid_byte NegativeResponse"
  by (cases sid) simp_all

lemma not_positive_nrc [simp]: "\<not> positive_reply sid (nrc_reply sid' nrc resp)"
  using positive_sid_not_negative [of sid] by (auto simp: positive_reply_def)

lemma positive_pos [simp]: "positive_reply sid (pos_reply send sid bs resp)"
  by (simp add: positive_reply_def)

lemma not_negative_pos [simp]: "\<not> negative_reply sid nrc (pos_reply send sid' bs resp)"
  using positive_sid_not_negative [of sid'] by (simp add: negative_reply_def)

lemma reply_wf_nrc [simp]:
  "3 \<le> length resp \<Longrightarrow> reply_wf cap sid (nrc_reply sid nrc resp) \<longleftrightarrow> cap = length resp"
  by (auto simp: reply_wf_def nrc_reply_def write_nrc_def put_simps negative_reply_def
      reply_bytes_def)

lemma reply_wf_pos [simp]:
  "length bs < length resp \<Longrightarrow> reply_wf cap sid (pos_reply send sid bs resp) \<longleftrightarrow> cap = length resp"
  using positive_pos [of sid send bs resp]
  by (auto simp: reply_wf_def pos_reply_def put_simps simp del: positive_pos)

lemma reply_wf_raw:
  "length buf = cap \<Longrightarrow> 1 \<le> n \<Longrightarrow> n \<le> cap \<Longrightarrow> hd buf = sid_byte sid + 0x40 \<Longrightarrow>
    reply_wf cap sid \<lparr>r_send = send, r_buf = buf, r_len = n\<rparr>"
  by (cases buf; cases n) (auto simp: reply_wf_def positive_reply_def reply_bytes_def)

lemma positive_or_negative:
  "reply_wf cap sid r \<Longrightarrow> positive_reply sid r \<longleftrightarrow> (\<forall>nrc. \<not> negative_reply sid nrc r)"
  using positive_sid_not_negative [of sid]
  by (auto simp: reply_wf_def positive_reply_def negative_reply_def)

section \<open>The contract of a service\<close>

text \<open>
  \<open>inv\<close> is the state invariant of the handler, with the documented behaviour of the
  callbacks registered in it; \<open>kMaxResp\<close> is the size of the buffer of the server.
\<close>

definition kMaxResp :: nat where "kMaxResp = 4096"

locale uds_service =
  fixes sid :: ServiceId
    and inv :: "'s \<Rightarrow> bool"
    and handle :: "u8 list \<Rightarrow> u8 list \<Rightarrow> 's \<Rightarrow> reply \<times> 's"
  assumes reply_ok: "inv s \<Longrightarrow> req \<noteq> [] \<Longrightarrow> length resp = kMaxResp \<Longrightarrow>
      reply_wf kMaxResp sid (fst (handle req resp s))"
    and inv_kept: "inv s \<Longrightarrow> req \<noteq> [] \<Longrightarrow> length resp = kMaxResp \<Longrightarrow>
      inv (snd (handle req resp s))"
begin

text \<open>A handler never writes outside the buffer and never leaves a request without an answer
  other than a suppressed positive one.\<close>

lemma silence_is_positive:
  "inv s \<Longrightarrow> req \<noteq> [] \<Longrightarrow> length resp = kMaxResp \<Longrightarrow>
    \<not> r_send (fst (handle req resp s)) \<Longrightarrow> positive_reply sid (fst (handle req resp s))"
  using reply_ok [of s req resp] by (auto simp: reply_wf_def negative_reply_def)

lemma buffer_kept:
  "inv s \<Longrightarrow> req \<noteq> [] \<Longrightarrow> length resp = kMaxResp \<Longrightarrow>
    length (r_buf (fst (handle req resp s))) = kMaxResp"
  using reply_ok [of s req resp] by (simp add: reply_wf_def)

text \<open>Requests handled one after the other on the same response buffer.\<close>

lemma run_ok:
  "inv s \<Longrightarrow> length resp = kMaxResp \<Longrightarrow> (\<forall>req \<in> set reqs. req \<noteq> []) \<Longrightarrow>
    inv (snd (fold (\<lambda>req (resp, s). case handle req resp s of (r, s') \<Rightarrow> (r_buf r, s')) reqs (resp, s)))"
proof (induction reqs arbitrary: resp s)
  case (Cons req reqs)
  then show ?case
    using inv_kept [of s req resp] buffer_kept [of s req resp]
    by (cases "handle req resp s") auto
qed simp

end

text \<open>A handler over a table that only registration changes.\<close>

lemma table_service:
  assumes "\<And>t req resp w. ok t \<Longrightarrow> req \<noteq> [] \<Longrightarrow> length resp = kMaxResp \<Longrightarrow>
    reply_wf kMaxResp sid (fst (h t req resp w))"
  shows "uds_service sid (\<lambda>(t, w). ok t)
    (\<lambda>req resp (t, w). case h t req resp w of (r, w') \<Rightarrow> (r, (t, w')))"
proof
  fix s :: "'a \<times> 'b" and req resp :: "u8 list"
  assume *: "case s of (t, w) \<Rightarrow> ok t" "req \<noteq> []" "length resp = kMaxResp"
  then show "reply_wf kMaxResp sid
      (fst ((\<lambda>(t, w). case h t req resp w of (r, w') \<Rightarrow> (r, (t, w'))) s))"
    using assms [of "fst s" req resp "snd s"] by (simp add: split_def)
  from * show "case snd ((\<lambda>(t, w). case h t req resp w of (r, w') \<Rightarrow> (r, (t, w'))) s) of
      (t, w) \<Rightarrow> ok t"
    by (simp add: split_def)
qed

end
