(* ===== verification/Registry.thy ===== *)
theory Registry
  imports Uds_Prelude
begin

text \<open>
  The tables of the library: arrays of a fixed size filled from the front by a registration
  function and searched from the front, for data identifiers, I/O controls, routines,
  security levels, trouble codes and services. The list of a model is the filled prefix of
  the array; no code reads the rest. \<open>registry\<close> is the contract those tables share: a full
  table refuses, and the first registration of a key wins; \<open>unique_registry\<close> adds that a key
  is never registered twice.
\<close>

section \<open>First match\<close>

fun find_index :: "('a \<Rightarrow> bool) \<Rightarrow> 'a list \<Rightarrow> nat option" where
  "find_index P [] = None"
| "find_index P (x # xs) = (if P x then Some 0 else map_option Suc (find_index P xs))"

lemma find_index_nth: "map_option ((!) xs) (find_index P xs) = find P xs"
  by (induction xs) (auto simp: option.map_comp comp_def)

lemma find_index_Some:
  "find_index P xs = Some i \<Longrightarrow> i < length xs \<and> P (xs ! i) \<and> (\<forall>j < i. \<not> P (xs ! j))"
proof (induction xs arbitrary: i)
  case Nil
  then show ?case by simp
next
  case (Cons x xs)
  then show ?case by (auto split: if_splits simp: nth_Cons split: nat.splits)
qed

lemma find_index_append:
  "find_index P (xs @ ys) =
     (case find_index P xs of Some i \<Rightarrow> Some i
      | None \<Rightarrow> map_option (\<lambda>i. length xs + i) (find_index P ys))"
  by (induction xs) (cases "find_index P ys"; auto split: option.splits)+

lemma find_index_None [simp]: "find_index P xs = None \<longleftrightarrow> (\<forall>x \<in> set xs. \<not> P x)"
  by (induction xs) auto

lemma find_append:
  "find P (xs @ ys) = (case find P xs of Some x \<Rightarrow> Some x | None \<Rightarrow> find P ys)"
  by (induction xs) auto

lemma find_SomeD: "find P xs = Some x \<Longrightarrow> P x \<and> x \<in> set xs"
  by (induction xs) (auto split: if_splits)

lemma find_distinct:
  "distinct (map key xs) \<Longrightarrow> e \<in> set xs \<Longrightarrow> find (\<lambda>x. key x = key e) xs = Some e"
  by (induction xs) (auto simp: rev_image_eqI)

lemma find_None_iff': "find P xs = None \<longleftrightarrow> (\<forall>x \<in> set xs. \<not> P x)"
  by (auto simp: find_None_iff)

lemma find_index_update:
  "find_index (\<lambda>e. k e = c) (xs[i := x]) = find_index (\<lambda>e. k e = c) xs"
  if "i < length xs \<Longrightarrow> k x = k (xs ! i)"
  using that
proof (induction xs arbitrary: i)
  case Nil
  then show ?case by simp
next
  case (Cons y ys)
  then show ?case by (cases i) auto
qed

lemma find_index_map:
  "(\<And>e. e \<in> set xs \<Longrightarrow> k (f e) = k e) \<Longrightarrow>
    find_index (\<lambda>e. k e = c) (map f xs) = find_index (\<lambda>e. k e = c) xs"
  by (induction xs) auto

section \<open>The contract\<close>

locale registry =
  fixes cap :: nat
    and accept :: "'c \<Rightarrow> 's \<Rightarrow> bool"
    and make :: "'c \<Rightarrow> 'e"
    and key :: "'e \<Rightarrow> 'k"
    and entries :: "'s \<Rightarrow> 'e list"
    and add :: "'c \<Rightarrow> 's \<Rightarrow> bool \<times> 's"
    and lookup :: "'k \<Rightarrow> 's \<Rightarrow> 'e option"
  assumes add_accepted: "fst (add c s) \<longleftrightarrow> length (entries s) < cap \<and> accept c s"
    and add_entries:
      "entries (snd (add c s)) = entries s @ (if fst (add c s) then [make c] else [])"
    and lookup_find: "lookup k s = find (\<lambda>e. key e = k) (entries s)"
begin

lemma lookup_add:
  "lookup k (snd (add c s)) =
     (case lookup k s of
        Some e \<Rightarrow> Some e
      | None \<Rightarrow> if fst (add c s) \<and> key (make c) = k then Some (make c) else None)"
  by (simp add: lookup_find add_entries find_append split: option.split)

lemma first_registration_wins:
  "lookup k s = Some e \<Longrightarrow> lookup k (snd (add c s)) = Some e"
  by (simp add: lookup_add)

lemma lookup_key: "lookup k s = Some e \<Longrightarrow> key e = k \<and> e \<in> set (entries s)"
  unfolding lookup_find using find_SomeD [of "\<lambda>e. key e = k"] by blast

lemma entries_bounded:
  "length (entries s) \<le> cap \<Longrightarrow> length (entries (snd (add c s))) \<le> cap"
  by (simp add: add_entries add_accepted)

lemma full_refuses: "length (entries s) \<ge> cap \<Longrightarrow> \<not> fst (add c s)"
  by (simp add: add_accepted)

end

text \<open>Registering a list of configurations one after the other.\<close>

primrec add_all :: "('c \<Rightarrow> 's \<Rightarrow> bool \<times> 's) \<Rightarrow> 'c list \<Rightarrow> 's \<Rightarrow> 's" where
  "add_all add [] s = s"
| "add_all add (c # cs) s = add_all add cs (snd (add c s))"

context registry
begin

lemma add_all_lookup:
  assumes "\<And>c s. accept c s" "length (entries s) + length cs \<le> cap"
  shows "entries (add_all add cs s) = entries s @ map make cs"
  using assms(2)
proof (induction cs arbitrary: s)
  case Nil
  then show ?case by simp
next
  case (Cons c cs)
  then have "fst (add c s)" using assms(1) by (simp add: add_accepted)
  with Cons show ?case by (simp add: add_entries)
qed

end

locale unique_registry = registry +
  assumes accept_fresh: "accept c s \<Longrightarrow> lookup (key (make c)) s = None"
begin

lemma distinct_add:
  assumes "distinct (map key (entries s))"
  shows "distinct (map key (entries (snd (add c s))))"
proof (cases "fst (add c s)")
  case True
  then have "lookup (key (make c)) s = None" using accept_fresh add_accepted by blast
  then have "key (make c) \<notin> key ` set (entries s)"
    by (auto simp: lookup_find find_None_iff')
  with True assms show ?thesis by (simp add: add_entries)
qed (use assms in \<open>simp add: add_entries\<close>)

lemma distinct_add_all:
  "distinct (map key (entries s)) \<Longrightarrow> distinct (map key (entries (add_all add cs s)))"
  by (induction cs arbitrary: s) (auto intro: distinct_add)

lemma lookup_iff:
  assumes "distinct (map key (entries s))"
  shows "lookup k s = Some e \<longleftrightarrow> e \<in> set (entries s) \<and> key e = k"
proof
  assume "e \<in> set (entries s) \<and> key e = k"
  with assms show "lookup k s = Some e"
    unfolding lookup_find using find_distinct by fast
qed (use lookup_key in blast)

end

end
