(* ===== verification/Services_Data.thy ===== *)
theory Services_Data
  imports Service_Base Registry
begin

text \<open>
  The services on data and routines: ReadDataByIdentifier, WriteDataByIdentifier,
  InputOutputControlByIdentifier and RoutineControl. Their tables are filled at start-up
  (\<open>register_...\<close>) and searched from the front. A callback that fills a part of the response
  buffer gets that part (\<open>resp + pos\<close> to the end of the array) and returns it changed, with
  the number of bytes it reports; \<open>fills_buffer\<close> is its documented duty not to leave the part
  it was given. A callback pointer that is tested for null is an option; the control function
  of an I/O entry is called without a test.
\<close>

definition fills_buffer :: "nat \<Rightarrow> u8 list \<Rightarrow> u8 list \<Rightarrow> bool" where
  "fills_buffer n buf buf' \<longleftrightarrow> length buf' = length buf \<and> n \<le> length buf"

section \<open>Data identifiers\<close>

definition kMaxDataIdentifiers :: nat where "kMaxDataIdentifiers = 64"

record 'w data_identifier =
  did :: u16
  writable :: bool
  read_fn :: "(u8 list \<Rightarrow> nat \<Rightarrow> 'w \<Rightarrow> nat \<times> u8 list \<times> 'w) option"
  write_fn :: "(u8 list \<Rightarrow> 'w \<Rightarrow> bool \<times> 'w) option"

definition register_did ::
    "'w data_identifier \<Rightarrow> 'w data_identifier list \<Rightarrow> bool \<times> 'w data_identifier list" where
  "register_did entry m_dids =
     (if length m_dids \<ge> kMaxDataIdentifiers then (False, m_dids)
      else (True, m_dids @ [entry]))"

definition find_did :: "u16 \<Rightarrow> 'w data_identifier list \<Rightarrow> 'w data_identifier option" where
  "find_did d m_dids = find (\<lambda>e. did e = d) m_dids"

section \<open>ReadDataByIdentifier\<close>

text \<open>The loop over the identifiers, given as the request bytes that are left.\<close>

fun rdbi_loop ::
    "'w data_identifier list \<Rightarrow> u8 list \<Rightarrow> u8 list \<Rightarrow> nat \<Rightarrow> 'w \<Rightarrow> reply \<times> 'w" where
  "rdbi_loop m_dids (a # b # ids) resp pos w =
     (let did_id = be16 a b in
      case find_did did_id m_dids of
        None \<Rightarrow> (nrc_reply ReadDataByIdentifier RequestOutOfRange resp, w)
      | Some d \<Rightarrow>
          (case read_fn d of
             None \<Rightarrow> (nrc_reply ReadDataByIdentifier ConditionsNotCorrect resp, w)
           | Some f \<Rightarrow>
               if pos + 2 > size_sub (length resp) 1
               then (nrc_reply ReadDataByIdentifier ResponseTooLong resp, w)
               else
                 let resp = put pos [hi8 did_id, lo8 did_id] resp;
                     pos = pos + 2;
                     avail = size_sub (length resp) pos
                 in (case f (drop pos resp) avail w of
                       (written, part, w) \<Rightarrow>
                         let resp = take pos resp @ part in
                         if written = 0
                         then (nrc_reply ReadDataByIdentifier ConditionsNotCorrect resp, w)
                         else rdbi_loop m_dids ids resp (pos + written) w)))"
| "rdbi_loop m_dids ids resp pos w = (\<lparr>r_send = True, r_buf = resp, r_len = pos\<rparr>, w)"

definition rdbi_handle ::
    "'w data_identifier list \<Rightarrow> u8 list \<Rightarrow> u8 list \<Rightarrow> 'w \<Rightarrow> reply \<times> 'w" where
  "rdbi_handle m_dids req resp w =
     (if length req < 3 \<or> (length req - 1) mod 2 \<noteq> 0 then
        (nrc_reply ReadDataByIdentifier IncorrectMessageLengthOrInvalidFormat resp, w)
      else
        rdbi_loop m_dids (drop 1 req) (put 0 [sid_byte ReadDataByIdentifier + 0x40] resp) 1 w)"

section \<open>WriteDataByIdentifier\<close>

definition wdbi_handle ::
    "'w data_identifier list \<Rightarrow> u8 list \<Rightarrow> u8 list \<Rightarrow> 'w \<Rightarrow> reply \<times> 'w" where
  "wdbi_handle m_dids req resp w =
     (if length req < 4 then
        (nrc_reply WriteDataByIdentifier IncorrectMessageLengthOrInvalidFormat resp, w)
      else
        let did_id = be16 (req ! 1) (req ! 2) in
        case find_did did_id m_dids of
          None \<Rightarrow> (nrc_reply WriteDataByIdentifier RequestOutOfRange resp, w)
        | Some d \<Rightarrow>
            (case (writable d, write_fn d) of
               (True, Some f) \<Rightarrow>
                 (case f (drop 3 req) w of
                    (ok, w) \<Rightarrow>
                      if \<not> ok
                      then (nrc_reply WriteDataByIdentifier GeneralProgrammingFailure resp, w)
                      else (pos_reply True WriteDataByIdentifier [hi8 did_id, lo8 did_id] resp, w))
             | _ \<Rightarrow> (nrc_reply WriteDataByIdentifier SecurityAccessDenied resp, w)))"

section \<open>InputOutputControlByIdentifier\<close>

definition kMaxIoControls :: nat where "kMaxIoControls = 32"

text \<open>Arguments: action byte, control option, response part, its length, environment.\<close>

record 'w io_control_entry =
  io_did :: u16
  io_control :: "u8 \<Rightarrow> u8 list option \<Rightarrow> u8 list \<Rightarrow> nat \<Rightarrow> 'w \<Rightarrow> bool \<times> u8 list \<times> nat \<times> 'w"
  io_required_session :: SessionType

definition register_io_control ::
    "'w io_control_entry \<Rightarrow> 'w io_control_entry list \<Rightarrow> bool \<times> 'w io_control_entry list" where
  "register_io_control entry m_controls =
     (if length m_controls \<ge> kMaxIoControls then (False, m_controls)
      else (True, m_controls @ [entry]))"

definition find_io :: "u16 \<Rightarrow> 'w io_control_entry list \<Rightarrow> 'w io_control_entry option" where
  "find_io d m_controls = find (\<lambda>e. io_did e = d) m_controls"

definition io_handle ::
    "'w io_control_entry list \<Rightarrow> 'v uds_session \<Rightarrow> u8 list \<Rightarrow> u8 list \<Rightarrow> 'w \<Rightarrow> reply \<times> 'w" where
  "io_handle m_controls session req resp w =
     (if length req < 4 then
        (nrc_reply InputOutputControlByIdentifier IncorrectMessageLengthOrInvalidFormat resp, w)
      else
        let did_id = be16 (req ! 1) (req ! 2);
            action = req ! 3
        in case find_io did_id m_controls of
             None \<Rightarrow> (nrc_reply InputOutputControlByIdentifier RequestOutOfRange resp, w)
           | Some ctrl \<Rightarrow>
               if io_required_session ctrl \<noteq> Default \<and>
                  io_required_session ctrl \<noteq> m_session session then
                 (nrc_reply InputOutputControlByIdentifier ServiceNotSupportedInActiveSession resp, w)
               else
                 let opt = (if length req > 4 then Some (drop 4 req) else None);
                     rec_len = size_sub (length resp) 4;
                     resp = put 0 [sid_byte InputOutputControlByIdentifier + 0x40,
                                   hi8 did_id, lo8 did_id, action] resp
                 in (case io_control ctrl action opt (drop 4 resp) rec_len w of
                       (ok, part, rec_len, w) \<Rightarrow>
                         let resp = take 4 resp @ part in
                         if \<not> ok
                         then (nrc_reply InputOutputControlByIdentifier ConditionsNotCorrect resp, w)
                         else (\<lparr>r_send = True, r_buf = resp, r_len = 4 + rec_len\<rparr>, w)))"

section \<open>RoutineControl\<close>

definition kMaxRoutines :: nat where "kMaxRoutines = 32"

text \<open>\<open>resp_len\<close> of a routine points to a variable that is 0 before the call.\<close>

type_synonym 'w routine_fn = "u8 list option \<Rightarrow> u8 list \<Rightarrow> 'w \<Rightarrow> bool \<times> u8 list \<times> nat \<times> 'w"

record 'w routine_entry =
  routine_id :: u16
  routine_start :: "'w routine_fn option"
  routine_stop :: "'w routine_fn option"
  routine_results :: "(u8 list \<Rightarrow> 'w \<Rightarrow> bool \<times> u8 list \<times> nat \<times> 'w) option"
  routine_required_session :: SessionType

definition register_routine ::
    "'w routine_entry \<Rightarrow> 'w routine_entry list \<Rightarrow> bool \<times> 'w routine_entry list" where
  "register_routine entry m_routines =
     (if length m_routines \<ge> kMaxRoutines then (False, m_routines)
      else (True, m_routines @ [entry]))"

definition find_routine :: "u16 \<Rightarrow> 'w routine_entry list \<Rightarrow> 'w routine_entry option" where
  "find_routine ident m_routines = find (\<lambda>e. routine_id e = ident) m_routines"

text \<open>What follows the call of the selected function.\<close>

definition routine_answer ::
    "u8 list \<Rightarrow> bool \<times> u8 list \<times> nat \<times> 'w \<Rightarrow> reply \<times> 'w" where
  "routine_answer resp = (\<lambda>(ok, part, rec_len, w).
     let resp = take 4 resp @ part in
     if \<not> ok
     then (nrc_reply RoutineControl FailurePreventsExecutionOfRequestedAction resp, w)
     else (\<lparr>r_send = True, r_buf = resp, r_len = 4 + rec_len\<rparr>, w))"

definition routine_handle ::
    "'w routine_entry list \<Rightarrow> 'v uds_session \<Rightarrow> u8 list \<Rightarrow> u8 list \<Rightarrow> 'w \<Rightarrow> reply \<times> 'w" where
  "routine_handle m_routines session req resp w =
     (if length req < 4 then
        (nrc_reply RoutineControl IncorrectMessageLengthOrInvalidFormat resp, w)
      else
        let sub = req ! 1;
            rtn_id = be16 (req ! 2) (req ! 3)
        in if sub < 1 \<or> sub > 3 then (nrc_reply RoutineControl SubFunctionNotSupported resp, w)
           else case find_routine rtn_id m_routines of
             None \<Rightarrow> (nrc_reply RoutineControl RequestOutOfRange resp, w)
           | Some rtn \<Rightarrow>
               if routine_required_session rtn \<noteq> Default \<and>
                  routine_required_session rtn \<noteq> m_session session then
                 (nrc_reply RoutineControl ServiceNotSupportedInActiveSession resp, w)
               else
                 let resp = put 0 [sid_byte RoutineControl + 0x40, sub, hi8 rtn_id, lo8 rtn_id] resp;
                     opt = (if length req > 4 then Some (drop 4 req) else None)
                 in if sub = 1 then
                      (case routine_start rtn of
                         None \<Rightarrow> (nrc_reply RoutineControl SubFunctionNotSupported resp, w)
                       | Some f \<Rightarrow> routine_answer resp (f opt (drop 4 resp) w))
                    else if sub = 2 then
                      (case routine_stop rtn of
                         None \<Rightarrow> (nrc_reply RoutineControl SubFunctionNotSupported resp, w)
                       | Some f \<Rightarrow> routine_answer resp (f opt (drop 4 resp) w))
                    else
                      (case routine_results rtn of
                         None \<Rightarrow> (nrc_reply RoutineControl RequestSequenceError resp, w)
                       | Some f \<Rightarrow> routine_answer resp (f (drop 4 resp) w)))"

section \<open>The tables\<close>

interpretation dids: registry kMaxDataIdentifiers "\<lambda>_ _. True" "\<lambda>e. e" did "\<lambda>t. t"
  register_did find_did
  by unfold_locales (auto simp: register_did_def find_did_def)

interpretation io_controls: registry kMaxIoControls "\<lambda>_ _. True" "\<lambda>e. e" io_did "\<lambda>t. t"
  register_io_control find_io
  by unfold_locales (auto simp: register_io_control_def find_io_def)

interpretation routines: registry kMaxRoutines "\<lambda>_ _. True" "\<lambda>e. e" routine_id "\<lambda>t. t"
  register_routine find_routine
  by unfold_locales (auto simp: register_routine_def find_routine_def)

section \<open>The contract of the callbacks\<close>

definition reader_ok :: "'w data_identifier \<Rightarrow> bool" where
  "reader_ok d \<longleftrightarrow> (\<forall>f buf w n buf' w'. read_fn d = Some f \<longrightarrow>
     f buf (length buf) w = (n, buf', w') \<longrightarrow> fills_buffer n buf buf')"

definition io_ok :: "'w io_control_entry \<Rightarrow> bool" where
  "io_ok e \<longleftrightarrow> (\<forall>action opt buf w ok buf' n w'.
     io_control e action opt buf (length buf) w = (ok, buf', n, w') \<longrightarrow>
       length buf' = length buf \<and> (ok \<longrightarrow> n \<le> length buf))"

definition routine_fn_ok :: "(u8 list \<Rightarrow> 'w \<Rightarrow> bool \<times> u8 list \<times> nat \<times> 'w) \<Rightarrow> bool" where
  "routine_fn_ok f \<longleftrightarrow> (\<forall>buf w ok buf' n w'.
     length buf = kMaxResp - 4 \<longrightarrow> f buf w = (ok, buf', n, w') \<longrightarrow>
       length buf' = length buf \<and> (ok \<longrightarrow> n \<le> length buf))"

definition routine_ok :: "'w routine_entry \<Rightarrow> bool" where
  "routine_ok e \<longleftrightarrow>
     (\<forall>f opt. routine_start e = Some f \<longrightarrow> routine_fn_ok (f opt)) \<and>
     (\<forall>f opt. routine_stop e = Some f \<longrightarrow> routine_fn_ok (f opt)) \<and>
     (\<forall>f. routine_results e = Some f \<longrightarrow> routine_fn_ok f)"

section \<open>The contract of \<open>IService\<close>\<close>

lemma hd_put [put_simps]: "0 < off \<Longrightarrow> off \<le> length buf \<Longrightarrow> hd (put off bs buf) = hd buf"
  by (cases buf; cases off) (auto simp: put_def)

lemma hd_take_append: "0 < n \<Longrightarrow> n \<le> length xs \<Longrightarrow> hd (take n xs @ ys) = hd xs"
  by (cases xs; cases n) auto

lemma hd_put_0 [put_simps]: "bs \<noteq> [] \<Longrightarrow> hd (put 0 bs buf) = hd bs"
  by (cases bs) (auto simp: put_def)

lemma find_did_in: "find_did d t = Some e \<Longrightarrow> e \<in> set t"
  using dids.lookup_key by blast

text \<open>One identifier of the loop, when there is room for its number.\<close>

lemma rdbi_loop_step:
  assumes "find_did (be16 a b) t = Some e" "read_fn e = Some f" "pos + 2 \<le> kMaxResp - 1"
    and "length resp = kMaxResp"
    and "f (drop (pos + 2) (put pos [a, b] resp)) (kMaxResp - (pos + 2)) w = (n, part, w')"
  shows "rdbi_loop t (a # b # ids) resp pos w =
    (let r = take (pos + 2) (put pos [a, b] resp) @ part in
     if n = 0 then (nrc_reply ReadDataByIdentifier ConditionsNotCorrect r, w')
     else rdbi_loop t ids r (pos + 2 + n) w')"
proof -
  have "pos + 2 \<le> kMaxResp" using assms(3) by simp
  then show ?thesis using assms by (simp add: Let_def byte_simps length_put)
qed

lemma rdbi_loop_wf:
  assumes "\<forall>d \<in> set t. reader_ok d"
  shows "length resp = kMaxResp \<Longrightarrow> 1 \<le> pos \<Longrightarrow> pos \<le> kMaxResp \<Longrightarrow>
    hd resp = sid_byte ReadDataByIdentifier + 0x40 \<Longrightarrow>
    reply_wf kMaxResp ReadDataByIdentifier (fst (rdbi_loop t ids resp pos w))"
proof (induction ids arbitrary: resp pos w rule: induct_list012)
  case (3 a b ids)
  let ?d = "be16 a b"
  show ?case
  proof (cases "\<exists>e f. find_did ?d t = Some e \<and> read_fn e = Some f \<and> pos + 2 \<le> length resp - 1")
    case False
    with "3.prems" show ?thesis by (auto simp: kMaxResp_def Let_def split: option.split)
  next
    case True
    then obtain e f where e: "find_did ?d t = Some e" "read_fn e = Some f"
      "pos + 2 \<le> length resp - 1" by blast
    let ?resp = "put pos [a, b] resp"
    obtain n part w' where f: "f (drop (pos + 2) ?resp) (kMaxResp - (pos + 2)) w = (n, part, w')"
      by (metis prod_cases3)
    have len: "length ?resp = kMaxResp" using "3.prems" e(3) by (simp add: length_put)
    have "reader_ok e" using assms find_did_in [OF e(1)] by blast
    then have "fills_buffer n (drop (pos + 2) ?resp) part"
      using e(2) f len unfolding reader_ok_def by (metis length_drop)
    then have fit: "length part = kMaxResp - (pos + 2)" "n \<le> kMaxResp - (pos + 2)"
      using len by (simp_all add: fills_buffer_def)
    have bound: "pos + 2 < kMaxResp" using e(3) "3.prems" by simp
    have hd: "hd (take (pos + 2) ?resp @ part) = hd resp"
      using bound len "3.prems" by (simp add: hd_take_append hd_put)
    have *: "rdbi_loop t (a # b # ids) resp pos w =
        (if n = 0
         then (nrc_reply ReadDataByIdentifier ConditionsNotCorrect (take (pos + 2) ?resp @ part), w')
         else rdbi_loop t ids (take (pos + 2) ?resp @ part) (pos + 2 + n) w')"
      using rdbi_loop_step [OF e(1,2) _ _ f] e(3) "3.prems"(1) by (simp add: Let_def)
    show ?thesis
    proof (cases "n = 0")
      case True
      with * fit len bound show ?thesis by (simp add: kMaxResp_def)
    next
      case False
      have "reply_wf kMaxResp ReadDataByIdentifier
          (fst (rdbi_loop t ids (take (pos + 2) ?resp @ part) (pos + 2 + n) w'))"
        by (rule "3.IH"(1)) (use len bound fit hd "3.prems" in \<open>simp_all\<close>)
      with * False show ?thesis by simp
    qed
  qed
qed (simp_all add: reply_wf_raw)

lemma rdbi_wf:
  assumes "\<forall>d \<in> set t. reader_ok d" "length resp = kMaxResp"
  shows "reply_wf kMaxResp ReadDataByIdentifier (fst (rdbi_handle t req resp w))"
  using assms rdbi_loop_wf [OF assms(1), of "put 0 [sid_byte ReadDataByIdentifier + 0x40] resp" 1]
  by (auto simp: rdbi_handle_def length_put hd_put_0 kMaxResp_def)

lemma wdbi_wf: "length resp = kMaxResp \<Longrightarrow>
    reply_wf kMaxResp WriteDataByIdentifier (fst (wdbi_handle t req resp w))"
  by (auto simp: wdbi_handle_def Let_def kMaxResp_def split: option.split prod.split bool.split)

lemma sub_answer_wf:
  assumes "length resp = kMaxResp" "length part = kMaxResp - 4" "n \<le> kMaxResp - 4"
    "hd resp = sid_byte sid + 0x40"
  shows "reply_wf kMaxResp sid \<lparr>r_send = True, r_buf = take 4 resp @ part, r_len = 4 + n\<rparr>"
  using assms by (intro reply_wf_raw) (simp_all add: kMaxResp_def hd_take_append)

lemma io_wf:
  assumes "\<forall>e \<in> set t. io_ok e" "length resp = kMaxResp"
  shows "reply_wf kMaxResp InputOutputControlByIdentifier (fst (io_handle t session req resp w))"
proof (cases "length req < 4 \<or> find_io (be16 (req ! 1) (req ! 2)) t = None")
  case True
  with assms show ?thesis by (auto simp: io_handle_def Let_def kMaxResp_def)
next
  case False
  then obtain e where e: "find_io (be16 (req ! 1) (req ! 2)) t = Some e" by blast
  then have ok: "io_ok e" using assms(1) io_controls.lookup_key by blast
  let ?resp = "put 0 [0x6F, hi8 (be16 (req ! 1) (req ! 2)), lo8 (be16 (req ! 1) (req ! 2)), req ! 3] resp"
  let ?opt = "if length req > 4 then Some (drop 4 req) else None"
  obtain k part n w' where c: "io_control e (req ! 3) ?opt (drop 4 ?resp) (kMaxResp - 4) w = (k, part, n, w')"
    by (metis prod_cases4)
  have len: "length ?resp = kMaxResp" using assms(2) by (simp add: length_put kMaxResp_def)
  have part: "length part = kMaxResp - 4" "k \<Longrightarrow> n \<le> kMaxResp - 4"
    using ok c len unfolding io_ok_def by (metis length_drop)+
  have "hd ?resp = 0x6F" by (simp add: hd_put_0)
  then show ?thesis
    using False e c assms(2) part len sub_answer_wf [of ?resp part n InputOutputControlByIdentifier]
    by (auto simp: io_handle_def Let_def kMaxResp_def)
qed

lemma routine_answer_wf:
  assumes "length resp = kMaxResp" "routine_fn_ok f" "hd resp = sid_byte RoutineControl + 0x40"
  shows "reply_wf kMaxResp RoutineControl (fst (routine_answer resp (f (drop 4 resp) w)))"
proof -
  obtain k part n w' where f: "f (drop 4 resp) w = (k, part, n, w')" by (metis prod_cases4)
  then have "length part = kMaxResp - 4" "k \<Longrightarrow> n \<le> kMaxResp - 4"
    using assms(1,2) unfolding routine_fn_ok_def by (metis length_drop)+
  with f assms sub_answer_wf [of resp part n RoutineControl] show ?thesis
    by (auto simp: routine_answer_def Let_def kMaxResp_def)
qed

lemma routine_wf:
  assumes "\<forall>e \<in> set t. routine_ok e" "length resp = kMaxResp"
  shows "reply_wf kMaxResp RoutineControl (fst (routine_handle t session req resp w))"
proof (cases "length req < 4 \<or> req ! 1 < 1 \<or> req ! 1 > 3 \<or> find_routine (be16 (req ! 2) (req ! 3)) t = None")
  case True
  with assms show ?thesis by (auto simp: routine_handle_def Let_def kMaxResp_def)
next
  case False
  then obtain e where e: "find_routine (be16 (req ! 2) (req ! 3)) t = Some e" by blast
  then have ok: "routine_ok e" using assms(1) routines.lookup_key by blast
  let ?resp = "put 0 [0x71, req ! 1, hi8 (be16 (req ! 2) (req ! 3)), lo8 (be16 (req ! 2) (req ! 3))] resp"
  let ?opt = "if length req > 4 then Some (drop 4 req) else None"
  have len: "length ?resp = kMaxResp" using assms(2) by (simp add: length_put kMaxResp_def)
  have hd: "hd ?resp = sid_byte RoutineControl + 0x40" by (simp add: hd_put_0)
  have a: "reply_wf kMaxResp RoutineControl (fst (routine_answer ?resp (f (drop 4 ?resp) w)))"
    if "routine_fn_ok f" for f :: "u8 list \<Rightarrow> 'a \<Rightarrow> bool \<times> u8 list \<times> nat \<times> 'a"
    by (rule routine_answer_wf [OF len that hd])
  have nrc: "reply_wf kMaxResp RoutineControl (nrc_reply RoutineControl c ?resp)" for c
    using len by (simp add: kMaxResp_def)
  have fns: "routine_fn_ok (f ?opt)" if "routine_start e = Some f \<or> routine_stop e = Some f" for f
    using ok that by (auto simp: routine_ok_def)
  have res: "routine_fn_ok f" if "routine_results e = Some f" for f
    using ok that by (simp add: routine_ok_def)
  from False e show ?thesis
    using assms(2) a [OF fns] a [OF res] nrc
    unfolding routine_handle_def Let_def
    by (auto simp: kMaxResp_def split: option.split)
qed

interpretation rdbi: uds_service ReadDataByIdentifier "\<lambda>(t, w). \<forall>d \<in> set t. reader_ok d"
  "\<lambda>req resp (t, w). case rdbi_handle t req resp w of (r, w') \<Rightarrow> (r, (t, w'))"
  by (rule table_service) (rule rdbi_wf)

interpretation wdbi: uds_service WriteDataByIdentifier "\<lambda>(t, w). True"
  "\<lambda>req resp (t, w). case wdbi_handle t req resp w of (r, w') \<Rightarrow> (r, (t, w'))"
  by (rule table_service) (rule wdbi_wf)

interpretation io: uds_service InputOutputControlByIdentifier "\<lambda>(t, w). \<forall>e \<in> set t. io_ok e"
  "\<lambda>req resp (t, w). case io_handle t session req resp w of (r, w') \<Rightarrow> (r, (t, w'))"
  for session :: "'v uds_session"
  by (rule table_service) (rule io_wf)

interpretation routine: uds_service RoutineControl "\<lambda>(t, w). \<forall>e \<in> set t. routine_ok e"
  "\<lambda>req resp (t, w). case routine_handle t session req resp w of (r, w') \<Rightarrow> (r, (t, w'))"
  for session :: "'v uds_session"
  by (rule table_service) (rule routine_wf)

section \<open>Reading identifiers\<close>

text \<open>
  \<open>serves t w d bs\<close>: the identifier d is registered with a reader that yields the bytes bs
  in the environment w whenever they fit, and leaves the environment alone.
\<close>

definition serves :: "'w data_identifier list \<Rightarrow> 'w \<Rightarrow> u16 \<Rightarrow> u8 list \<Rightarrow> bool" where
  "serves t w d bs \<longleftrightarrow> bs \<noteq> [] \<and>
     (\<exists>e f. find_did d t = Some e \<and> read_fn e = Some f \<and>
        (\<forall>buf. length bs \<le> length buf \<longrightarrow> f buf (length buf) w = (length bs, put 0 bs buf, w)))"

text \<open>The request bytes of identifiers, and the response record of identifiers with data.\<close>

definition did_bytes :: "u16 list \<Rightarrow> u8 list" where
  "did_bytes ds = concat (map (\<lambda>d. [hi8 d, lo8 d]) ds)"

definition did_record :: "(u16 \<times> u8 list) list \<Rightarrow> u8 list" where
  "did_record items = concat (map (\<lambda>(d, bs). hi8 d # lo8 d # bs) items)"

lemma did_bytes_simps [simp]:
  "did_bytes [] = []" "did_bytes (d # ds) = hi8 d # lo8 d # did_bytes ds"
  by (simp_all add: did_bytes_def)

lemma did_record_simps [simp]:
  "did_record [] = []" "did_record ((d, bs) # items) = hi8 d # lo8 d # bs @ did_record items"
  by (simp_all add: did_record_def)

lemma length_did_bytes [simp]: "length (did_bytes ds) = 2 * length ds"
  by (induction ds) simp_all

lemma put_within: "off + length bs \<le> length buf \<Longrightarrow>
    take off buf @ put 0 bs (drop off buf) = put off bs buf"
  by (simp add: put_def add.commute)

lemma one_byte_answer:
  assumes "5 \<le> length resp"
  shows "routine_answer (put 0 [0x71, a, b, c] resp)
      (True, put 0 [x] (drop 4 (put 0 [0x71, a, b, c] resp)), 1, w) =
    (\<lparr>r_send = True, r_buf = put 0 [0x71, a, b, c, x] resp, r_len = 5\<rparr>, w)"
  using assms put_within [of 4 "[x]" "put 0 [0x71, a, b, c] resp"]
  by (simp add: routine_answer_def length_put put_put_at)

text \<open>The loop over identifiers that are all served, from position \<open>pos\<close> on.\<close>

lemma rdbi_loop_serves:
  assumes "\<forall>(d, bs) \<in> set items. serves t w d bs"
    and "pos + length (did_record items) \<le> length resp" "1 \<le> pos"
  shows "rdbi_loop t (did_bytes (map fst items) @ rest) resp pos w =
    rdbi_loop t rest (put pos (did_record items) resp) (pos + length (did_record items)) w"
  using assms
proof (induction items arbitrary: resp pos)
  case (Cons item items)
  obtain d bs where item: "item = (d, bs)" by fastforce
  with Cons.prems(1) obtain e f where e: "find_did d t = Some e" "read_fn e = Some f" "bs \<noteq> []"
    and f: "\<And>buf. length bs \<le> length buf \<Longrightarrow> f buf (length buf) w = (length bs, put 0 bs buf, w)"
    by (auto simp: serves_def)
  let ?h = "put pos [hi8 d, lo8 d] resp"
  have len: "length ?h = length resp" and fit: "pos + 2 + length bs \<le> length resp"
    using Cons.prems(2) item by (simp_all add: length_put)
  have bs: "0 < length bs" "pos + 2 \<le> length resp - 1" using e(3) fit by (cases bs; simp)+
  have call: "f (drop (pos + 2) ?h) (length resp - (pos + 2)) w =
      (length bs, put 0 bs (drop (pos + 2) ?h), w)"
    using f [of "drop (pos + 2) ?h"] len fit by simp
  have part: "take (pos + 2) ?h @ put 0 bs (drop (pos + 2) ?h) = put pos (hi8 d # lo8 d # bs) resp"
    using len fit put_within [of "pos + 2" bs ?h]
    by (simp add: put_put_at)
  have step: "rdbi_loop t (did_bytes (map fst (item # items)) @ rest) resp pos w =
      rdbi_loop t (did_bytes (map fst items) @ rest) (put pos (hi8 d # lo8 d # bs) resp)
        (pos + 2 + length bs) w"
    using e len fit bs call part by (simp add: item Let_def byte_simps)
  have rec: "put (pos + 2 + length bs) (did_record items) (put pos (hi8 d # lo8 d # bs) resp) =
      put pos (did_record (item # items)) resp"
    using Cons.prems(2) by (simp add: item put_put_at)
  show ?case
    unfolding step using Cons.IH [of "pos + 2 + length bs" "put pos (hi8 d # lo8 d # bs) resp"]
      Cons.prems rec by (simp add: item length_put add.assoc)
qed simp

lemma rdbi_handle_start:
  "ds \<noteq> [] \<Longrightarrow> rdbi_handle t (0x22 # did_bytes ds) resp w =
     rdbi_loop t (did_bytes ds) (put 0 [0x62] resp) 1 w"
  by (cases ds) (simp_all add: rdbi_handle_def)

lemma rdbi_served:
  assumes "items \<noteq> []" "\<forall>(d, bs) \<in> set items. serves t w d bs"
    and "1 + length (did_record items) \<le> length resp"
  shows "r_send (fst (rdbi_handle t (0x22 # did_bytes (map fst items)) resp w)) \<and>
    reply_bytes (fst (rdbi_handle t (0x22 # did_bytes (map fst items)) resp w)) =
      0x62 # did_record items \<and>
    snd (rdbi_handle t (0x22 # did_bytes (map fst items)) resp w) = w \<and>
    (find_did d t = None \<longrightarrow>
      negative_reply ReadDataByIdentifier RequestOutOfRange
        (fst (rdbi_handle t (0x22 # did_bytes (map fst items @ d # ds)) resp w)))"
proof -
  let ?resp = "put 0 [0x62] resp"
  have len: "1 + length (did_record items) \<le> length ?resp"
    using assms(3) by (simp add: length_put)
  have bytes: "take (1 + length (did_record items)) (put 1 (did_record items) ?resp) =
      0x62 # did_record items"
    using assms(3) put_put_at [of 1 0 "[0x62]" "did_record items" resp]
    by (simp add: put_simps)
  have "rdbi_handle t (0x22 # did_bytes (map fst items)) resp w =
      (\<lparr>r_send = True, r_buf = put 1 (did_record items) ?resp,
        r_len = 1 + length (did_record items)\<rparr>, w)"
    using rdbi_loop_serves [OF assms(2) len, of "[]"] assms(1)
    by (simp add: rdbi_handle_start)
  moreover have "rdbi_handle t (0x22 # did_bytes (map fst items @ d # ds)) resp w =
      rdbi_loop t (did_bytes (d # ds)) (put 1 (did_record items) ?resp)
        (1 + length (did_record items)) w"
    using rdbi_loop_serves [OF assms(2) len, of "did_bytes (d # ds)"]
    by (simp add: rdbi_handle_start) (simp add: did_bytes_def)
  ultimately show ?thesis
    using bytes by (simp add: reply_bytes_def byte_simps Let_def)
qed

text \<open>
  C18. ReadDataByIdentifier with registered, readable identifiers returns their data in the
  order of the request, each after its identifier, as long as the answer fits the buffer;
  an identifier that is not registered, anywhere in the request, turns the whole answer into
  a refusal with requestOutOfRange.
\<close>

theorem rdbi_reads_in_order:
  assumes "items \<noteq> []" "\<forall>(d, bs) \<in> set items. serves t w d bs"
    and "1 + length (did_record items) \<le> length resp"
  shows "r_send (fst (rdbi_handle t (0x22 # did_bytes (map fst items)) resp w)) \<and>
    reply_bytes (fst (rdbi_handle t (0x22 # did_bytes (map fst items)) resp w)) =
      0x62 # did_record items \<and>
    snd (rdbi_handle t (0x22 # did_bytes (map fst items)) resp w) = w \<and>
    (find_did d t = None \<longrightarrow>
      negative_reply ReadDataByIdentifier RequestOutOfRange
        (fst (rdbi_handle t (0x22 # did_bytes (map fst items @ d # ds)) resp w)))"
  using assms by (rule rdbi_served)

definition const_did :: "u16 \<Rightarrow> u8 list \<Rightarrow> unit data_identifier" where
  "const_did d bs = \<lparr>did = d, writable = False,
     read_fn = Some (\<lambda>buf n w. if n < length bs then (0, buf, w) else (length bs, put 0 bs buf, w)),
     write_fn = None\<rparr>"

theorem rdbi_reads_in_order_witness:
  "reply_bytes (fst (rdbi_handle [const_did 0xF190 [1, 2, 3], const_did 0xF189 [9]]
     (0x22 # did_bytes [0xF189, 0xF190]) (replicate 64 0) ())) =
     0x62 # did_record [(0xF189, [9]), (0xF190, [1, 2, 3])]"
  using rdbi_reads_in_order [of "[(0xF189, [9]), (0xF190, [1, 2, 3])]"
      "[const_did 0xF190 [1, 2, 3], const_did 0xF189 [9]]" "()" "replicate 64 0"]
  by (simp add: serves_def find_did_def const_did_def)

lemma wdbi_accepted:
  assumes "3 \<le> length resp" "wdbi_handle t req resp w = (r, w')"
  shows "(positive_reply WriteDataByIdentifier r \<longleftrightarrow>
      (\<exists>e f. 4 \<le> length req \<and> find_did (be16 (req ! 1) (req ! 2)) t = Some e \<and> writable e \<and>
         write_fn e = Some f \<and> f (drop 3 req) w = (True, w'))) \<and>
    (w' \<noteq> w \<longrightarrow> (\<exists>e f. 4 \<le> length req \<and> find_did (be16 (req ! 1) (req ! 2)) t = Some e \<and>
       writable e \<and> write_fn e = Some f \<and> w' = snd (f (drop 3 req) w))) \<and>
    (positive_reply WriteDataByIdentifier r \<longrightarrow> r_send r \<and> reply_bytes r = [0x6E, req ! 1, req ! 2]) \<and>
    (\<not> positive_reply WriteDataByIdentifier r \<longrightarrow> r_send r \<and> reply_bytes r = [0x7F, 0x2E,
       nrc_byte (if length req < 4 then IncorrectMessageLengthOrInvalidFormat
         else case find_did (be16 (req ! 1) (req ! 2)) t of
           None \<Rightarrow> RequestOutOfRange
         | Some e \<Rightarrow> if writable e \<and> write_fn e \<noteq> None then GeneralProgrammingFailure
                    else SecurityAccessDenied)])"
  using assms
  by (auto simp: wdbi_handle_def Let_def byte_simps split: if_splits option.splits bool.splits prod.splits)

text \<open>
  C19. WriteDataByIdentifier changes nothing except by a call of the write function of the entry
  of the identifier, which must be registered and marked writable. The function gets all of the
  request after the identifier, the answer is positive exactly when it accepts the data, and
  every other request gets the negative response of the first check that fails.
\<close>

theorem wdbi_guarded:
  assumes "3 \<le> length resp" "wdbi_handle t req resp w = (r, w')"
  shows "(positive_reply WriteDataByIdentifier r \<longleftrightarrow>
      (\<exists>e f. 4 \<le> length req \<and> find_did (be16 (req ! 1) (req ! 2)) t = Some e \<and> writable e \<and>
         write_fn e = Some f \<and> f (drop 3 req) w = (True, w'))) \<and>
    (w' \<noteq> w \<longrightarrow> (\<exists>e f. 4 \<le> length req \<and> find_did (be16 (req ! 1) (req ! 2)) t = Some e \<and>
       writable e \<and> write_fn e = Some f \<and> w' = snd (f (drop 3 req) w))) \<and>
    (positive_reply WriteDataByIdentifier r \<longrightarrow> r_send r \<and> reply_bytes r = [0x6E, req ! 1, req ! 2]) \<and>
    (\<not> positive_reply WriteDataByIdentifier r \<longrightarrow> r_send r \<and> reply_bytes r = [0x7F, 0x2E,
       nrc_byte (if length req < 4 then IncorrectMessageLengthOrInvalidFormat
         else case find_did (be16 (req ! 1) (req ! 2)) t of
           None \<Rightarrow> RequestOutOfRange
         | Some e \<Rightarrow> if writable e \<and> write_fn e \<noteq> None then GeneralProgrammingFailure
                    else SecurityAccessDenied)])"
  using assms by (rule wdbi_accepted)

theorem wdbi_guarded_witness:
  "\<exists>r. wdbi_handle [\<lparr>did = 0xF190, writable = False, read_fn = None,
       write_fn = Some (\<lambda>bs w. (True, bs))\<rparr>] [0x2E, 0xF1, 0x90, 5] (replicate 8 0) [7] = (r, [7]) \<and>
     \<not> positive_reply WriteDataByIdentifier r"
proof -
  let ?t = "[\<lparr>did = 0xF190, writable = False, read_fn = None,
       write_fn = Some (\<lambda>bs w. (True, bs))\<rparr>] :: u8 list data_identifier list"
  obtain r w' where h: "wdbi_handle ?t [0x2E, 0xF1, 0x90, 5] (replicate 8 0) [7] = (r, w')"
    by fastforce
  have "\<not> (\<exists>e. find_did d ?t = Some e \<and> writable e)" for d
    by (simp add: find_did_def)
  with wdbi_guarded [OF _ h] have "\<not> positive_reply WriteDataByIdentifier r \<and> w' = [7]"
    by fastforce
  with h show ?thesis by blast
qed

section \<open>Reading back what was written\<close>

text \<open>The contract of a reader and a writer of one piece of application data.\<close>

locale did_cell =
  fixes rd :: "u8 list \<Rightarrow> nat \<Rightarrow> 'w \<Rightarrow> nat \<times> u8 list \<times> 'w"
    and wr :: "u8 list \<Rightarrow> 'w \<Rightarrow> bool \<times> 'w"
  assumes read_after_write: "wr bs w = (True, w') \<Longrightarrow> bs \<noteq> [] \<and>
    (\<forall>buf. length bs \<le> length buf \<longrightarrow> rd buf (length buf) w' = (length bs, put 0 bs buf, w'))"
begin

lemma write_serves:
  assumes "find_did d rt = Some e" "read_fn e = Some rd" "wr bs w = (True, w')"
  shows "serves rt w' d bs"
  using assms read_after_write [OF assms(3)] by (auto simp: serves_def)

lemma write_then_read:
  assumes "find_did d rt = Some e" "read_fn e = Some rd"
    and "find_did d wt = Some e'" "writable e'" "write_fn e' = Some wr"
    and "3 + length bs \<le> length resp" "bs \<noteq> []"
    and "wdbi_handle wt (0x2E # hi8 d # lo8 d # bs) resp w = (r, w')"
      "positive_reply WriteDataByIdentifier r"
  shows "reply_bytes (fst (rdbi_handle rt [0x22, hi8 d, lo8 d] resp w')) =
    0x62 # hi8 d # lo8 d # bs"
proof -
  have "wr bs w = (True, w')"
    using wdbi_accepted [OF _ assms(8)] assms by (auto simp: byte_simps)
  then have "\<forall>(d, bs) \<in> set [(d, bs)]. serves rt w' d bs"
    using write_serves assms(1,2) by simp
  with rdbi_served [of "[(d, bs)]" rt w' resp] assms(6) show ?thesis by simp
qed

end

section \<open>Session guards\<close>

text \<open>
  An I/O control or routine bound to a session runs in that session only: in any other
  session the request is refused with serviceNotSupportedInActiveSession and no function of
  the application is called.
\<close>

theorem session_bound_entries:
  assumes "3 \<le> length resp"
    and "4 \<le> length req" "find_io (be16 (req ! 1) (req ! 2)) ct = Some c"
      "io_required_session c \<notin> {Default, m_session session}"
    and "4 \<le> length req'" "find_routine (be16 (req' ! 2) (req' ! 3)) rt = Some e"
      "req' ! 1 \<in> {1, 2, 3}" "routine_required_session e \<notin> {Default, m_session session}"
  shows "io_handle ct session req resp w =
      (nrc_reply InputOutputControlByIdentifier ServiceNotSupportedInActiveSession resp, w) \<and>
    routine_handle rt session req' resp w =
      (nrc_reply RoutineControl ServiceNotSupportedInActiveSession resp, w)"
  using assms by (auto simp: io_handle_def routine_handle_def Let_def)

definition bound_io :: "nat io_control_entry" where
  "bound_io = \<lparr>io_did = 0, io_control = (\<lambda>a opt buf n w. (True, buf, 0, w)),
     io_required_session = Extended\<rparr>"

definition bound_routine :: "nat routine_entry" where
  "bound_routine = \<lparr>routine_id = 0x0301,
     routine_start = Some (\<lambda>opt buf w. (True, buf, 0, w + 1)),
     routine_stop = None, routine_results = None, routine_required_session = Programming\<rparr>"

theorem session_bound_entries_witness:
  "routine_handle [bound_routine] (session_new kDefaultTiming :: unit uds_session)
     [0x31, 1, 3, 1] (replicate 8 0) 7 =
   (nrc_reply RoutineControl ServiceNotSupportedInActiveSession (replicate 8 0), 7)"
  by (rule session_bound_entries [of "replicate 8 0" "[0x2F, 0, 0, 0]" "[bound_io]" bound_io _
      "[0x31, 1, 3, 1]" "[bound_routine]" bound_routine, THEN conjunct2])
    (simp_all add: find_io_def find_routine_def session_new_def be16_def bound_io_def
      bound_routine_def)

end
