(* ===== verification/Flash_Routine.thy ===== *)
theory Flash_Routine
  imports Services_Data
begin

text \<open>
  The ready-made routines of \<open>src/uds/services/flash_routine.cpp\<close> that erase a flash sector
  and verify flash contents over RoutineControl. The flash driver \<open>IFlash\<close> is the
  integrator's: the record \<open>flash_if\<close> of its methods on a state \<open>'f\<close>; no code of the
  repository calls \<open>write\<close>. The two static context objects and the flash form the environment of the routines.
\<close>

datatype FlashStatus = FlashOk | FlashBusy | FlashError | AddressError | ProtectionError

fun flash_status_byte :: "FlashStatus \<Rightarrow> u8" where
  "flash_status_byte FlashOk = 0"
| "flash_status_byte FlashBusy = 1"
| "flash_status_byte FlashError = 2"
| "flash_status_byte AddressError = 3"
| "flash_status_byte ProtectionError = 4"

record 'f flash_if =
  erase_sector :: "u32 \<Rightarrow> 'f \<Rightarrow> FlashStatus \<times> 'f"
  flash_write :: "u32 \<Rightarrow> u8 list \<Rightarrow> 'f \<Rightarrow> FlashStatus \<times> 'f"
  flash_verify :: "u32 \<Rightarrow> u8 list \<Rightarrow> 'f \<Rightarrow> FlashStatus \<times> 'f"
  is_busy :: "'f \<Rightarrow> bool \<times> 'f"

record erase_ctx =
  last_erased_addr :: u32
  erase_done :: bool

record verify_ctx =
  verify_address :: u32
  verify_length :: u32
  verify_ok :: bool

record 'f flash_env =
  fe_erase :: erase_ctx
  fe_verify :: verify_ctx
  fe_flash :: 'f

definition flash_env_new :: "'f \<Rightarrow> 'f flash_env" where
  "flash_env_new fl =
     \<lparr>fe_erase = \<lparr>last_erased_addr = 0, erase_done = False\<rparr>,
      fe_verify = \<lparr>verify_address = 0, verify_length = 0, verify_ok = False\<rparr>, fe_flash = fl\<rparr>"

definition erase_start :: "'f flash_if \<Rightarrow> 'f flash_env routine_fn" where
  "erase_start flash opt resp c =
     (case is_busy flash (fe_flash c) of (busy, fl) \<Rightarrow>
        if busy then (False, resp, 0, c\<lparr>fe_flash := fl\<rparr>)
        else
          let addr = (case opt of
                        None \<Rightarrow> 0
                      | Some o' \<Rightarrow> if length o' \<ge> 4 then be32 (o' ! 0) (o' ! 1) (o' ! 2) (o' ! 3)
                                 else 0)
          in (case erase_sector flash addr fl of (s, fl) \<Rightarrow>
                if s \<noteq> FlashOk then (False, resp, 0, c\<lparr>fe_flash := fl\<rparr>)
                else (True, put 0 [flash_status_byte s] resp, 1,
                      c\<lparr>fe_erase := \<lparr>last_erased_addr = addr, erase_done = True\<rparr>,
                        fe_flash := fl\<rparr>)))"

definition erase_results ::
    "u8 list \<Rightarrow> 'f flash_env \<Rightarrow> bool \<times> u8 list \<times> nat \<times> 'f flash_env" where
  "erase_results resp c =
     (True, put 0 [if erase_done (fe_erase c) then 0x10 else 0x00] resp, 1, c)"

definition make_erase_routine :: "'f flash_if \<Rightarrow> 'f flash_env routine_entry" where
  "make_erase_routine flash =
     \<lparr>routine_id = 0x0301, routine_start = Some (erase_start flash), routine_stop = None,
      routine_results = Some erase_results, routine_required_session = Programming\<rparr>"

definition verify_start :: "'f flash_if \<Rightarrow> 'f flash_env routine_fn" where
  "verify_start flash opt resp c =
     (case opt of
        None \<Rightarrow> (False, resp, 0, c)
      | Some o' \<Rightarrow>
          if length o' < 8 then (False, resp, 0, c)
          else
            let address = be32 (o' ! 0) (o' ! 1) (o' ! 2) (o' ! 3);
                len = be32 (o' ! 4) (o' ! 5) (o' ! 6) (o' ! 7);
                expected = drop 8 o';
                (ok, fl) =
                  (if expected = [] then (True, fe_flash c)
                   else case flash_verify flash address expected (fe_flash c) of
                          (s, fl) \<Rightarrow> (s = FlashOk, fl))
            in (True, put 0 [if ok then 0x01 else 0x00] resp, 1,
                c\<lparr>fe_verify := \<lparr>verify_address = address, verify_length = len, verify_ok = ok\<rparr>,
                  fe_flash := fl\<rparr>))"

definition make_verify_routine :: "'f flash_if \<Rightarrow> 'f flash_env routine_entry" where
  "make_verify_routine flash =
     \<lparr>routine_id = 0x0302, routine_start = Some (verify_start flash), routine_stop = None,
      routine_results = None, routine_required_session = Programming\<rparr>"

section \<open>The routines keep the contract of RoutineControl\<close>

lemma flash_routines_ok: "routine_ok (make_erase_routine flash)" "routine_ok (make_verify_routine flash)"
  by (auto simp: routine_ok_def routine_fn_ok_def make_erase_routine_def make_verify_routine_def
      erase_start_def erase_results_def verify_start_def Let_def length_put kMaxResp_def
      split: option.splits prod.splits if_splits)

section \<open>Properties\<close>

definition erase_address :: "u8 list \<Rightarrow> u32" where
  "erase_address opt =
     (if length opt \<ge> 4 then be32 (opt ! 0) (opt ! 1) (opt ! 2) (opt ! 3) else 0)"

lemma erase_start_eq:
  "erase_start flash (if opt = [] then None else Some opt) resp c =
     (case is_busy flash (fe_flash c) of (busy, fl) \<Rightarrow>
        if busy then (False, resp, 0, c\<lparr>fe_flash := fl\<rparr>)
        else case erase_sector flash (erase_address opt) fl of (s, fl) \<Rightarrow>
          if s \<noteq> FlashOk then (False, resp, 0, c\<lparr>fe_flash := fl\<rparr>)
          else (True, put 0 [0] resp, 1,
                c\<lparr>fe_erase := \<lparr>last_erased_addr = erase_address opt, erase_done = True\<rparr>,
                  fe_flash := fl\<rparr>))"
  by (auto simp: erase_start_def erase_address_def Let_def split: prod.split)

lemma routine_call:
  assumes "find_routine ident t = Some e" "routine_required_session e = m_session session"
    "routine_start e = Some f"
  shows "routine_handle t session (0x31 # 1 # hi8 ident # lo8 ident # opt) resp w =
    routine_answer (put 0 [0x71, 1, hi8 ident, lo8 ident] resp)
      (f (if opt = [] then None else Some opt)
         (drop 4 (put 0 [0x71, 1, hi8 ident, lo8 ident] resp)) w)"
  using assms by (simp add: routine_handle_def byte_simps Let_def)

lemma routine_call_results:
  assumes "find_routine ident t = Some e" "routine_required_session e = m_session session"
    "routine_results e = Some f"
  shows "routine_handle t session (0x31 # 3 # hi8 ident # lo8 ident # opt) resp w =
    routine_answer (put 0 [0x71, 3, hi8 ident, lo8 ident] resp)
      (f (drop 4 (put 0 [0x71, 3, hi8 ident, lo8 ident] resp)) w)"
  using assms by (simp add: routine_handle_def byte_simps Let_def)

text \<open>
  C38. Erasing a sector over UDS, in the programming session: the start request is answered
  positively exactly when the flash is idle and erases the sector at the address of the
  request, which is then recorded. Otherwise it is answered with
  failurePreventsExecutionOfRequestedAction and nothing is recorded; a busy flash is not asked to
  erase. The results request says completed in every state that has the record of the successful
  start. A start request with fewer than four address bytes erases the sector at address 0.
\<close>

theorem erase_over_uds:
  assumes "find_routine 0x0301 t = Some (make_erase_routine flash)"
    and "m_session session = Programming" "5 \<le> length resp"
    and "is_busy flash (fe_flash c) = (busy, fl)"
    and "erase_sector flash (erase_address opt) fl = (s, fl')"
  shows "(case routine_handle t session (0x31 # 1 # 3 # 1 # opt) resp c of (r, c') \<Rightarrow>
      if busy \<or> s \<noteq> FlashOk
      then negative_reply RoutineControl FailurePreventsExecutionOfRequestedAction r \<and>
           fe_erase c' = fe_erase c \<and> fe_flash c' = (if busy then fl else fl')
      else reply_bytes r = [0x71, 1, 3, 1, 0] \<and> last_erased_addr (fe_erase c') = erase_address opt \<and>
           fe_flash c' = fl' \<and>
           (\<forall>c''. fe_erase c'' = fe_erase c' \<longrightarrow>
              reply_bytes (fst (routine_handle t session [0x31, 3, 3, 1] resp c'')) =
                [0x71, 3, 3, 1, 0x10])) \<and>
    (length opt < 4 \<longrightarrow> erase_address opt = 0)"
proof -
  have id: "hi8 0x0301 = 3" "lo8 0x0301 = 1" by (simp_all add: hi8_def lo8_def)
  have req: "routine_required_session (make_erase_routine flash) = m_session session"
    by (simp add: assms(2) make_erase_routine_def)
  note start = routine_call [OF assms(1) req, of "erase_start flash" opt resp c, unfolded id]
  note results = routine_call_results [OF assms(1) req, of erase_results "[]" resp, unfolded id]
  have "length opt < 4 \<longrightarrow> erase_address opt = 0" by (simp add: erase_address_def)
  then show ?thesis
    using assms(3-5)
    by (auto simp: start results make_erase_routine_def erase_start_eq erase_results_def
        one_byte_answer [simplified] reply_bytes_def put_simps routine_answer_def)
qed

definition test_flash :: "u32 list flash_if" where
  "test_flash =
     \<lparr>erase_sector = (\<lambda>a fl. (FlashOk, a # fl)), flash_write = (\<lambda>a bs f. (FlashOk, f)),
      flash_verify = (\<lambda>a bs fl. (FlashError, fl)),
      is_busy = (\<lambda>fl. (False, fl))\<rparr>"

theorem erase_over_uds_witness:
  "case routine_handle [make_erase_routine test_flash]
      ((session_new kDefaultTiming :: unit uds_session)\<lparr>m_session := Programming\<rparr>)
      (0x31 # 1 # 3 # 1 # [8, 0, 0, 0]) (replicate 16 0) (flash_env_new []) of
    (r, c') \<Rightarrow> reply_bytes r = [0x71, 1, 3, 1, 0] \<and>
      last_erased_addr (fe_erase c') = erase_address [8, 0, 0, 0]"
  using erase_over_uds [of "[make_erase_routine test_flash]" test_flash
      "(session_new kDefaultTiming :: unit uds_session)\<lparr>m_session := Programming\<rparr>"
      "replicate 16 0" "flash_env_new []" False "[]" "[8, 0, 0, 0]" FlashOk]
  by (simp add: find_routine_def make_erase_routine_def test_flash_def flash_env_new_def
      split: prod.splits)

text \<open>
  Verifying flash over UDS: the answer is the verdict of the flash driver on the expected
  bytes of the request at its address. A request with an address and a length but no
  expected bytes is answered with success without a look at the flash, and the length
  field never has an effect on the answer.
\<close>

theorem verify_over_uds:
  assumes "find_routine 0x0302 t = Some (make_verify_routine flash)"
    and "m_session session = Programming" "5 \<le> length resp" "length len = 4"
    and "flash_verify flash (be32 a1 a2 a3 a4) expected (fe_flash c) = (s, fl)"
  shows "(case routine_handle t session (0x31 # 1 # 3 # 2 # a1 # a2 # a3 # a4 # len @ expected) resp c
      of (r, c') \<Rightarrow>
        reply_bytes r = [0x71, 1, 3, 2, if expected = [] \<or> s = FlashOk then 1 else 0] \<and>
        fe_flash c' = (if expected = [] then fe_flash c else fl)) \<and>
    negative_reply RoutineControl FailurePreventsExecutionOfRequestedAction
      (fst (routine_handle t session (0x31 # 1 # 3 # 2 # take 7 (a1 # a2 # a3 # a4 # len)) resp c))"
proof -
  have id: "hi8 0x0302 = 3" "lo8 0x0302 = 2" by (simp_all add: hi8_def lo8_def)
  have req: "routine_required_session (make_verify_routine flash) = m_session session"
    by (simp add: assms(2) make_verify_routine_def)
  note start = routine_call [OF assms(1) req, of "verify_start flash" _ resp c, unfolded id]
  show ?thesis
    using assms(3-5)
    by (auto simp: start make_verify_routine_def verify_start_def Let_def
        one_byte_answer [simplified] reply_bytes_def put_simps routine_answer_def)
qed

theorem verify_over_uds_witness:
  "case routine_handle [make_verify_routine test_flash]
      ((session_new kDefaultTiming :: unit uds_session)\<lparr>m_session := Programming\<rparr>)
      (0x31 # 1 # 3 # 2 # 8 # 0 # 0 # 0 # [0, 0, 1, 0] @ []) (replicate 16 0) (flash_env_new []) of
    (r, c') \<Rightarrow> reply_bytes r = [0x71, 1, 3, 2, 1]"
  using verify_over_uds [of "[make_verify_routine test_flash]" test_flash
      "(session_new kDefaultTiming :: unit uds_session)\<lparr>m_session := Programming\<rparr>"
      "replicate 16 0" "[0, 0, 1, 0]" 8 0 0 0 "[]" "flash_env_new []" FlashError "[]"]
  by (simp add: find_routine_def make_verify_routine_def test_flash_def flash_env_new_def
      split: prod.splits)

end
