(* ===== verification/Services_Session.thy ===== *)
theory Services_Session
  imports Service_Base
begin

text \<open>
  The services that control the session and the communication of the ECU:
  DiagnosticSessionControl, EcuReset, TesterPresent, CommunicationControl,
  ControlDtcSetting, LinkControl and ResponseOnEvent (\<open>src/uds/services/\<close>). A callback is a
  function on the environment \<open>'w\<close> with the arguments of the source; the user pointer belongs
  to it. Their replies do not depend on the environment.
\<close>

section \<open>DiagnosticSessionControl\<close>

definition session_of_byte :: "u8 \<Rightarrow> SessionType" where
  "session_of_byte b = (if b = 1 then Default else if b = 2 then Programming else Extended)"

definition dsc_handle ::
    "(SessionType \<Rightarrow> SessionType \<Rightarrow> 'w \<Rightarrow> 'w) option \<Rightarrow> u8 list \<Rightarrow> u8 list \<Rightarrow>
     'w uds_session \<times> 'w \<Rightarrow> reply \<times> 'w uds_session \<times> 'w" where
  "dsc_handle callback req resp = (\<lambda>(session, w).
     if length req < 2 then
       (nrc_reply DiagnosticSessionControl IncorrectMessageLengthOrInvalidFormat resp, session, w)
     else
       let sub = req ! 1 AND 0x7F;
           suppress = (req ! 1 AND 0x80 \<noteq> 0)
       in if sub < 1 \<or> sub > 3 then
            (nrc_reply DiagnosticSessionControl SubFunctionNotSupported resp, session, w)
          else
            let new_session = session_of_byte sub;
                old_session = m_session session
            in case session_transition new_session session of
                 (False, session) \<Rightarrow>
                   (nrc_reply DiagnosticSessionControl ConditionsNotCorrect resp, session, w)
               | (True, session) \<Rightarrow>
                   let w = call_if (map_option (\<lambda>cb. cb old_session new_session) callback) w;
                       t = m_timing session;
                       p2_star_10ms = p2_star_ms t div 10
                   in (pos_reply (\<not> suppress) DiagnosticSessionControl
                         [sub, hi8 (p2_ms t), lo8 (p2_ms t),
                          hi8 p2_star_10ms, lo8 p2_star_10ms] resp, session, w))"

section \<open>EcuReset\<close>

datatype ResetType = HardReset | KeyOffOnReset | SoftReset

definition reset_of_byte :: "u8 \<Rightarrow> ResetType" where
  "reset_of_byte b = (if b = 1 then HardReset else if b = 2 then KeyOffOnReset else SoftReset)"

definition ecu_reset_handle ::
    "(ResetType \<Rightarrow> 'w \<Rightarrow> 'w) option \<Rightarrow> u8 list \<Rightarrow> u8 list \<Rightarrow> 'w \<Rightarrow> reply \<times> 'w" where
  "ecu_reset_handle callback req resp w =
     (if length req < 2 then
        (nrc_reply EcuReset IncorrectMessageLengthOrInvalidFormat resp, w)
      else
        let sub = req ! 1 AND 0x7F;
            suppress = (req ! 1 AND 0x80 \<noteq> 0)
        in if sub < 1 \<or> sub > 3 then (nrc_reply EcuReset SubFunctionNotSupported resp, w)
           else (pos_reply (\<not> suppress) EcuReset [sub] resp,
                 call_if (map_option (\<lambda>cb. cb (reset_of_byte sub)) callback) w))"

section \<open>TesterPresent\<close>

definition tester_present_handle ::
    "u8 list \<Rightarrow> u8 list \<Rightarrow> 'w uds_session \<Rightarrow> reply \<times> 'w uds_session" where
  "tester_present_handle req resp session =
     (if length req < 2 then
        (nrc_reply TesterPresent IncorrectMessageLengthOrInvalidFormat resp, session)
      else
        let sub_func = req ! 1 AND 0x7F;
            suppress = (req ! 1 AND 0x80 \<noteq> 0)
        in if sub_func \<noteq> 0 then (nrc_reply TesterPresent SubFunctionNotSupported resp, session)
           else (pos_reply (\<not> suppress) TesterPresent [sub_func] resp,
                 session_keep_alive 0 session))"

section \<open>CommunicationControl\<close>

text \<open>The callback gets the bytes its two enumerations are cast from.\<close>

definition comm_control_handle ::
    "(u8 \<Rightarrow> u8 \<Rightarrow> 'w \<Rightarrow> 'w) option \<Rightarrow> 'v uds_session \<Rightarrow> u8 list \<Rightarrow> u8 list \<Rightarrow> 'w \<Rightarrow>
     reply \<times> 'w" where
  "comm_control_handle callback session req resp w =
     (if length req < 3 then
        (nrc_reply CommunicationControl IncorrectMessageLengthOrInvalidFormat resp, w)
      else
        let sub = req ! 1 AND 0x7F;
            suppress = (req ! 1 AND 0x80 \<noteq> 0);
            comm_type = req ! 2
        in if sub > 3 then (nrc_reply CommunicationControl SubFunctionNotSupported resp, w)
           else if m_session session = Default then
             (nrc_reply CommunicationControl ServiceNotSupportedInActiveSession resp, w)
           else (pos_reply (\<not> suppress) CommunicationControl [sub] resp,
                 call_if (map_option (\<lambda>cb. cb sub (comm_type AND 0x0F)) callback) w))"

section \<open>ControlDtcSetting\<close>

text \<open>The optional record is \<open>None\<close> for the null pointer.\<close>

definition control_dtc_handle ::
    "(u8 \<Rightarrow> u8 list option \<Rightarrow> 'w \<Rightarrow> 'w) option \<Rightarrow> 'v uds_session \<Rightarrow> u8 list \<Rightarrow> u8 list \<Rightarrow> 'w \<Rightarrow>
     reply \<times> 'w" where
  "control_dtc_handle callback session req resp w =
     (if length req < 2 then
        (nrc_reply ControlDtcSetting IncorrectMessageLengthOrInvalidFormat resp, w)
      else
        let sub = req ! 1 AND 0x7F;
            suppress = (req ! 1 AND 0x80 \<noteq> 0)
        in if sub \<noteq> 1 \<and> sub \<noteq> 2 then
             (nrc_reply ControlDtcSetting SubFunctionNotSupported resp, w)
           else if m_session session = Default then
             (nrc_reply ControlDtcSetting ServiceNotSupportedInActiveSession resp, w)
           else
             let rec = (if length req > 2 then Some (drop 2 req) else None)
             in (pos_reply (\<not> suppress) ControlDtcSetting [sub] resp,
                 call_if (map_option (\<lambda>cb. cb sub rec) callback) w))"

section \<open>LinkControl\<close>

record link_control =
  lc_verified :: bool
  lc_pending_baudrate :: u32

definition link_control_new :: link_control where
  "link_control_new = \<lparr>lc_verified = False, lc_pending_baudrate = 0\<rparr>"

definition kBaudrates :: "(u8 \<times> u32) list" where
  "kBaudrates = [(1, 9600), (2, 19200), (3, 125000), (4, 250000), (5, 500000), (6, 1000000)]"

definition resolve_fixed_baudrate :: "u8 \<Rightarrow> u32" where
  "resolve_fixed_baudrate ident =
     (case find (\<lambda>e. fst e = ident) kBaudrates of None \<Rightarrow> 0 | Some e \<Rightarrow> snd e)"

definition link_control_handle ::
    "(u32 \<Rightarrow> 'w \<Rightarrow> 'w) option \<Rightarrow> 'v uds_session \<Rightarrow> u8 list \<Rightarrow> u8 list \<Rightarrow> link_control \<times> 'w \<Rightarrow>
     reply \<times> link_control \<times> 'w" where
  "link_control_handle callback session req resp = (\<lambda>(lc, w).
     if length req < 2 then
       (nrc_reply LinkControl IncorrectMessageLengthOrInvalidFormat resp, lc, w)
     else
       let sub = req ! 1 AND 0x7F;
           suppress = (req ! 1 AND 0x80 \<noteq> 0)
       in if m_session session = Default then
            (nrc_reply LinkControl ServiceNotSupportedInActiveSession resp, lc, w)
          else if sub = 0x01 then
            if length req < 4 then
              (nrc_reply LinkControl IncorrectMessageLengthOrInvalidFormat resp, lc, w)
            else
              let bps = resolve_fixed_baudrate (req ! 3) in
              if bps = 0 then (nrc_reply LinkControl RequestOutOfRange resp, lc, w)
              else (pos_reply (\<not> suppress) LinkControl [sub] resp,
                    lc\<lparr>lc_pending_baudrate := bps, lc_verified := True\<rparr>, w)
          else if sub = 0x03 then
            if \<not> lc_verified lc then (nrc_reply LinkControl RequestSequenceError resp, lc, w)
            else (pos_reply (\<not> suppress) LinkControl [sub] resp, lc\<lparr>lc_verified := False\<rparr>,
                  call_if (map_option (\<lambda>cb. cb (lc_pending_baudrate lc)) callback) w)
          else (nrc_reply LinkControl SubFunctionNotSupported resp, lc, w))"

section \<open>ResponseOnEvent\<close>

text \<open>The constructor leaves the event window open.\<close>

record roe_service =
  roe_active :: bool
  roe_event_type :: u8
  roe_event_window :: u8

definition roe_new :: "u8 \<Rightarrow> roe_service" where
  "roe_new garbage = \<lparr>roe_active = False, roe_event_type = 0, roe_event_window = garbage\<rparr>"

definition roe_handle :: "u8 list \<Rightarrow> u8 list \<Rightarrow> roe_service \<Rightarrow> reply \<times> roe_service" where
  "roe_handle req resp roe =
     (if length req < 4 then
        (nrc_reply ResponseOnEvent IncorrectMessageLengthOrInvalidFormat resp, roe)
      else
        let sub = req ! 1 AND 0x7F;
            suppress = (req ! 1 AND 0x80 \<noteq> 0);
            evt_window = req ! 2;
            next =
              (if sub = 0x00 then Some (roe\<lparr>roe_active := False\<rparr>)
               else if sub = 0x05 then
                 Some (roe\<lparr>roe_active := True, roe_event_type := req ! 3,
                           roe_event_window := evt_window\<rparr>)
               else if sub = 0x06 then Some (roe\<lparr>roe_active := False, roe_event_type := 0\<rparr>)
               else None)
        in case next of
             None \<Rightarrow> (nrc_reply ResponseOnEvent SubFunctionNotSupported resp, roe)
           | Some roe' \<Rightarrow>
               (pos_reply (\<not> suppress) ResponseOnEvent [sub, evt_window, roe_event_type roe'] resp,
                roe'))"

section \<open>The contract of \<open>IService\<close>\<close>

lemmas session_service_defs = dsc_handle_def ecu_reset_handle_def tester_present_handle_def
  comm_control_handle_def control_dtc_handle_def link_control_handle_def roe_handle_def

interpretation dsc: uds_service DiagnosticSessionControl "\<lambda>_. True" "dsc_handle cb"
  for cb :: "(SessionType \<Rightarrow> SessionType \<Rightarrow> 'w \<Rightarrow> 'w) option"
  by unfold_locales (auto simp: dsc_handle_def Let_def kMaxResp_def split: prod.split bool.split)

interpretation ecu_reset: uds_service EcuReset "\<lambda>_. True" "ecu_reset_handle cb"
  for cb :: "(ResetType \<Rightarrow> 'w \<Rightarrow> 'w) option"
  by unfold_locales (auto simp: ecu_reset_handle_def Let_def kMaxResp_def)

interpretation tester_present: uds_service TesterPresent "\<lambda>_. True" tester_present_handle
  by unfold_locales (auto simp: tester_present_handle_def Let_def kMaxResp_def)

interpretation comm_control: uds_service CommunicationControl "\<lambda>_. True"
  "comm_control_handle cb session"
  for cb :: "(u8 \<Rightarrow> u8 \<Rightarrow> 'w \<Rightarrow> 'w) option" and session :: "'v uds_session"
  by unfold_locales (auto simp: comm_control_handle_def Let_def kMaxResp_def)

interpretation control_dtc: uds_service ControlDtcSetting "\<lambda>_. True"
  "control_dtc_handle cb session"
  for cb :: "(u8 \<Rightarrow> u8 list option \<Rightarrow> 'w \<Rightarrow> 'w) option" and session :: "'v uds_session"
  by unfold_locales (auto simp: control_dtc_handle_def Let_def kMaxResp_def)

interpretation link_control: uds_service LinkControl "\<lambda>_. True" "link_control_handle cb session"
  for cb :: "(u32 \<Rightarrow> 'w \<Rightarrow> 'w) option" and session :: "'v uds_session"
  by unfold_locales (auto simp: link_control_handle_def Let_def kMaxResp_def)

interpretation roe: uds_service ResponseOnEvent "\<lambda>_. True" roe_handle
  by unfold_locales (auto simp: roe_handle_def Let_def kMaxResp_def)

section \<open>Properties\<close>

lemma sub_cases: "(b :: u8) < 1 \<or> b > 3 \<or> b = 1 \<or> b = 2 \<or> b = 3"
proof -
  have "unat b = 0 \<or> unat b > 3 \<or> unat b = 1 \<or> unat b = 2 \<or> unat b = 3" by arith
  then show ?thesis by (auto simp: word_less_nat_alt word_unat_eq_iff)
qed

lemma ex_session: "(\<exists>t. P t) \<longleftrightarrow> P Default \<or> P Programming \<or> P Extended"
  by (metis SessionType.exhaust)

text \<open>
  C36. DiagnosticSessionControl answers positively exactly when the request names one of the
  three sessions and the change is allowed, the programming session from the default
  session only. Then the named session is active and the reply carries it with P2 in
  milliseconds and P2* in units of ten; otherwise the session is left as it was.
\<close>

theorem dsc_changes_session:
  assumes "6 \<le> length resp"
    and "dsc_handle cb req resp (session, w) = (r, session', w')"
  shows "(positive_reply DiagnosticSessionControl r \<longleftrightarrow>
      2 \<le> length req \<and> (\<exists>t. req ! 1 AND 0x7F = session_byte t \<and>
         (t = Programming \<longrightarrow> m_session session = Default))) \<and>
    (positive_reply DiagnosticSessionControl r \<longrightarrow>
      session_byte (m_session session') = req ! 1 AND 0x7F \<and>
      reply_bytes r = [0x50, session_byte (m_session session'),
        hi8 (p2_ms (m_timing session)), lo8 (p2_ms (m_timing session)),
        hi8 (p2_star_ms (m_timing session) div 10), lo8 (p2_star_ms (m_timing session) div 10)]) \<and>
    (\<not> positive_reply DiagnosticSessionControl r \<longrightarrow> session' = session \<and> w' = w)"
proof -
  define sub where "sub = req ! 1 AND 0x7F"
  define suppress where "suppress \<longleftrightarrow> req ! 1 AND 0x80 \<noteq> 0"
  note handle = assms(2) [unfolded dsc_handle_def Let_def, folded sub_def suppress_def]
  consider "length req < 2" | "2 \<le> length req" "sub < 1 \<or> sub > 3" | "2 \<le> length req" "sub = 1"
    | "2 \<le> length req" "sub = 2" | "2 \<le> length req" "sub = 3"
    using sub_cases [of sub] by linarith
  then show ?thesis
    unfolding ex_session sub_def [symmetric]
    by cases (use handle assms(1) in \<open>auto simp: session_of_byte_def session_transition_def
      session_reset_def split: if_splits\<close>)
qed

theorem dsc_changes_session_witness:
  "positive_reply DiagnosticSessionControl
     (fst (dsc_handle None [0x10, 0x03] (replicate 8 0) (session_new kDefaultTiming, ())))"
  using dsc_changes_session [of "replicate 8 0" None "[0x10, 0x03]" "session_new kDefaultTiming" "()"]
  by (cases "dsc_handle None [0x10, 0x03] (replicate 8 0) (session_new kDefaultTiming, ())")
    (auto intro: exI [of _ Extended])

text \<open>A run of LinkControl: each request comes with the session it finds.\<close>

fun link_run ::
    "(u32 \<Rightarrow> 'w \<Rightarrow> 'w) option \<Rightarrow> ('v uds_session \<times> u8 list) list \<Rightarrow> u8 list \<Rightarrow>
     link_control \<times> 'w \<Rightarrow> link_control \<times> 'w" where
  "link_run cb [] resp st = st"
| "link_run cb ((session, req) # rs) resp st =
     link_run cb rs resp (snd (link_control_handle cb session req resp st))"

lemma link_run_append:
  "link_run cb (xs @ ys) resp st = link_run cb ys resp (link_run cb xs resp st)"
  by (induction cb xs resp st rule: link_run.induct) simp_all

definition is_verify :: "'v uds_session \<times> u8 list \<Rightarrow> bool" where
  "is_verify = (\<lambda>(session, req). m_session session \<noteq> Default \<and> length req \<ge> 4 \<and>
     req ! 1 AND 0x7F = 1 \<and> req ! 3 \<in> fst ` set kBaudrates)"

definition is_switch :: "'v uds_session \<times> u8 list \<Rightarrow> bool" where
  "is_switch = (\<lambda>(session, req). m_session session \<noteq> Default \<and> length req \<ge> 2 \<and>
     req ! 1 AND 0x7F = 3)"

text \<open>The rate b was verified by one of the requests, with no verification or switch after it.\<close>

definition open_rate :: "('v uds_session \<times> u8 list) list \<Rightarrow> u32 \<Rightarrow> bool" where
  "open_rate rs b \<longleftrightarrow>
     since (\<lambda>x. is_verify x \<and> (snd x ! 3, b) \<in> set kBaudrates) (\<lambda>x. is_verify x \<or> is_switch x) rs"

lemma resolve_baudrate:
  "(resolve_fixed_baudrate ident = 0 \<longleftrightarrow> ident \<notin> fst ` set kBaudrates) \<and>
   (resolve_fixed_baudrate ident \<noteq> 0 \<longrightarrow>
     (\<forall>b. (ident, b) \<in> set kBaudrates \<longleftrightarrow> b = resolve_fixed_baudrate ident))"
  by (auto simp: resolve_fixed_baudrate_def kBaudrates_def)

lemma link_step:
  assumes "link_control_handle cb session req resp (lc, w) = (r, lc', w')"
  shows "(lc', w') =
    (if is_verify (session, req)
     then (lc\<lparr>lc_pending_baudrate := resolve_fixed_baudrate (req ! 3), lc_verified := True\<rparr>, w)
     else if is_switch (session, req) \<and> lc_verified lc
     then (lc\<lparr>lc_verified := False\<rparr>, call_if (map_option (\<lambda>cb. cb (lc_pending_baudrate lc)) cb) w)
     else (lc, w))"
  using assms resolve_baudrate [of "req ! 3"]
  by (auto simp: link_control_handle_def Let_def is_verify_def is_switch_def split: if_splits)

lemma open_rate_run:
  assumes "link_run cb rs resp (link_control_new, w) = (lc, w')"
  shows "open_rate rs b \<longleftrightarrow> lc_verified lc \<and> lc_pending_baudrate lc = b"
  using assms
proof (induction rs arbitrary: lc w' rule: rev_induct)
  case Nil
  then show ?case by (auto simp: link_control_new_def open_rate_def)
next
  case (snoc x rs)
  obtain session req where x: "x = (session, req)" by fastforce
  obtain lc1 w1 where run: "link_run cb rs resp (link_control_new, w) = (lc1, w1)" by fastforce
  obtain r lc2 w2 where h: "link_control_handle cb session req resp (lc1, w1) = (r, lc2, w2)"
    by (metis prod_cases3)
  with snoc.prems have "lc2 = lc" by (simp add: link_run_append x run)
  with link_step [OF h] have lc: "lc =
      (if is_verify x
       then lc1\<lparr>lc_pending_baudrate := resolve_fixed_baudrate (req ! 3), lc_verified := True\<rparr>
       else if is_switch x \<and> lc_verified lc1 then lc1\<lparr>lc_verified := False\<rparr> else lc1)"
    by (auto simp: x split: if_splits)
  have "(req ! 3, b) \<in> set kBaudrates \<longleftrightarrow> b = resolve_fixed_baudrate (req ! 3)" if "is_verify x"
    using resolve_baudrate [of "req ! 3"] that by (simp add: is_verify_def x)
  then show ?case
    using snoc.IH [OF run] by (cases "is_verify x"; cases "is_switch x") (auto simp: lc open_rate_def x)
qed

text \<open>
  C23. LinkControl never switches to an unverified rate: over any sequence of requests, in
  any sessions, a request hands the rate b to the callback exactly when it asks for the switch and
  the last verification that was accepted was one of the rate b, with no other switch asked for
  since; every other request hands over nothing. So the rates handed over are rates of the table,
  and there are at most as many switches as there were accepted verifications before.
\<close>

theorem link_switch_needs_verify:
  assumes "link_run (Some (\<lambda>bps log. log @ [bps])) rs resp (link_control_new, []) = (lc, log)"
  shows "set log \<subseteq> snd ` set kBaudrates \<and>
    length log + (if lc_verified lc then 1 else 0) \<le> length (filter is_verify rs) \<and>
    (\<forall>xs x ys. rs = xs @ x # ys \<longrightarrow>
      (let log_of = \<lambda>xs. snd (link_run (Some (\<lambda>bps log. log @ [bps])) xs resp (link_control_new, []))
       in (\<forall>b. log_of (xs @ [x]) = log_of xs @ [b] \<longleftrightarrow> is_switch x \<and> open_rate xs b) \<and>
          (log_of (xs @ [x]) = log_of xs \<longleftrightarrow> \<not> (is_switch x \<and> (\<exists>b. open_rate xs b)))))"
proof (intro conjI allI impI)
  let ?cb = "Some (\<lambda>bps log. log @ [bps])"
  let ?run = "\<lambda>rs. link_run ?cb rs resp (link_control_new, [])"
  have step: "snd (?run (xs @ [x])) =
      snd (?run xs) @ (if is_switch x \<and> lc_verified (fst (?run xs))
        then [lc_pending_baudrate (fst (?run xs))] else []) \<and>
    lc_verified (fst (?run (xs @ [x]))) =
      (is_verify x \<or> lc_verified (fst (?run xs)) \<and> \<not> is_switch x)" for xs x
  proof -
    obtain lc w where run: "?run xs = (lc, w)" by fastforce
    obtain r lc' w' where h: "link_control_handle ?cb (fst x) (snd x) resp (lc, w) = (r, lc', w')"
      by (metis prod_cases3)
    have excl: "\<not> (is_verify x \<and> is_switch x)" by (auto simp: is_verify_def is_switch_def split_def)
    have "?run (xs @ [x]) = (lc', w')" using run h by (cases x) (simp add: link_run_append)
    with link_step [OF h] run excl show ?thesis by (auto simp: call_if_def split: if_splits)
  qed
  have rate: "b \<in> snd ` set kBaudrates" if "open_rate xs b" for xs b
    using that unfolding open_rate_def since_def by force
  have "set (snd (?run rs)) \<subseteq> snd ` set kBaudrates \<and>
      length (snd (?run rs)) + (if lc_verified (fst (?run rs)) then 1 else 0) \<le> length (filter is_verify rs)"
  proof (induction rs rule: rev_induct)
    case Nil
    then show ?case by (simp add: link_control_new_def)
  next
    case (snoc x xs)
    have "lc_pending_baudrate (fst (?run xs)) \<in> snd ` set kBaudrates" if "lc_verified (fst (?run xs))"
      using rate open_rate_run [of ?cb xs resp "[]" "fst (?run xs)" "snd (?run xs)"] that by auto
    with step [of xs x] snoc show ?case by (simp split: if_splits)
  qed
  with assms show "set log \<subseteq> snd ` set kBaudrates"
    "length log + (if lc_verified lc then 1 else 0) \<le> length (filter is_verify rs)" by simp_all
  show "let log_of = \<lambda>xs. snd (?run xs)
       in (\<forall>b. log_of (xs @ [x]) = log_of xs @ [b] \<longleftrightarrow> is_switch x \<and> open_rate xs b) \<and>
          (log_of (xs @ [x]) = log_of xs \<longleftrightarrow> \<not> (is_switch x \<and> (\<exists>b. open_rate xs b)))" for xs x
    using step [of xs x] open_rate_run [of ?cb xs resp "[]" "fst (?run xs)" "snd (?run xs)"]
    by (auto simp: Let_def)
qed

theorem link_switch_needs_verify_witness:
  "let ext = (session_new kDefaultTiming :: unit uds_session)\<lparr>m_session := Extended\<rparr>;
       log = snd (link_run (Some (\<lambda>bps log. log @ [bps]))
               [(ext, [0x87, 0x01, 0x00, 0x05]), (ext, [0x87, 0x03]), (ext, [0x87, 0x03])]
               (replicate 8 0) (link_control_new, []))
   in set log \<subseteq> snd ` set kBaudrates \<and> log = [500000]"
proof -
  let ?ext = "(session_new kDefaultTiming :: unit uds_session)\<lparr>m_session := Extended\<rparr>"
  let ?rs = "[(?ext, [0x87, 0x01, 0x00, 0x05]), (?ext, [0x87, 0x03]), (?ext, [0x87, 0x03])]"
  let ?st = "link_run (Some (\<lambda>bps log. log @ [bps])) ?rs (replicate 8 0) (link_control_new, [])"
  have "set (snd ?st) \<subseteq> snd ` set kBaudrates"
    using link_switch_needs_verify [of ?rs "replicate 8 0" "fst ?st" "snd ?st"] by simp
  moreover have "snd ?st = [500000]"
    by (simp add: link_control_handle_def Let_def call_if_def resolve_fixed_baudrate_def
        kBaudrates_def link_control_new_def)
  ultimately show ?thesis by (simp add: Let_def)
qed

text \<open>
  In the default session the services that change the communication have no effect:
  CommunicationControl, ControlDtcSetting and LinkControl refuse every request and call
  nothing, whatever callbacks are registered.
\<close>

theorem default_session_protected:
  assumes "m_session session = Default" "3 \<le> length resp"
  shows "(\<exists>nrc. negative_reply CommunicationControl nrc
        (fst (comm_control_handle cb1 session req resp w))) \<and>
     snd (comm_control_handle cb1 session req resp w) = w \<and>
    (\<exists>nrc. negative_reply ControlDtcSetting nrc
        (fst (control_dtc_handle cb2 session req resp w))) \<and>
     snd (control_dtc_handle cb2 session req resp w) = w \<and>
    (\<exists>nrc. negative_reply LinkControl nrc
        (fst (link_control_handle cb3 session req resp (lc, w)))) \<and>
     snd (link_control_handle cb3 session req resp (lc, w)) = (lc, w)"
  using assms
  by (auto simp: comm_control_handle_def control_dtc_handle_def link_control_handle_def Let_def)

theorem default_session_protected_witness:
  "snd (comm_control_handle (Some (\<lambda>sub t w. w + sub))
     (session_new kDefaultTiming :: unit uds_session) [0x28, 0x03, 0x01] (replicate 8 0) 7) = 7"
  using default_session_protected [of "session_new kDefaultTiming :: unit uds_session" "replicate 8 0"
      "Some (\<lambda>sub t w. w + sub)" "[0x28, 0x03, 0x01]" 7 None None link_control_new]
  by (simp add: session_new_def)

end
