(* ===== verification/Services_Memory.thy ===== *)
theory Services_Memory
  imports Service_Base
begin

text \<open>
  Memory access and transfer of blocks: ReadMemoryByAddress, WriteMemoryByAddress,
  RequestDownload, RequestUpload, TransferData and RequestTransferExit. Addresses and sizes
  are 32 bit words (\<open>uint32_t\<close>, and \<open>size_t\<close> on the targets), so the byte loops that build
  them wrap. A callback that gets a pointer into the request and a length gets the request
  bytes from that pointer on and the length, which need not fit.
\<close>

text \<open>\<open>for (...) x = (x << 8) | req[...];\<close>\<close>

definition parse_be :: "u8 list \<Rightarrow> u32" where
  "parse_be bs = fold (\<lambda>b x. push_bit 8 x OR ucast b) bs 0"

definition low_nibble :: "u8 \<Rightarrow> nat" where
  "low_nibble b = unat (b AND 0x0F)"

definition high_nibble :: "u8 \<Rightarrow> nat" where
  "high_nibble b = unat (drop_bit 4 b AND 0x0F)"

section \<open>ReadMemoryByAddress\<close>

definition read_memory_handle ::
    "(u32 \<Rightarrow> u8 list \<Rightarrow> nat \<Rightarrow> 'w \<Rightarrow> nat \<times> u8 list \<times> 'w) option \<Rightarrow> u8 list \<Rightarrow> u8 list \<Rightarrow> 'w \<Rightarrow>
     reply \<times> 'w" where
  "read_memory_handle callback req resp w =
     (if length req < 3 then
        (nrc_reply ReadMemoryByAddress IncorrectMessageLengthOrInvalidFormat resp, w)
      else
        let addr_len = low_nibble (req ! 1);
            mem_len = high_nibble (req ! 1)
        in if addr_len = 0 \<or> mem_len = 0 \<or> length req < 2 + addr_len + mem_len then
             (nrc_reply ReadMemoryByAddress IncorrectMessageLengthOrInvalidFormat resp, w)
           else
             let address = parse_be (take addr_len (drop 2 req));
                 mem_size = unat (parse_be (take mem_len (drop (2 + addr_len) req)))
             in if mem_size = 0 \<or> mem_size > size_sub (length resp) 1 then
                  (nrc_reply ReadMemoryByAddress ResponseTooLong resp, w)
                else
                  let resp = put 0 [sid_byte ReadMemoryByAddress + 0x40] resp in
                  case callback of
                    None \<Rightarrow> (nrc_reply ReadMemoryByAddress ConditionsNotCorrect resp, w)
                  | Some cb \<Rightarrow>
                      (case cb address (drop 1 resp) mem_size w of
                         (n, part, w) \<Rightarrow>
                           let resp = take 1 resp @ part in
                           if n = 0
                           then (nrc_reply ReadMemoryByAddress RequestOutOfRange resp, w)
                           else (\<lparr>r_send = True, r_buf = resp, r_len = 1 + n\<rparr>, w)))"

section \<open>WriteMemoryByAddress\<close>

definition write_memory_handle ::
    "(u32 \<Rightarrow> u8 list \<Rightarrow> nat \<Rightarrow> 'w \<Rightarrow> bool \<times> 'w) option \<Rightarrow> u8 list \<Rightarrow> u8 list \<Rightarrow> 'w \<Rightarrow>
     reply \<times> 'w" where
  "write_memory_handle callback req resp w =
     (if length req < 3 then
        (nrc_reply WriteMemoryByAddress IncorrectMessageLengthOrInvalidFormat resp, w)
      else
        let addr_len_fmt = req ! 1;
            addr_len = low_nibble addr_len_fmt;
            mem_len = high_nibble addr_len_fmt
        in if addr_len = 0 \<or> mem_len = 0 \<or> length req < 2 + addr_len + mem_len then
             (nrc_reply WriteMemoryByAddress IncorrectMessageLengthOrInvalidFormat resp, w)
           else
             let address = parse_be (take addr_len (drop 2 req));
                 mem_size = unat (parse_be (take mem_len (drop (2 + addr_len) req)));
                 data_start = 2 + addr_len + mem_len
             in if length req < size_add data_start mem_size then
                  (nrc_reply WriteMemoryByAddress IncorrectMessageLengthOrInvalidFormat resp, w)
                else
                  (case (case callback of
                           None \<Rightarrow> (False, w)
                         | Some cb \<Rightarrow> cb address (drop data_start req) mem_size w) of
                     (ok, w) \<Rightarrow>
                       if \<not> ok
                       then (nrc_reply WriteMemoryByAddress GeneralProgrammingFailure resp, w)
                       else (pos_reply True WriteMemoryByAddress
                               (addr_len_fmt # take addr_len (drop 2 req)) resp, w)))"

section \<open>RequestDownload and RequestUpload\<close>

record transfer_request =
  tr_address :: u32
  tr_length :: u32
  tr_compression :: u8
  tr_encryption :: u8

definition parse_transfer :: "u8 list \<Rightarrow> transfer_request" where
  "parse_transfer req =
     (let addr_len = low_nibble (req ! 2);
          size_len = high_nibble (req ! 2)
      in \<lparr>tr_address = parse_be (take addr_len (drop 3 req)),
          tr_length = parse_be (take size_len (drop (3 + addr_len) req)),
          tr_compression = drop_bit 4 (req ! 1) AND 0x0F,
          tr_encryption = req ! 1 AND 0x0F\<rparr>)"

text \<open>The callback returns acceptance, the block size it sets and the environment.\<close>

type_synonym 'w accept_fn = "transfer_request \<Rightarrow> 'w \<Rightarrow> bool \<times> u32 \<times> 'w"

definition request_download_handle ::
    "'w accept_fn option \<Rightarrow> 'v uds_session \<Rightarrow> u8 list \<Rightarrow> u8 list \<Rightarrow> bool \<times> 'w \<Rightarrow>
     reply \<times> bool \<times> 'w" where
  "request_download_handle callback session req resp = (\<lambda>(m_active, w).
     if length req < 3 then
       (nrc_reply RequestDownload IncorrectMessageLengthOrInvalidFormat resp, m_active, w)
     else if m_session session \<noteq> Programming then
       (nrc_reply RequestDownload ServiceNotSupportedInActiveSession resp, m_active, w)
     else if m_active then (nrc_reply RequestDownload RequestSequenceError resp, m_active, w)
     else if length req < 3 + low_nibble (req ! 2) + high_nibble (req ! 2) then
       (nrc_reply RequestDownload IncorrectMessageLengthOrInvalidFormat resp, m_active, w)
     else
       (case (case callback of None \<Rightarrow> (False, 0, w) | Some cb \<Rightarrow> cb (parse_transfer req) w) of
          (ok, max_block, w) \<Rightarrow>
            if \<not> ok then (nrc_reply RequestDownload UploadDownloadNotAccepted resp, m_active, w)
            else (pos_reply True RequestDownload [0x20, byte_at 1 max_block, byte_at 0 max_block] resp,
                  True, w)))"

definition request_upload_handle ::
    "'w accept_fn option \<Rightarrow> u8 list \<Rightarrow> u8 list \<Rightarrow> bool \<times> 'w \<Rightarrow> reply \<times> bool \<times> 'w" where
  "request_upload_handle callback req resp = (\<lambda>(m_active, w).
     if length req < 3 then
       (nrc_reply RequestUpload IncorrectMessageLengthOrInvalidFormat resp, m_active, w)
     else if m_active then (nrc_reply RequestUpload RequestSequenceError resp, m_active, w)
     else if length req < 3 + low_nibble (req ! 2) + high_nibble (req ! 2) then
       (nrc_reply RequestUpload IncorrectMessageLengthOrInvalidFormat resp, m_active, w)
     else
       (case (case callback of None \<Rightarrow> (False, 0, w) | Some cb \<Rightarrow> cb (parse_transfer req) w) of
          (ok, max_block, w) \<Rightarrow>
            if \<not> ok then (nrc_reply RequestUpload UploadDownloadNotAccepted resp, m_active, w)
            else (pos_reply True RequestUpload [0x20, byte_at 1 max_block, byte_at 0 max_block] resp,
                  True, w)))"

section \<open>TransferData\<close>

record transfer_data =
  td_expected_seq :: u8
  td_active :: bool

definition td_new :: transfer_data where
  "td_new = \<lparr>td_expected_seq = 1, td_active = False\<rparr>"

definition td_start :: "transfer_data \<Rightarrow> transfer_data" where
  "td_start td = td\<lparr>td_active := True, td_expected_seq := 1\<rparr>"

definition td_reset :: "transfer_data \<Rightarrow> transfer_data" where
  "td_reset td = td\<lparr>td_active := False, td_expected_seq := 1\<rparr>"

definition transfer_data_handle ::
    "(u8 \<Rightarrow> u8 list \<Rightarrow> 'w \<Rightarrow> bool \<times> 'w) option \<Rightarrow> u8 list \<Rightarrow> u8 list \<Rightarrow> transfer_data \<times> 'w \<Rightarrow>
     reply \<times> transfer_data \<times> 'w" where
  "transfer_data_handle callback req resp = (\<lambda>(td, w).
     if length req < 2 then
       (nrc_reply TransferData IncorrectMessageLengthOrInvalidFormat resp, td, w)
     else if \<not> td_active td then (nrc_reply TransferData RequestSequenceError resp, td, w)
     else
       let seq = req ! 1 in
       if seq \<noteq> td_expected_seq td then (nrc_reply TransferData WrongBlockSequenceCounter resp, td, w)
       else
         (case (case callback of None \<Rightarrow> (True, w) | Some cb \<Rightarrow> cb seq (drop 2 req) w) of
            (ok, w) \<Rightarrow>
              if \<not> ok then (nrc_reply TransferData GeneralProgrammingFailure resp, td, w)
              else (pos_reply True TransferData [seq] resp,
                    td\<lparr>td_expected_seq := (if seq = 0xFF then 0x00 else seq + 1)\<rparr>, w)))"

section \<open>RequestTransferExit\<close>

text \<open>
  The state is the flag of the download service and the transfer service, which this service
  resets through references. The callback gets the parameter record, the part of the buffer
  after the first byte and its size.
\<close>

type_synonym 'w exit_fn = "u8 list option \<Rightarrow> u8 list \<Rightarrow> nat \<Rightarrow> 'w \<Rightarrow> bool \<times> u8 list \<times> nat \<times> 'w"

definition transfer_exit_handle ::
    "'w exit_fn option \<Rightarrow> u8 list \<Rightarrow> u8 list \<Rightarrow> bool \<times> transfer_data \<times> 'w \<Rightarrow>
     reply \<times> bool \<times> transfer_data \<times> 'w" where
  "transfer_exit_handle callback req resp = (\<lambda>(dl_active, td, w).
     if \<not> dl_active then (nrc_reply RequestTransferExit RequestSequenceError resp, dl_active, td, w)
     else
       let param = (if length req > 1 then Some (drop 1 req) else None);
           resp = put 0 [sid_byte RequestTransferExit + 0x40] resp;
           resp_param_len = size_sub (length resp) 1
       in case callback of
            None \<Rightarrow> (\<lparr>r_send = True, r_buf = resp, r_len = 1\<rparr>, False, td_reset td, w)
          | Some cb \<Rightarrow>
              (case cb param (drop 1 resp) resp_param_len w of
                 (ok, part, resp_param_len, w) \<Rightarrow>
                   let resp = take 1 resp @ part in
                   if \<not> ok
                   then (nrc_reply RequestTransferExit GeneralProgrammingFailure resp, dl_active, td, w)
                   else (\<lparr>r_send = True, r_buf = resp, r_len = 1 + resp_param_len\<rparr>,
                         False, td_reset td, w)))"

section \<open>Numbers built from bytes\<close>

lemma parse_be_snoc: "parse_be (bs @ [b]) = push_bit 8 (parse_be bs) OR ucast b"
  by (simp add: parse_be_def)

lemma unat_shift_or: "unat (push_bit 8 x OR ucast (b :: u8)) = (unat x * 256 + unat b) mod 2 ^ 32"
  for x :: u32
proof -
  have "push_bit 8 x AND ucast b = 0"
    by (rule bit_word_eqI) (auto simp: bit_simps dest: bit_imp_le_length)
  then have "unat (push_bit 8 x OR ucast b) = unat (push_bit 8 x) + unat b"
    by (simp add: unat_or_disjoint)
  moreover have "push_bit 8 x OR ucast b = push_bit 8 x + ucast b"
    using \<open>push_bit 8 x AND ucast b = 0\<close> by (simp add: disjunctive_add_eq_or)
  ultimately show ?thesis
    by (simp add: push_bit_eq_mult unat_word_ariths mod_simps mult.commute)
qed

definition be_value :: "u8 list \<Rightarrow> nat" where
  "be_value bs = fold (\<lambda>b x. x * 256 + unat b) bs 0"

lemma unat_parse_be: "unat (parse_be bs) = be_value bs mod 2 ^ 32"
proof (induction bs rule: rev_induct)
  case (snoc b bs)
  have "be_value (bs @ [b]) = be_value bs * 256 + unat b" by (simp add: be_value_def)
  moreover have "(x mod m * 256 + unat b) mod m = (x * 256 + unat b) mod m" for x m
    by (metis mod_add_left_eq mod_mult_left_eq)
  ultimately show ?case using snoc by (simp add: parse_be_snoc unat_shift_or)
qed (simp add: parse_be_def be_value_def)

lemma be_value_bound: "be_value bs < 256 ^ length bs"
proof (induction bs rule: rev_induct)
  case (snoc b bs)
  then have "Suc (be_value bs) * 256 \<le> 256 ^ length bs * 256" by (intro mult_right_mono) simp_all
  with unat_u8_lt [of b] show ?case by (simp add: be_value_def)
qed (simp add: be_value_def)

lemma low_nibble_bound: "low_nibble b \<le> 15"
  using low_nibble_le [of b] by (simp add: low_nibble_def)

lemma high_nibble_bound: "high_nibble b \<le> 15"
  using low_nibble_le [of "drop_bit 4 b"] by (simp add: high_nibble_def)

section \<open>The contract of \<open>IService\<close>\<close>

definition read_cb_ok :: "(u32 \<Rightarrow> u8 list \<Rightarrow> nat \<Rightarrow> 'w \<Rightarrow> nat \<times> u8 list \<times> 'w) option \<Rightarrow> bool" where
  "read_cb_ok cb \<longleftrightarrow> (\<forall>f a buf len w n buf' w'. cb = Some f \<longrightarrow> len \<le> length buf \<longrightarrow>
     f a buf len w = (n, buf', w') \<longrightarrow> length buf' = length buf \<and> n \<le> len)"

definition exit_cb_ok :: "'w exit_fn option \<Rightarrow> bool" where
  "exit_cb_ok cb \<longleftrightarrow> (\<forall>f p buf w ok buf' n w'. cb = Some f \<longrightarrow>
     f p buf (length buf) w = (ok, buf', n, w') \<longrightarrow>
       length buf' = length buf \<and> (ok \<longrightarrow> n \<le> length buf))"

lemma read_memory_wf:
  assumes "read_cb_ok cb" "length resp = kMaxResp"
  shows "reply_wf kMaxResp ReadMemoryByAddress (fst (read_memory_handle cb req resp w))"
proof -
  define addr_len where "addr_len = low_nibble (req ! 1)"
  define mem_len where "mem_len = high_nibble (req ! 1)"
  define address where "address = parse_be (take addr_len (drop 2 req))"
  define mem_size where "mem_size = unat (parse_be (take mem_len (drop (2 + addr_len) req)))"
  let ?resp = "put 0 [0x63] resp"
  note h = read_memory_handle_def [of cb req resp w, unfolded Let_def, folded addr_len_def mem_len_def,
      folded address_def mem_size_def]
  have len: "length ?resp = kMaxResp" using assms(2) by (simp add: length_put kMaxResp_def)
  show ?thesis
  proof (cases "\<exists>f. cb = Some f \<and> mem_size \<le> kMaxResp - 1")
    case True
    then obtain f where f: "cb = Some f" "mem_size \<le> kMaxResp - 1" by blast
    obtain n part w' where call: "f address (drop 1 ?resp) mem_size w = (n, part, w')"
      by (metis prod_cases3)
    have fit: "length part = kMaxResp - 1" "n \<le> kMaxResp - 1"
      using assms(1) [unfolded read_cb_ok_def, rule_format, OF f(1) _ call] f(2) len
      by simp_all
    have "hd (take 1 ?resp @ part) = sid_byte ReadMemoryByAddress + 0x40"
      by (simp add: put_def)
    then have ok: "n \<noteq> 0 \<Longrightarrow> reply_wf kMaxResp ReadMemoryByAddress
        \<lparr>r_send = True, r_buf = take 1 ?resp @ part, r_len = 1 + n\<rparr>"
      using fit len by (intro reply_wf_raw) (simp_all add: kMaxResp_def)
    have nrc: "reply_wf kMaxResp ReadMemoryByAddress (nrc_reply ReadMemoryByAddress c buf)"
      if "length buf = kMaxResp" for c buf
      using that by (simp add: kMaxResp_def)
    have "length (take 1 ?resp @ part) = kMaxResp" using fit len by (simp add: kMaxResp_def)
    then show ?thesis
      unfolding h using f call ok nrc assms(2) by (simp add: kMaxResp_def)
  qed (use assms(2) h in \<open>auto simp: kMaxResp_def length_put split: option.split\<close>)
qed

lemma write_memory_wf: "length resp = kMaxResp \<Longrightarrow>
    reply_wf kMaxResp WriteMemoryByAddress (fst (write_memory_handle cb req resp w))"
  using low_nibble_bound [of "req ! 1"]
  by (auto simp: write_memory_handle_def Let_def kMaxResp_def split: option.split prod.split)

lemma transfer_exit_wf:
  assumes "exit_cb_ok cb" "length resp = kMaxResp"
  shows "reply_wf kMaxResp RequestTransferExit (fst (transfer_exit_handle cb req resp (dl, td, w)))"
proof (cases "dl \<and> cb \<noteq> None")
  case True
  then obtain f where f: "cb = Some f" by blast
  let ?resp = "put 0 [0x77] resp"
  let ?param = "if length req > 1 then Some (drop 1 req) else None"
  have len: "length ?resp = kMaxResp" using assms(2) by (simp add: length_put kMaxResp_def)
  obtain ok part n w' where call: "f ?param (drop 1 ?resp) (kMaxResp - 1) w = (ok, part, n, w')"
    by (metis prod_cases4)
  have fit: "length part = kMaxResp - 1" "ok \<Longrightarrow> n \<le> kMaxResp - 1"
    using assms(1) f call len unfolding exit_cb_ok_def by (metis length_drop)+
  have "hd (take 1 ?resp @ part) = sid_byte RequestTransferExit + 0x40"
    by (simp add: put_def)
  then show ?thesis
    using True f call fit assms(2) len
    by (auto simp: transfer_exit_handle_def Let_def kMaxResp_def intro!: reply_wf_raw)
next
  case False
  with assms(2) show ?thesis
    by (auto simp: transfer_exit_handle_def Let_def kMaxResp_def length_put hd_append put_def
        intro!: reply_wf_raw)
qed

interpretation read_memory: uds_service ReadMemoryByAddress "\<lambda>(cb, w). read_cb_ok cb"
  "\<lambda>req resp (cb, w). case read_memory_handle cb req resp w of (r, w') \<Rightarrow> (r, (cb, w'))"
  by (rule table_service) (rule read_memory_wf)

interpretation write_memory: uds_service WriteMemoryByAddress "\<lambda>(cb, w). True"
  "\<lambda>req resp (cb, w). case write_memory_handle cb req resp w of (r, w') \<Rightarrow> (r, (cb, w'))"
  by (rule table_service) (rule write_memory_wf)

interpretation request_download: uds_service RequestDownload "\<lambda>_. True"
  "request_download_handle cb session"
  for cb :: "'w accept_fn option" and session :: "'v uds_session"
  by unfold_locales
    (auto simp: request_download_handle_def kMaxResp_def split: option.split prod.split)

interpretation request_upload: uds_service RequestUpload "\<lambda>_. True" "request_upload_handle cb"
  for cb :: "'w accept_fn option"
  by unfold_locales
    (auto simp: request_upload_handle_def kMaxResp_def split: option.split prod.split)

interpretation transfer_data: uds_service TransferData "\<lambda>_. True" "transfer_data_handle cb"
  for cb :: "(u8 \<Rightarrow> u8 list \<Rightarrow> 'w \<Rightarrow> bool \<times> 'w) option"
  by unfold_locales
    (auto simp: transfer_data_handle_def Let_def kMaxResp_def split: option.split prod.split)

interpretation transfer_exit: uds_service RequestTransferExit "\<lambda>(cb, _). exit_cb_ok cb"
  "\<lambda>req resp (cb, s). case transfer_exit_handle cb req resp s of (r, s') \<Rightarrow> (r, (cb, s'))"
  by (rule table_service) (metis transfer_exit_wf prod_cases3)

section \<open>Reading and writing memory\<close>

text \<open>A read callback over a byte-addressed memory that always delivers what is asked.\<close>

definition memory_reader :: "(u32 \<Rightarrow> u8) \<Rightarrow> u32 \<Rightarrow> u8 list \<Rightarrow> nat \<Rightarrow> 'w \<Rightarrow> nat \<times> u8 list \<times> 'w" where
  "memory_reader mem address buf len w =
     (len, put 0 (map (\<lambda>i. mem (address + of_nat i)) [0..<len]) buf, w)"

lemma read_memory_reader_ok: "read_cb_ok (Some (memory_reader mem))"
  by (auto simp: read_cb_ok_def memory_reader_def length_put)

text \<open>
  ReadMemoryByAddress answers with the bytes of the memory from the big-endian address of
  the request on, as many as its size field says, as long as they fit the response buffer;
  a size of zero or one that does not fit is refused. Address and size fields longer than
  four bytes count modulo 2^32.
\<close>

theorem read_memory_reads:
  assumes "low_nibble fmt = length as" "high_nibble fmt = length ss" "as \<noteq> []" "ss \<noteq> []"
    and "length resp = kMaxResp" "n = be_value ss mod 2 ^ 32"
  shows "if 0 < n \<and> n < kMaxResp
    then reply_bytes (fst (read_memory_handle (Some (memory_reader mem)) (0x23 # fmt # as @ ss) resp w)) =
        0x63 # map (\<lambda>i. mem (of_nat (be_value as) + of_nat i)) [0..<n]
    else negative_reply ReadMemoryByAddress ResponseTooLong
        (fst (read_memory_handle (Some (memory_reader mem)) (0x23 # fmt # as @ ss) resp w))"
proof -
  have addr: "parse_be as = of_nat (be_value as)"
    by (simp add: word_unat_eq_iff unat_parse_be unat_of_nat)
  have size: "unat (parse_be ss) = n" using assms(6) by (simp add: unat_parse_be)
  have h: "read_memory_handle (Some (memory_reader mem)) (0x23 # fmt # as @ ss) resp w =
      (if n = 0 \<or> n > kMaxResp - 1 then (nrc_reply ReadMemoryByAddress ResponseTooLong resp, w)
       else (\<lparr>r_send = True,
               r_buf = take 1 (put 0 [0x63] resp) @ put 0 (map (\<lambda>i. mem (parse_be as + of_nat i)) [0..<n])
                 (drop 1 (put 0 [0x63] resp)), r_len = 1 + n\<rparr>, w))"
    using assms(1-5) size
    by (simp add: read_memory_handle_def memory_reader_def kMaxResp_def Let_def)
  show ?thesis
    using assms(5) unfolding h by (auto simp: reply_bytes_def put_def kMaxResp_def addr)
qed

theorem read_memory_reads_witness:
  "reply_bytes (fst (read_memory_handle (Some (memory_reader (\<lambda>a. ucast a)))
     (0x23 # 0x12 # [0x12, 0x34] @ [2]) (replicate kMaxResp 0) ())) = [0x63, 0x34, 0x35]"
  using read_memory_reads [of "0x12" "[0x12, 0x34]" "[2]" "replicate kMaxResp 0" 2 "\<lambda>a. ucast a" "()"]
  by (simp add: low_nibble_def high_nibble_def be_value_def kMaxResp_def upt_rec)

text \<open>
  The callback is called with the data up to the end of the request and a length. What it does on
  a length beyond its data never matters, unless the check of the length has wrapped around.
\<close>

definition same_within ::
    "(u32 \<Rightarrow> u8 list \<Rightarrow> nat \<Rightarrow> 'w \<Rightarrow> bool \<times> 'w) \<Rightarrow> (u32 \<Rightarrow> u8 list \<Rightarrow> nat \<Rightarrow> 'w \<Rightarrow> bool \<times> 'w) \<Rightarrow> bool" where
  "same_within f f' \<longleftrightarrow>
     (\<forall>address data len w. len \<le> length data \<or> 2 ^ 32 - 32 \<le> len \<longrightarrow>
        f' address data len w = f address data len w)"

lemma write_memory_within:
  assumes "same_within f f'"
  shows "write_memory_handle (Some f') req resp w = write_memory_handle (Some f) req resp w"
proof -
  let ?a = "low_nibble (req ! 1)" and ?s = "high_nibble (req ! 1)"
  have "f' address (drop (2 + ?a + ?s) req) len w = f address (drop (2 + ?a + ?s) req) len w"
    if "size_add (2 + ?a + ?s) len \<le> length req" for address len
  proof -
    have "?a \<le> 15" "?s \<le> 15" by (simp_all add: low_nibble_bound high_nibble_bound)
    then have "len \<le> length (drop (2 + ?a + ?s) req) \<or> 2 ^ 32 - 32 \<le> len"
      using that by (auto simp: size_add_def not_le)
    with assms show ?thesis by (auto simp: same_within_def)
  qed
  then show ?thesis by (auto simp: write_memory_handle_def Let_def)
qed

text \<open>
  C32. WriteMemoryByAddress hands the callback a length that lies inside the request exactly
  when the start of the data plus the length stays below 2^32. Beyond that the length check
  itself wraps around and the callback is called with a length far beyond the request.
\<close>

theorem write_memory_length:
  assumes "a = low_nibble (req ! 1)" "s = high_nibble (req ! 1)" "0 < a" "0 < s"
    and "2 + a + s \<le> length req" "length req < 2 ^ 32"
    and "n = unat (parse_be (take s (drop (2 + a) req)))"
  shows "(snd (write_memory_handle (Some (\<lambda>addr data len w. (True, w @ [(length data, len)])))
        req resp []) = (if (2 + a + s + n) mod 2 ^ 32 \<le> length req
                        then [(length req - (2 + a + s), n)] else [])) \<and>
    ((2 + a + s + n) mod 2 ^ 32 \<le> length req \<longrightarrow>
      (n \<le> length req - (2 + a + s) \<longleftrightarrow> 2 + a + s + n < 2 ^ 32))"
proof -
  have "snd (write_memory_handle (Some (\<lambda>addr data len w. (True, w @ [(length data, len)]))) req resp [])
      = (if length req < size_add (2 + a + s) n then [] else [(length req - (2 + a + s), n)])"
    using assms by (simp add: write_memory_handle_def Let_def)
  moreover have "n < 2 ^ 32" using unat_u32_lt assms(7) by simp
  ultimately show ?thesis
    using assms(5,6) by (auto simp: size_add_def)
qed

theorem write_memory_length_witness:
  "snd (write_memory_handle (Some (\<lambda>addr data len w. (True, w @ [(length data, len)])))
     [0x3D, 0x41, 0x00, 0xFF, 0xFF, 0xFF, 0xFF] (replicate 8 0) []) = [(0, 0xFFFFFFFF)]"
proof -
  let ?req = "[0x3D, 0x41, 0x00, 0xFF, 0xFF, 0xFF, 0xFF] :: u8 list"
  have nib: "1 = low_nibble (?req ! 1)" "4 = high_nibble (?req ! 1)"
    by (simp_all add: low_nibble_def high_nibble_def)
  have "be_value [0xFF, 0xFF, 0xFF, 0xFF] = 0xFFFFFFFF" by (simp add: be_value_def)
  then have n: "0xFFFFFFFF = unat (parse_be (take 4 (drop (2 + 1) ?req)))"
    by (simp add: unat_parse_be)
  show ?thesis
    using conjunct1 [OF write_memory_length [OF nib _ _ _ _ n, of "replicate 8 0"]] by simp
qed

section \<open>Transferring blocks\<close>

text \<open>The requests of consecutive blocks, numbered from k on, and their handling in order.\<close>

fun block_requests :: "nat \<Rightarrow> u8 list list \<Rightarrow> u8 list list" where
  "block_requests k [] = []"
| "block_requests k (b # bs) = (0x36 # of_nat k # b) # block_requests (Suc k) bs"

fun transfer_run ::
    "(u8 \<Rightarrow> u8 list \<Rightarrow> 'w \<Rightarrow> bool \<times> 'w) option \<Rightarrow> u8 list \<Rightarrow> u8 list list \<Rightarrow> transfer_data \<times> 'w \<Rightarrow>
     reply list \<times> transfer_data \<times> 'w" where
  "transfer_run cb resp [] st = ([], st)"
| "transfer_run cb resp (req # reqs) st =
     (case transfer_data_handle cb req resp st of
        (r, st') \<Rightarrow> (case transfer_run cb resp reqs st' of (rs, st'') \<Rightarrow> (r # rs, st'')))"

lemma next_seq: "(if of_nat k = (0xFF :: u8) then 0x00 else of_nat k + 1) = (of_nat (Suc k) :: u8)"
proof -
  have "(0xFF :: u8) + 1 = 0" by simp
  then show ?thesis by (metis add.commute of_nat_Suc)
qed

lemma transfer_run_blocks:
  assumes "\<And>seq b w. cb seq b w = (True, f w b)"
  shows "td_active td \<Longrightarrow> td_expected_seq td = of_nat k \<Longrightarrow>
    \<exists>rs. transfer_run (Some cb) resp (block_requests k bs) (td, w) =
      (rs, td\<lparr>td_expected_seq := of_nat (k + length bs)\<rparr>, foldl f w bs) \<and>
      map reply_bytes rs = map (\<lambda>i. [0x76, of_nat i]) [k..<k + length bs]"
proof (induction bs arbitrary: k td w)
  case (Cons b bs)
  let ?td = "td\<lparr>td_expected_seq := of_nat (Suc k)\<rparr>"
  have step: "transfer_data_handle (Some cb) (0x36 # of_nat k # b) resp (td, w) =
      (pos_reply True TransferData [of_nat k] resp, ?td, f w b)"
    using Cons.prems assms by (simp add: transfer_data_handle_def Let_def next_seq [simplified])
  from Cons.IH [of ?td "Suc k" "f w b"] Cons.prems obtain rs where
    "transfer_run (Some cb) resp (block_requests (Suc k) bs) (?td, f w b) =
      (rs, ?td\<lparr>td_expected_seq := of_nat (Suc k + length bs)\<rparr>, foldl f (f w b) bs)"
    "map reply_bytes rs = map (\<lambda>i. [0x76, of_nat i]) [Suc k..<Suc k + length bs]" by auto
  moreover have "[k..<k + length (b # bs)] = k # [Suc k..<Suc k + length bs]"
    by (simp add: upt_rec)
  ultimately show ?case using step by (simp del: of_nat_Suc)
qed simp

text \<open>
  C13. A download of any number of blocks arrives complete and in order: after \<open>start\<close>, blocks
  sent with the counter 1, 2, ..., 255, 0, 1, ... are all acknowledged with their counter
  and handed to the application in the order sent, beyond any wrap of the counter; then a
  repeated block is refused without effect.
\<close>

theorem download_in_order:
  assumes "\<And>seq b w. cb seq b w = (True, f w b)"
  shows "\<exists>rs td'. transfer_run (Some cb) resp (block_requests 1 bs) (td_start td, w) =
      (rs, td', foldl f w bs) \<and>
    map reply_bytes rs = map (\<lambda>i. [0x76, of_nat i]) [1..<1 + length bs] \<and>
    (bs \<noteq> [] \<longrightarrow> transfer_data_handle (Some cb) (0x36 # of_nat (length bs) # b) resp (td', w') =
      (nrc_reply TransferData WrongBlockSequenceCounter resp, td', w'))"
proof -
  let ?td = "(td_start td)\<lparr>td_expected_seq := of_nat (1 + length bs)\<rparr>"
  obtain rs where
    "transfer_run (Some cb) resp (block_requests 1 bs) (td_start td, w) = (rs, ?td, foldl f w bs)"
    "map reply_bytes rs = map (\<lambda>i. [0x76, of_nat i]) [1..<1 + length bs]"
    using transfer_run_blocks [of cb f "td_start td" 1 resp bs w, OF assms]
    by (auto simp: td_start_def)
  moreover have "transfer_data_handle (Some cb) (0x36 # of_nat (length bs) # b) resp (?td, w') =
      (nrc_reply TransferData WrongBlockSequenceCounter resp, ?td, w')"
    by (simp add: transfer_data_handle_def td_start_def)
  ultimately show ?thesis by blast
qed

theorem download_in_order_witness:
  "\<exists>rs td'. transfer_run (Some (\<lambda>seq b w. (True, w @ b))) (replicate 8 0)
     (block_requests 1 [[1, 2], [3], [4, 5]]) (td_start td_new, []) =
     (rs, td', [1, 2, 3, 4, 5])"
  using download_in_order [of "\<lambda>seq b w. (True, w @ b)" "(@)" "replicate 8 0"
      "[[1, 2], [3], [4, 5]]" td_new "[]" "[]" "[]"]
  by (simp del: transfer_run.simps block_requests.simps) blast

text \<open>
  C21. Only the block with the expected counter, during an active transfer, reaches the
  application, and it is answered positively exactly when the application takes it. Every other
  request is answered by a negative reply that is sent, with the code of the first check that
  fails, and leaves the transfer service as it is, so that a refused block can be sent again.
\<close>

theorem block_guarded:
  assumes "transfer_data_handle (Some cb) req resp (td, w) = (r, td', w')" "3 \<le> length resp"
  shows "(positive_reply TransferData r \<longleftrightarrow> 2 \<le> length req \<and> td_active td \<and>
      req ! 1 = td_expected_seq td \<and> fst (cb (req ! 1) (drop 2 req) w)) \<and>
    (\<not> positive_reply TransferData r \<longrightarrow> td' = td) \<and>
    (w' \<noteq> w \<longrightarrow> td_active td \<and> req ! 1 = td_expected_seq td) \<and>
    (negative_reply TransferData WrongBlockSequenceCounter r \<longleftrightarrow>
      2 \<le> length req \<and> td_active td \<and> req ! 1 \<noteq> td_expected_seq td) \<and>
    (\<not> positive_reply TransferData r \<longrightarrow> r_send r \<and> reply_bytes r = [0x7F, 0x36,
      nrc_byte (if length req < 2 then IncorrectMessageLengthOrInvalidFormat
                else if \<not> td_active td then RequestSequenceError
                else if req ! 1 \<noteq> td_expected_seq td then WrongBlockSequenceCounter
                else GeneralProgrammingFailure)]) \<and>
    (positive_reply TransferData r \<longrightarrow> r_send r \<and> reply_bytes r = [0x76, req ! 1] \<and>
      td' = td\<lparr>td_expected_seq := req ! 1 + 1\<rparr> \<and> w' = snd (cb (req ! 1) (drop 2 req) w)) \<and>
    (w' \<noteq> w \<longrightarrow> 2 \<le> length req)"
  using assms
  by (auto simp: transfer_data_handle_def Let_def split: if_splits prod.splits)

theorem block_guarded_witness:
  "\<exists>r. transfer_data_handle (Some (\<lambda>seq b w. (True, w @ b))) [0x36, 2, 9] (replicate 8 0)
     (td_start td_new, []) = (r, td_start td_new, []) \<and>
   negative_reply TransferData WrongBlockSequenceCounter r"
proof -
  obtain r td' w' where h: "transfer_data_handle (Some (\<lambda>seq b w. (True, w @ b))) [0x36, 2, 9]
      (replicate 8 0) (td_start td_new, []) = (r, td', w')" by (metis prod_cases3)
  from block_guarded [OF h] have "\<not> positive_reply TransferData r" "td' = td_start td_new" "w' = []"
    "negative_reply TransferData WrongBlockSequenceCounter r"
    by (auto simp: td_start_def)
  with h show ?thesis by blast
qed

section \<open>The life of a transfer\<close>













end
