(* ===== verification/Dtc_Manager.thy ===== *)
theory Dtc_Manager
  imports Registry
begin

text \<open>
  The diagnostic trouble codes (\<open>include/uds/dtc/dtc.hpp\<close>, \<open>dtc_manager.hpp\<close>,
  \<open>src/uds/dtc/dtc_manager.cpp\<close>): a table of at most 64 entries, each with the eight status
  bits of ISO 14229-1 and a snapshot. The list \<open>m_dtcs\<close> is the used prefix of the array; a
  slot of the array is written for the first time by \<open>register_dtc\<close>, so the fields that
  function does not set still hold the zeros of the constructor. A pointer into the array is
  the index of the entry, a null pointer \<open>None\<close>.
\<close>

section \<open>Entries and status bits\<close>

definition kTestFailed :: u8 where "kTestFailed = 0x01"
definition kTestFailedThisOpCycle :: u8 where "kTestFailedThisOpCycle = 0x02"
definition kPendingDtc :: u8 where "kPendingDtc = 0x04"
definition kConfirmedDtc :: u8 where "kConfirmedDtc = 0x08"
definition kTestNotCompletedSinceLastClear :: u8 where "kTestNotCompletedSinceLastClear = 0x10"
definition kTestFailedSinceLastClear :: u8 where "kTestFailedSinceLastClear = 0x20"
definition kTestNotCompletedThisOpCycle :: u8 where "kTestNotCompletedThisOpCycle = 0x40"
definition kWarningIndicatorRequested :: u8 where "kWarningIndicatorRequested = 0x80"

lemmas status_bits = kTestFailed_def kTestFailedThisOpCycle_def kPendingDtc_def
  kConfirmedDtc_def kTestNotCompletedSinceLastClear_def kTestFailedSinceLastClear_def
  kTestNotCompletedThisOpCycle_def kWarningIndicatorRequested_def

record dtc_entry =
  dtc_code :: u32
  dtc_status :: u8
  dtc_severity :: u8
  dtc_active :: bool
  dtc_snapshot :: "u8 list"
  dtc_snapshot_len :: nat
  dtc_ext_data :: "u8 list"
  dtc_ext_data_len :: nat

record dtc_manager =
  m_dtcs :: "dtc_entry list"
  m_status_availability :: u8

definition kMaxDtcs :: nat where "kMaxDtcs = 64"

definition dtc_manager_new :: dtc_manager where
  "dtc_manager_new = \<lparr>m_dtcs = [], m_status_availability = 0xFF\<rparr>"

definition dtc_find :: "u32 \<Rightarrow> dtc_manager \<Rightarrow> nat option" where
  "dtc_find code m = find_index (\<lambda>e. dtc_code e = code AND 0xFFFFFF) (m_dtcs m)"

section \<open>Operations\<close>

definition fresh_dtc :: "u32 \<Rightarrow> u8 \<Rightarrow> dtc_entry" where
  "fresh_dtc code severity =
     \<lparr>dtc_code = code AND 0xFFFFFF,
      dtc_status = kTestNotCompletedSinceLastClear OR kTestNotCompletedThisOpCycle,
      dtc_severity = severity, dtc_active = True,
      dtc_snapshot = replicate 64 0, dtc_snapshot_len = 0,
      dtc_ext_data = replicate 32 0, dtc_ext_data_len = 0\<rparr>"

text \<open>The index of the new entry, \<open>None\<close> for -1.\<close>

definition register_dtc :: "u32 \<Rightarrow> u8 \<Rightarrow> dtc_manager \<Rightarrow> nat option \<times> dtc_manager" where
  "register_dtc code severity m =
     (if length (m_dtcs m) \<ge> kMaxDtcs then (None, m)
      else if dtc_find code m \<noteq> None then (None, m)
      else (Some (length (m_dtcs m)),
            m\<lparr>m_dtcs := m_dtcs m @ [fresh_dtc code severity]\<rparr>))"

definition test_result_status :: "bool \<Rightarrow> u8 \<Rightarrow> u8" where
  "test_result_status failed st =
     (let st = st AND NOT kTestNotCompletedThisOpCycle;
          st = st AND NOT kTestNotCompletedSinceLastClear
      in if failed then
           let st = st OR kTestFailed;
               st = st OR kTestFailedThisOpCycle;
               st = st OR kTestFailedSinceLastClear;
               st = st OR kPendingDtc
           in st OR kConfirmedDtc
         else
           let st = st AND NOT kTestFailed;
               st = st AND NOT kTestFailedThisOpCycle
           in st AND NOT kPendingDtc)"

definition set_test_result :: "u32 \<Rightarrow> bool \<Rightarrow> dtc_manager \<Rightarrow> dtc_manager" where
  "set_test_result code failed m =
     (case dtc_find code m of
        None \<Rightarrow> m
      | Some i \<Rightarrow>
          let e = m_dtcs m ! i in
          if \<not> dtc_active e then m
          else m\<lparr>m_dtcs := (m_dtcs m)
                   [i := e\<lparr>dtc_status := test_result_status failed (dtc_status e)\<rparr>]\<rparr>)"

definition clear_all :: "dtc_manager \<Rightarrow> dtc_manager" where
  "clear_all m =
     m\<lparr>m_dtcs := map (\<lambda>e.
         e\<lparr>dtc_status := kTestNotCompletedSinceLastClear OR kTestNotCompletedThisOpCycle,
           dtc_snapshot_len := 0, dtc_ext_data_len := 0\<rparr>) (m_dtcs m)\<rparr>"

definition group_matches :: "u32 \<Rightarrow> u32 \<Rightarrow> bool" where
  "group_matches group_mask code \<longleftrightarrow>
     group_mask = 0xFFFFFF \<or> code AND group_mask = group_mask AND 0xFFFFFF"

definition clear_group :: "u32 \<Rightarrow> dtc_manager \<Rightarrow> dtc_manager" where
  "clear_group group_mask m =
     m\<lparr>m_dtcs := map (\<lambda>e.
         if group_matches group_mask (dtc_code e)
         then e\<lparr>dtc_status := kTestNotCompletedSinceLastClear OR kTestNotCompletedThisOpCycle,
                dtc_snapshot_len := 0\<rparr>
         else e) (m_dtcs m)\<rparr>"

definition status_selected :: "u8 \<Rightarrow> dtc_entry \<Rightarrow> bool" where
  "status_selected status_mask e \<longleftrightarrow> status_mask = 0xFF \<or> dtc_status e AND status_mask \<noteq> 0"

definition count_by_status :: "u8 \<Rightarrow> dtc_manager \<Rightarrow> nat" where
  "count_by_status status_mask m =
     fold (\<lambda>e cnt. if status_selected status_mask e then cnt + 1 else cnt) (m_dtcs m) 0"

text \<open>The loop of \<open>for_each\<close>; the callback returns false to leave it. \<open>'c\<close> is its context.\<close>

fun for_each_from :: "u8 \<Rightarrow> (dtc_entry \<Rightarrow> 'c \<Rightarrow> bool \<times> 'c) \<Rightarrow> dtc_entry list \<Rightarrow> 'c \<Rightarrow> 'c" where
  "for_each_from status_mask callback [] ctx = ctx"
| "for_each_from status_mask callback (e # es) ctx =
     (if status_selected status_mask e then
        (case callback e ctx of
           (continue, ctx') \<Rightarrow>
             if continue then for_each_from status_mask callback es ctx' else ctx')
      else for_each_from status_mask callback es ctx)"

definition for_each :: "u8 \<Rightarrow> (dtc_entry \<Rightarrow> 'c \<Rightarrow> bool \<times> 'c) \<Rightarrow> dtc_manager \<Rightarrow> 'c \<Rightarrow> 'c" where
  "for_each status_mask callback m ctx = for_each_from status_mask callback (m_dtcs m) ctx"

definition op_cycle_status :: "u8 \<Rightarrow> u8" where
  "op_cycle_status st = (st AND NOT kTestFailedThisOpCycle) OR kTestNotCompletedThisOpCycle"

definition update_op_cycle :: "dtc_manager \<Rightarrow> dtc_manager" where
  "update_op_cycle m =
     m\<lparr>m_dtcs := map (\<lambda>e. e\<lparr>dtc_status := op_cycle_status (dtc_status e)\<rparr>) (m_dtcs m)\<rparr>"

text \<open>A null data pointer is \<open>None\<close>; otherwise \<open>len\<close> is the length of the data.\<close>

definition set_snapshot :: "u32 \<Rightarrow> u8 list option \<Rightarrow> dtc_manager \<Rightarrow> bool \<times> dtc_manager" where
  "set_snapshot code data m =
     (case (dtc_find code m, data) of
        (Some i, Some bs) \<Rightarrow>
          let e = m_dtcs m ! i;
              copy = (if length bs < length (dtc_snapshot e) then length bs
                      else length (dtc_snapshot e))
          in (True, m\<lparr>m_dtcs := (m_dtcs m)
                [i := e\<lparr>dtc_snapshot := put 0 (take copy bs) (dtc_snapshot e),
                        dtc_snapshot_len := copy\<rparr>]\<rparr>)
      | _ \<Rightarrow> (False, m))"

definition set_freeze_frame ::
    "u32 \<Rightarrow> u8 \<Rightarrow> u8 list option \<Rightarrow> dtc_manager \<Rightarrow> bool \<times> dtc_manager" where
  "set_freeze_frame code record_num data m =
     (case (dtc_find code m, data) of
        (Some i, Some bs) \<Rightarrow>
          let e = m_dtcs m ! i;
              copy = (if length bs < length (dtc_snapshot e) then length bs
                      else length (dtc_snapshot e))
          in (True, m\<lparr>m_dtcs := (m_dtcs m)
                [i := e\<lparr>dtc_snapshot := put 0 (take copy bs) (dtc_snapshot e),
                        dtc_snapshot_len := copy\<rparr>]\<rparr>)
      | _ \<Rightarrow> (False, m))"

text \<open>The number of bytes and the output buffer, which is \<open>None\<close> when the pointer is null.\<close>

definition get_freeze_frame ::
    "u32 \<Rightarrow> u8 \<Rightarrow> u8 list option \<Rightarrow> nat \<Rightarrow> dtc_manager \<Rightarrow> nat \<times> u8 list option" where
  "get_freeze_frame code record_num out max_len m =
     (case dtc_find code m of
        None \<Rightarrow> (0, out)
      | Some i \<Rightarrow>
          let e = m_dtcs m ! i in
          (case out of
             None \<Rightarrow> (0, None)
           | Some buf \<Rightarrow>
               if dtc_snapshot_len e = 0 then (0, Some buf)
               else
                 let copy = (if dtc_snapshot_len e < max_len then dtc_snapshot_len e else max_len)
                 in (copy, Some (put 0 (take copy (dtc_snapshot e)) buf))))"

definition is_confirmed :: "u32 \<Rightarrow> dtc_manager \<Rightarrow> bool" where
  "is_confirmed code m =
     (case dtc_find code m of
        None \<Rightarrow> False
      | Some i \<Rightarrow> dtc_status (m_dtcs m ! i) AND kConfirmedDtc \<noteq> 0)"

definition set_status_availability :: "u8 \<Rightarrow> dtc_manager \<Rightarrow> dtc_manager" where
  "set_status_availability msk m = m\<lparr>m_status_availability := msk\<rparr>"

section \<open>The table of codes\<close>

definition add_dtc :: "u32 \<times> u8 \<Rightarrow> dtc_manager \<Rightarrow> bool \<times> dtc_manager" where
  "add_dtc = (\<lambda>(code, severity) m.
     case register_dtc code severity m of (i, m') \<Rightarrow> (i \<noteq> None, m'))"

lemma dtc_code_fresh [simp]: "dtc_code (fresh_dtc c s) = c AND 0xFFFFFF"
  by (simp add: fresh_dtc_def)

lemma dtc_find_None: "dtc_find c m = None \<longleftrightarrow> c AND 0xFFFFFF \<notin> dtc_code ` set (m_dtcs m)"
  by (force simp: dtc_find_def)

lemma dtc_find_Some: "dtc_find c m = Some i \<Longrightarrow>
    i < length (m_dtcs m) \<and> dtc_code (m_dtcs m ! i) = c AND 0xFFFFFF"
  unfolding dtc_find_def by (drule find_index_Some) simp

interpretation dtcs: unique_registry kMaxDtcs "\<lambda>c m. dtc_find (fst c) m = None"
  "\<lambda>c. fresh_dtc (fst c) (snd c)" dtc_code m_dtcs add_dtc
  "\<lambda>k m. find (\<lambda>e. dtc_code e = k) (m_dtcs m)"
  by unfold_locales
    (auto simp: add_dtc_def register_dtc_def dtc_find_None find_None_iff' image_iff
      split: prod.splits)

section \<open>Runs of the manager\<close>

datatype dtc_event =
    RegisterDtc u32 u8
  | TestResult u32 bool
  | ClearAll
  | ClearGroup u32
  | OpCycle
  | Snapshot u32 "u8 list option"

fun dtc_apply :: "dtc_event \<Rightarrow> dtc_manager \<Rightarrow> dtc_manager" where
  "dtc_apply (RegisterDtc c s) m = snd (register_dtc c s m)"
| "dtc_apply (TestResult c failed) m = set_test_result c failed m"
| "dtc_apply ClearAll m = clear_all m"
| "dtc_apply (ClearGroup g) m = clear_group g m"
| "dtc_apply OpCycle m = update_op_cycle m"
| "dtc_apply (Snapshot c d) m = snd (set_snapshot c d m)"

definition dtc_run :: "dtc_event list \<Rightarrow> dtc_manager \<Rightarrow> dtc_manager" where
  "dtc_run es m = fold dtc_apply es m"

lemma dtc_run_nil [simp]: "dtc_run [] m = m"
  by (simp add: dtc_run_def)

lemma dtc_run_snoc [simp]: "dtc_run (es @ [e]) m = dtc_apply e (dtc_run es m)"
  by (simp add: dtc_run_def)

text \<open>The entries of a table: 24 bit codes, all active, a snapshot that fits.\<close>

definition dtc_entry_ok :: "dtc_entry \<Rightarrow> bool" where
  "dtc_entry_ok e \<longleftrightarrow> dtc_active e \<and> dtc_code e AND 0xFFFFFF = dtc_code e \<and>
     length (dtc_snapshot e) = 64 \<and> dtc_snapshot_len e \<le> 64"

definition dtc_inv :: "dtc_manager \<Rightarrow> bool" where
  "dtc_inv m \<longleftrightarrow> length (m_dtcs m) \<le> kMaxDtcs \<and> distinct (map dtc_code (m_dtcs m)) \<and>
     (\<forall>e \<in> set (m_dtcs m). dtc_entry_ok e)"

lemma dtc_inv_new: "dtc_inv dtc_manager_new"
  by (simp add: dtc_inv_def dtc_manager_new_def)

lemma dtc_inv_map:
  assumes "dtc_inv m" "\<And>e. dtc_code (f e) = dtc_code e"
    "\<And>e. dtc_entry_ok e \<Longrightarrow> dtc_entry_ok (f e)"
  shows "dtc_inv (m\<lparr>m_dtcs := map f (m_dtcs m)\<rparr>)"
  using assms by (auto simp: dtc_inv_def comp_def)

lemma dtc_inv_set_at:
  assumes "dtc_inv m" "i < length (m_dtcs m)" "dtc_code e = dtc_code (m_dtcs m ! i)"
    "dtc_entry_ok (m_dtcs m ! i) \<Longrightarrow> dtc_entry_ok e"
  shows "dtc_inv (m\<lparr>m_dtcs := (m_dtcs m)[i := e]\<rparr>)"
proof -
  have "map dtc_code ((m_dtcs m)[i := e]) = map dtc_code (m_dtcs m)"
    using assms(2,3) by (metis list_update_id map_update nth_map)
  with assms show ?thesis
    by (auto simp: dtc_inv_def dest!: set_update_subset_insert [THEN subsetD])
qed

lemma dtc_inv_register: "dtc_inv m \<Longrightarrow> dtc_inv (snd (register_dtc c s m))"
  using dtcs.distinct_add [of m "(c, s)"]
  by (auto simp: dtc_inv_def register_dtc_def add_dtc_def dtc_entry_ok_def fresh_dtc_def
      split: if_splits)

lemma dtc_inv_set_test_result: "dtc_inv m \<Longrightarrow> dtc_inv (set_test_result c failed m)"
  by (auto simp: set_test_result_def Let_def dtc_entry_ok_def split: option.split
      dest: dtc_find_Some intro!: dtc_inv_set_at)

lemma dtc_inv_snapshot: "dtc_inv m \<Longrightarrow> dtc_inv (snd (set_snapshot c d m))"
  by (auto simp: set_snapshot_def Let_def dtc_entry_ok_def put_simps split: option.split
      dest: dtc_find_Some intro!: dtc_inv_set_at)

lemma dtc_inv_apply: "dtc_inv m \<Longrightarrow> dtc_inv (dtc_apply e m)"
  by (cases e)
    (auto simp: dtc_inv_register dtc_inv_set_test_result dtc_inv_snapshot clear_all_def
      clear_group_def update_op_cycle_def dtc_entry_ok_def intro!: dtc_inv_map)

lemma dtc_inv_run: "dtc_inv m \<Longrightarrow> dtc_inv (dtc_run es m)"
  by (induction es rule: rev_induct) (simp_all add: dtc_inv_apply)

section \<open>The status byte of a code\<close>

definition dtc_status_of :: "u32 \<Rightarrow> dtc_manager \<Rightarrow> u8 option" where
  "dtc_status_of c m = map_option (\<lambda>i. dtc_status (m_dtcs m ! i)) (dtc_find c m)"

text \<open>Two arguments name the same code when their low 24 bits agree.\<close>

definition same_dtc :: "u32 \<Rightarrow> u32 \<Rightarrow> bool" where
  "same_dtc a b \<longleftrightarrow> a AND 0xFFFFFF = b AND 0xFFFFFF"

text \<open>What an event does to the status byte of the code \<open>c\<close>.\<close>

fun status_after :: "u32 \<Rightarrow> dtc_event \<Rightarrow> u8 \<Rightarrow> u8" where
  "status_after c (TestResult c' failed) st =
     (if same_dtc c c' then test_result_status failed st else st)"
| "status_after c ClearAll st = kTestNotCompletedSinceLastClear OR kTestNotCompletedThisOpCycle"
| "status_after c (ClearGroup g) st =
     (if group_matches g (c AND 0xFFFFFF)
      then kTestNotCompletedSinceLastClear OR kTestNotCompletedThisOpCycle else st)"
| "status_after c OpCycle st = op_cycle_status st"
| "status_after c _ st = st"

lemma dtc_find_map:
  "(\<And>e. dtc_code (f e) = dtc_code e) \<Longrightarrow>
    dtc_find c (m\<lparr>m_dtcs := map f (m_dtcs m)\<rparr>) = dtc_find c m"
  by (simp add: dtc_find_def find_index_map)

lemma dtc_find_set_at:
  "(i < length (m_dtcs m) \<Longrightarrow> dtc_code e = dtc_code (m_dtcs m ! i)) \<Longrightarrow>
    dtc_find c (m\<lparr>m_dtcs := (m_dtcs m)[i := e]\<rparr>) = dtc_find c m"
  by (simp add: dtc_find_def find_index_update)

lemma status_of_map:
  assumes "\<And>e. dtc_code (f e) = dtc_code e"
    "\<And>e. dtc_code e = c AND 0xFFFFFF \<Longrightarrow> dtc_status (f e) = g (dtc_status e)"
  shows "dtc_status_of c (m\<lparr>m_dtcs := map f (m_dtcs m)\<rparr>) = map_option g (dtc_status_of c m)"
proof (cases "dtc_find c m")
  case (Some i)
  with dtc_find_Some [OF Some] show ?thesis
    by (simp add: dtc_status_of_def dtc_find_map assms)
qed (simp add: dtc_status_of_def dtc_find_map assms(1))

lemma status_of_set_at:
  assumes "dtc_find c' m = Some i" "dtc_code e = dtc_code (m_dtcs m ! i)"
  shows "dtc_status_of c (m\<lparr>m_dtcs := (m_dtcs m)[i := e]\<rparr>) =
    (if same_dtc c c' then Some (dtc_status e) else dtc_status_of c m)"
proof -
  have i: "i < length (m_dtcs m)" "dtc_code (m_dtcs m ! i) = c' AND 0xFFFFFF"
    using dtc_find_Some [OF assms(1)] by simp_all
  have "dtc_find c m = dtc_find c' m" if "same_dtc c c'"
    using that by (simp add: same_dtc_def dtc_find_def)
  moreover have "dtc_find c m \<noteq> Some i" if "\<not> same_dtc c c'"
    using that i dtc_find_Some [of c m i] by (auto simp: same_dtc_def)
  ultimately show ?thesis
    using assms i by (auto simp: dtc_status_of_def dtc_find_set_at intro!: map_option_cong)
qed

lemma status_of_register:
  "dtc_status_of c m = Some st \<Longrightarrow> dtc_status_of c (snd (register_dtc c' s m)) = Some st"
  by (auto simp: dtc_status_of_def register_dtc_def dtc_find_def find_index_append nth_append
      dest: find_index_Some)

lemma status_of_apply:
  assumes "dtc_inv m" "dtc_status_of c m = Some st"
  shows "dtc_status_of c (dtc_apply e m) = Some (status_after c e st)"
proof (cases e)
  case (RegisterDtc c' s)
  with assms show ?thesis by (simp add: status_of_register)
next
  case (TestResult c' failed)
  show ?thesis
  proof (cases "dtc_find c' m")
    case None
    then have "\<not> same_dtc c c'"
      using assms(2) by (auto simp: dtc_status_of_def dtc_find_def same_dtc_def
          simp flip: find_index_None)
    with None TestResult assms show ?thesis by (simp add: set_test_result_def)
  next
    case (Some i)
    then have "dtc_active (m_dtcs m ! i)"
      using assms(1) dtc_find_Some [OF Some] by (auto simp: dtc_inv_def dtc_entry_ok_def)
    moreover have "same_dtc c c' \<Longrightarrow> dtc_status (m_dtcs m ! i) = st"
      using assms(2) Some by (auto simp: dtc_status_of_def dtc_find_def same_dtc_def)
    ultimately show ?thesis
      using Some TestResult assms by (auto simp: set_test_result_def Let_def status_of_set_at)
  qed
next
  case (Snapshot c' d)
  have "dtc_status (m_dtcs m ! i) = st" if "dtc_find c' m = Some i" "same_dtc c c'" for i
    using assms(2) that by (auto simp: dtc_status_of_def dtc_find_def same_dtc_def)
  with Snapshot assms show ?thesis
    by (auto simp: set_snapshot_def Let_def status_of_set_at split: option.split)
next
  case ClearAll
  then show ?thesis
    using assms(2) by (simp add: clear_all_def status_of_map [where g = "status_after c e"])
next
  case (ClearGroup g)
  then show ?thesis
    using assms(2) by (simp add: clear_group_def status_of_map [where g = "status_after c e"])
next
  case OpCycle
  then show ?thesis
    using assms(2) by (simp add: update_op_cycle_def status_of_map [where g = "status_after c e"])
qed

lemma status_of_run:
  assumes "dtc_inv m" "dtc_status_of c m = Some st"
  shows "dtc_status_of c (dtc_run es m) = Some (fold (status_after c) es st)"
  by (induction es rule: rev_induct) (simp_all add: assms status_of_apply dtc_inv_run)

section \<open>The status bits and the history of the code\<close>

fun is_result :: "u32 \<Rightarrow> dtc_event \<Rightarrow> bool" where
  "is_result c (TestResult c' failed) = same_dtc c c'"
| "is_result c _ = False"

fun is_failure :: "u32 \<Rightarrow> dtc_event \<Rightarrow> bool" where
  "is_failure c (TestResult c' failed) = (same_dtc c c' \<and> failed)"
| "is_failure c _ = False"

fun is_clear :: "u32 \<Rightarrow> dtc_event \<Rightarrow> bool" where
  "is_clear c ClearAll = True"
| "is_clear c (ClearGroup g) = group_matches g (c AND 0xFFFFFF)"
| "is_clear c _ = False"

fun is_cycle :: "dtc_event \<Rightarrow> bool" where
  "is_cycle OpCycle = True"
| "is_cycle _ = False"

lemma status_bit_iff:
  "st AND kTestFailed \<noteq> 0 \<longleftrightarrow> bit st 0"
  "st AND kTestFailedThisOpCycle \<noteq> 0 \<longleftrightarrow> bit st 1"
  "st AND kPendingDtc \<noteq> 0 \<longleftrightarrow> bit st 2"
  "st AND kConfirmedDtc \<noteq> 0 \<longleftrightarrow> bit st 3"
  "st AND kTestNotCompletedSinceLastClear \<noteq> 0 \<longleftrightarrow> bit st 4"
  "st AND kTestFailedSinceLastClear \<noteq> 0 \<longleftrightarrow> bit st 5"
  "st AND kTestNotCompletedThisOpCycle \<noteq> 0 \<longleftrightarrow> bit st 6"
  "st AND kWarningIndicatorRequested = 0 \<longleftrightarrow> \<not> bit st 7"
  using and_exp_eq_0_iff_not_bit [of st 0] and_exp_eq_0_iff_not_bit [of st 1]
    and_exp_eq_0_iff_not_bit [of st 2] and_exp_eq_0_iff_not_bit [of st 3]
    and_exp_eq_0_iff_not_bit [of st 4] and_exp_eq_0_iff_not_bit [of st 5]
    and_exp_eq_0_iff_not_bit [of st 6] and_exp_eq_0_iff_not_bit [of st 7]
  by (simp_all add: status_bits)

lemma status_after_bits:
  "bit (status_after c e st) 0 \<longleftrightarrow> is_failure c e \<or> \<not> (is_result c e \<or> is_clear c e) \<and> bit st 0"
  "bit (status_after c e st) 1 \<longleftrightarrow>
     is_failure c e \<or> \<not> (is_result c e \<or> is_clear c e \<or> is_cycle e) \<and> bit st 1"
  "bit (status_after c e st) 2 \<longleftrightarrow> is_failure c e \<or> \<not> (is_result c e \<or> is_clear c e) \<and> bit st 2"
  "bit (status_after c e st) 3 \<longleftrightarrow> is_failure c e \<or> \<not> is_clear c e \<and> bit st 3"
  "bit (status_after c e st) 4 \<longleftrightarrow> \<not> is_result c e \<and> (is_clear c e \<or> bit st 4)"
  "bit (status_after c e st) 5 \<longleftrightarrow> is_failure c e \<or> \<not> is_clear c e \<and> bit st 5"
  "bit (status_after c e st) 6 \<longleftrightarrow> \<not> is_result c e \<and> (is_clear c e \<or> is_cycle e \<or> bit st 6)"
  "bit (status_after c e st) 7 \<longleftrightarrow> \<not> is_clear c e \<and> bit st 7"
  by (cases e; simp add: test_result_status_def op_cycle_status_def Let_def status_bits bit_simps)+

text \<open>Every bit of the status byte says one thing about the history of the code.\<close>

lemma status_history:
  assumes "\<not> bit st 0" "\<not> bit st 1" "\<not> bit st 2" "\<not> bit st 3" "bit st 4" "\<not> bit st 5" "bit st 6" "\<not> bit st 7"
  shows
    "bit (fold (status_after c) es st) 0 \<longleftrightarrow>
       since (is_failure c) (\<lambda>e. is_result c e \<or> is_clear c e) es"
    "bit (fold (status_after c) es st) 1 \<longleftrightarrow>
       since (is_failure c) (\<lambda>e. is_result c e \<or> is_clear c e \<or> is_cycle e) es"
    "bit (fold (status_after c) es st) 2 \<longleftrightarrow>
       since (is_failure c) (\<lambda>e. is_result c e \<or> is_clear c e) es"
    "bit (fold (status_after c) es st) 3 \<longleftrightarrow> since (is_failure c) (is_clear c) es"
    "bit (fold (status_after c) es st) 4 \<longleftrightarrow> \<not> since (is_result c) (is_clear c) es"
    "bit (fold (status_after c) es st) 5 \<longleftrightarrow> since (is_failure c) (is_clear c) es"
    "bit (fold (status_after c) es st) 6 \<longleftrightarrow>
       \<not> since (is_result c) (\<lambda>e. is_clear c e \<or> is_cycle e) es"
    "\<not> bit (fold (status_after c) es st) 7"
  by (induction es rule: rev_induct) (simp_all only: fold_simps fold_append comp_apply
      since_nil since_snoc assms status_after_bits de_Morgan_disj simp_thms, blast+)

lemma register_status:
  assumes "register_dtc code severity m = (Some i, m')"
  shows "dtc_status_of code m' = Some 0x50"
  using assms
  by (auto simp: register_dtc_def dtc_status_of_def dtc_find_def find_index_append fresh_dtc_def
      status_bits split: if_splits simp flip: find_index_None)

section \<open>Properties\<close>

text \<open>
  C12. The status byte of a registered code is determined by its history, bit by bit: it
  reports a failed test since the last passed test or clear (testFailed, pendingDTC), the
  same within the operation cycle, a failure since the last clear of the code (confirmedDTC,
  testFailedSinceLastClear), and the absence of a result since the last clear or since the
  start of the cycle. The eighth bit (warningIndicatorRequested) is never set. Results and clears of other codes, snapshots and registrations do not
  matter.
\<close>

theorem dtc_status_history:
  assumes "dtc_inv m" "register_dtc code severity m = (Some i, m1)"
  shows "\<exists>st. dtc_status_of code (dtc_run es m1) = Some st \<and>
    (st AND kTestFailed \<noteq> 0 \<longleftrightarrow>
       since (is_failure code) (\<lambda>e. is_result code e \<or> is_clear code e) es) \<and>
    (st AND kTestFailedThisOpCycle \<noteq> 0 \<longleftrightarrow>
       since (is_failure code) (\<lambda>e. is_result code e \<or> is_clear code e \<or> is_cycle e) es) \<and>
    (st AND kPendingDtc \<noteq> 0 \<longleftrightarrow>
       since (is_failure code) (\<lambda>e. is_result code e \<or> is_clear code e) es) \<and>
    (st AND kConfirmedDtc \<noteq> 0 \<longleftrightarrow> since (is_failure code) (is_clear code) es) \<and>
    (st AND kTestNotCompletedSinceLastClear \<noteq> 0 \<longleftrightarrow>
       \<not> since (is_result code) (is_clear code) es) \<and>
    (st AND kTestFailedSinceLastClear \<noteq> 0 \<longleftrightarrow> since (is_failure code) (is_clear code) es) \<and>
    (st AND kTestNotCompletedThisOpCycle \<noteq> 0 \<longleftrightarrow>
       \<not> since (is_result code) (\<lambda>e. is_clear code e \<or> is_cycle e) es) \<and>
    st AND kWarningIndicatorRequested = 0"
proof -
  have m1: "dtc_inv m1" using dtc_inv_register [OF assms(1), of code severity] assms(2) by simp
  have st: "dtc_status_of code (dtc_run es m1) = Some (fold (status_after code) es 0x50)"
    by (rule status_of_run [OF m1 register_status [OF assms(2)]])
  show ?thesis
    unfolding st status_bit_iff
    by (intro exI conjI) (rule refl status_history; simp)+
qed

theorem dtc_status_history_witness:
  "\<exists>st. dtc_status_of 0x010101
      (dtc_run [TestResult 0x010101 True, OpCycle, TestResult 0x010101 False]
        (snd (register_dtc 0x010101 0 dtc_manager_new))) = Some st \<and>
    st AND kConfirmedDtc \<noteq> 0 \<and> st AND kTestFailed = 0"
proof -
  let ?es = "[TestResult 0x010101 True, OpCycle, TestResult 0x010101 False]"
  have "since (is_failure 0x010101) (is_clear 0x010101)
      ((([] @ [TestResult 0x010101 True]) @ [OpCycle]) @ [TestResult 0x010101 False])"
    "\<not> since (is_failure 0x010101) (\<lambda>e. is_result 0x010101 e \<or> is_clear 0x010101 e)
      ([TestResult 0x010101 True, OpCycle] @ [TestResult 0x010101 False])"
    unfolding since_snoc since_nil by (simp_all add: same_dtc_def)
  moreover have "register_dtc 0x010101 0 dtc_manager_new =
      (Some 0, snd (register_dtc 0x010101 0 dtc_manager_new))"
    by (simp add: register_dtc_def dtc_manager_new_def dtc_find_def kMaxDtcs_def)
  ultimately show ?thesis
    using dtc_status_history [OF dtc_inv_new, of "0x010101" 0 0 _ ?es] by fastforce
qed

text \<open>
  Whatever the application and the tester do, the table holds at most 64 codes, no code
  twice, every snapshot fits its array, and \<open>find\<close> returns exactly the entry of a code; a
  registration is refused only when the table is full or has the code already.
\<close>

theorem dtc_table_invariant:
  "dtc_inv (dtc_run es dtc_manager_new) \<and>
   (dtc_find code (dtc_run es dtc_manager_new) = Some i \<longleftrightarrow>
      i < length (m_dtcs (dtc_run es dtc_manager_new)) \<and>
      dtc_code (m_dtcs (dtc_run es dtc_manager_new) ! i) = code AND 0xFFFFFF) \<and>
   (fst (register_dtc code severity (dtc_run es dtc_manager_new)) = None \<longleftrightarrow>
      length (m_dtcs (dtc_run es dtc_manager_new)) = 64 \<or>
      code AND 0xFFFFFF \<in> dtc_code ` set (m_dtcs (dtc_run es dtc_manager_new)))"
proof -
  let ?m = "dtc_run es dtc_manager_new"
  have inv: "dtc_inv ?m" by (rule dtc_inv_run [OF dtc_inv_new])
  have "dtc_find code ?m = Some i"
    if "i < length (m_dtcs ?m)" "dtc_code (m_dtcs ?m ! i) = code AND 0xFFFFFF"
  proof (cases "dtc_find code ?m")
    case None
    moreover have "m_dtcs ?m ! i \<in> set (m_dtcs ?m)" using that by simp
    ultimately show ?thesis using that(2) by (auto simp: dtc_find_None image_iff)
  next
    case (Some j)
    with dtc_find_Some [OF Some] that inv show ?thesis
      by (auto simp: dtc_inv_def distinct_conv_nth) metis
  qed
  moreover have "length (m_dtcs ?m) \<le> 64" using inv by (simp add: dtc_inv_def kMaxDtcs_def)
  ultimately show ?thesis
    using inv by (auto simp: register_dtc_def dtc_find_None kMaxDtcs_def dest: dtc_find_Some)
qed

lemma count_fold:
  "fold (\<lambda>e cnt. if P e then cnt + 1 else cnt) es n = n + length (filter P es)"
  by (induction es arbitrary: n) auto

lemma for_each_all:
  assumes "\<And>e ctx. fst (callback e ctx)"
  shows "for_each_from msk callback es ctx =
    fold (\<lambda>e c. snd (callback e c)) (filter (status_selected msk) es) ctx"
proof (induction es arbitrary: ctx)
  case (Cons e es)
  with assms [of e ctx] show ?case by (auto split: prod.split)
qed simp

text \<open>
  The number the tester gets for a status mask is the number of codes the iteration with
  that mask visits: collecting the visited entries gives the matching entries of the table
  in order of registration, \<open>count_by_status\<close> many.
\<close>

theorem count_agrees_with_iteration:
  "for_each msk (\<lambda>e visited. (True, visited @ [e])) m [] =
     filter (status_selected msk) (m_dtcs m) \<and>
   count_by_status msk m =
     length (for_each msk (\<lambda>e visited. (True, visited @ [e])) m [])"
proof -
  have "fold (\<lambda>e c. c @ [e]) es acc = acc @ es" for es acc :: "dtc_entry list"
    by (induction es arbitrary: acc) simp_all
  then show ?thesis
    by (simp add: for_each_def for_each_all count_by_status_def count_fold)
qed

lemma get_freeze_frame_of_snapshot:
  assumes "dtc_inv m" "dtc_find code m = Some i" "bs \<noteq> []" "length out \<ge> max_len"
  shows "get_freeze_frame code rn (Some out) max_len (snd (set_snapshot code (Some bs) m)) =
    (min (min 64 (length bs)) max_len,
     Some (put 0 (take (min (min 64 (length bs)) max_len) bs) out))"
proof -
  let ?e = "m_dtcs m ! i"
  have e: "length (dtc_snapshot ?e) = 64" "i < length (m_dtcs m)"
    using assms(1,2) dtc_find_Some by (force simp: dtc_inv_def dtc_entry_ok_def)+
  let ?n = "min 64 (length bs)"
  let ?e' = "?e\<lparr>dtc_snapshot := put 0 (take ?n bs) (dtc_snapshot ?e), dtc_snapshot_len := ?n\<rparr>"
  have copy: "(if length bs < 64 then length bs else 64) = ?n" by simp
  have s: "snd (set_snapshot code (Some bs) m) = m\<lparr>m_dtcs := (m_dtcs m)[i := ?e']\<rparr>"
    using assms(2,3) copy by (simp add: set_snapshot_def Let_def e(1))
  then have f: "dtc_find code (m\<lparr>m_dtcs := (m_dtcs m)[i := ?e']\<rparr>) = Some i"
    using assms(2) by (simp add: dtc_find_set_at)
  have "take k (put 0 (take ?n bs) (dtc_snapshot ?e)) = take k bs" if "k \<le> ?n" for k
    using that by (simp add: put_def min_absorb1)
  then show ?thesis
    unfolding s get_freeze_frame_def f using assms(3,4) e by (auto simp: Let_def min_def)
qed

text \<open>
  C37. A snapshot stored for a registered code is read back by \<open>get_freeze_frame\<close>, cut to the
  64 bytes of its array and to the space the caller offers; a clear of the code removes it,
  and a clear of another group leaves it.
\<close>

theorem snapshot_roundtrip:
  assumes "dtc_inv m" "dtc_find code m = Some i" "bs \<noteq> []" "length out \<ge> max_len"
  shows "get_freeze_frame code rn (Some out) max_len (snd (set_snapshot code (Some bs) m)) =
      (min (min 64 (length bs)) max_len,
       Some (put 0 (take (min (min 64 (length bs)) max_len) bs) out)) \<and>
    get_freeze_frame code rn (Some out) max_len
        (clear_group g (snd (set_snapshot code (Some bs) m))) =
      (if group_matches g (code AND 0xFFFFFF) then (0, Some out)
       else get_freeze_frame code rn (Some out) max_len (snd (set_snapshot code (Some bs) m)))"
proof -
  let ?m = "snd (set_snapshot code (Some bs) m)"
  have f: "dtc_find code ?m = Some i"
    using assms(2) by (simp add: set_snapshot_def Let_def dtc_find_set_at)
  have f': "dtc_find code (clear_group g ?m) = Some i"
    using f by (simp add: clear_group_def dtc_find_map)
  have "i < length (m_dtcs ?m)" "dtc_code (m_dtcs ?m ! i) = code AND 0xFFFFFF"
    using dtc_find_Some [OF f] by simp_all
  then have "get_freeze_frame code rn (Some out) max_len (clear_group g ?m) =
      (if group_matches g (code AND 0xFFFFFF) then (0, Some out)
       else get_freeze_frame code rn (Some out) max_len ?m)"
    unfolding get_freeze_frame_def f f' by (simp add: clear_group_def Let_def)
  with get_freeze_frame_of_snapshot [OF assms] show ?thesis by simp
qed

theorem snapshot_roundtrip_witness:
  "get_freeze_frame 0x010101 1 (Some [0, 0, 0, 0]) 4
     (snd (set_snapshot 0x010101 (Some [7, 8, 9])
       (snd (register_dtc 0x010101 0 dtc_manager_new)))) = (3, Some [7, 8, 9, 0])"
proof -
  let ?m = "snd (register_dtc 0x010101 0 dtc_manager_new)"
  have "dtc_inv ?m" by (rule dtc_inv_register [OF dtc_inv_new])
  moreover have "dtc_find 0x010101 ?m = Some 0"
    by (simp add: register_dtc_def dtc_manager_new_def dtc_find_def kMaxDtcs_def fresh_dtc_def)
  ultimately show ?thesis
    using snapshot_roundtrip [of ?m "0x010101" 0 "[7, 8, 9]" 4 "[0, 0, 0, 0]" 1 0]
    by (simp add: put_def)
qed

end
