(* ===== verification/Services_Dtc.thy ===== *)
theory Services_Dtc
  imports Service_Base Dtc_Manager
begin

text \<open>
  ReadDtcInformation and ClearDiagnosticInformation
  (\<open>src/uds/services/read_dtc_information.cpp\<close>, \<open>clear_diagnostic_information.cpp\<close>): the
  services over the table of \<open>Dtc_Manager\<close>. The context the iteration hands to its callback
  is a record with the response buffer and the write position.
\<close>

section \<open>ReadDtcInformation\<close>

record dtc_write_ctx =
  dw_buf :: "u8 list"
  dw_pos :: nat
  dw_max :: nat
  dw_mask :: u8

definition write_dtc_cb :: "dtc_entry \<Rightarrow> dtc_write_ctx \<Rightarrow> bool \<times> dtc_write_ctx" where
  "write_dtc_cb e c =
     (if dw_pos c + 4 > dw_max c then (False, c)
      else (True, c\<lparr>dw_buf := put (dw_pos c)
                      [byte_at 2 (dtc_code e), byte_at 1 (dtc_code e), byte_at 0 (dtc_code e),
                       dtc_status e AND dw_mask c] (dw_buf c),
                    dw_pos := dw_pos c + 4\<rparr>))"

text \<open>Written for the snapshot sub-function, which \<open>handle\<close> does not offer.\<close>

definition write_dtc_snapshot_id_cb :: "dtc_entry \<Rightarrow> dtc_write_ctx \<Rightarrow> bool \<times> dtc_write_ctx" where
  "write_dtc_snapshot_id_cb e c =
     (if dtc_snapshot_len e = 0 then (True, c)
      else if dw_pos c + 5 > dw_max c then (False, c)
      else (True, c\<lparr>dw_buf := put (dw_pos c)
                      [byte_at 2 (dtc_code e), byte_at 1 (dtc_code e), byte_at 0 (dtc_code e),
                       dtc_status e, 0x01] (dw_buf c),
                    dw_pos := dw_pos c + 5\<rparr>))"

text \<open>Result: the buffer and the new position.\<close>

definition handle_report_by_status ::
    "u8 \<Rightarrow> u8 list \<Rightarrow> nat \<Rightarrow> nat \<Rightarrow> dtc_manager \<Rightarrow> u8 list \<times> nat" where
  "handle_report_by_status msk resp pos max_len m =
     (let ctx = for_each msk write_dtc_cb m
                  \<lparr>dw_buf = resp, dw_pos = pos, dw_max = max_len, dw_mask = msk\<rparr>
      in (dw_buf ctx, dw_pos ctx))"

definition handle_report_count :: "u8 \<Rightarrow> u8 list \<Rightarrow> nat \<Rightarrow> dtc_manager \<Rightarrow> u8 list \<times> nat" where
  "handle_report_count msk resp pos m =
     (let cnt = count_by_status msk m
      in (put pos [0xFF, 0x01, of_nat (cnt div 256), of_nat (cnt mod 256)] resp, pos + 4))"

definition read_dtc_handle :: "u8 list \<Rightarrow> u8 list \<Rightarrow> dtc_manager \<Rightarrow> reply \<times> dtc_manager" where
  "read_dtc_handle req resp m =
     (if length req < 2 then
        (nrc_reply ReadDtcInformation IncorrectMessageLengthOrInvalidFormat resp, m)
      else
        let sub = req ! 1;
            max_len = length resp;
            resp = put 0 [sid_byte ReadDtcInformation + 0x40, sub] resp
        in if sub = 0x01 then
             (if length req < 3 then
                (nrc_reply ReadDtcInformation IncorrectMessageLengthOrInvalidFormat resp, m)
              else (case handle_report_count (req ! 2) resp 2 m of
                      (resp, pos) \<Rightarrow> (\<lparr>r_send = True, r_buf = resp, r_len = pos\<rparr>, m)))
           else if sub = 0x02 \<or> sub = 0x0A then
             (if length req < 3 then
                (nrc_reply ReadDtcInformation IncorrectMessageLengthOrInvalidFormat resp, m)
              else (case handle_report_by_status (req ! 2) (put 2 [0xFF] resp) 3 max_len m of
                      (resp, pos) \<Rightarrow> (\<lparr>r_send = True, r_buf = resp, r_len = pos\<rparr>, m)))
           else (nrc_reply ReadDtcInformation SubFunctionNotSupported resp, m))"

section \<open>ClearDiagnosticInformation\<close>

definition clear_dtc_handle :: "u8 list \<Rightarrow> u8 list \<Rightarrow> dtc_manager \<Rightarrow> reply \<times> dtc_manager" where
  "clear_dtc_handle req resp m =
     (if length req < 4 then
        (nrc_reply ClearDiagnosticInformation IncorrectMessageLengthOrInvalidFormat resp, m)
      else
        let group = be24 (req ! 1) (req ! 2) (req ! 3);
            m = (if group = 0xFFFFFF then clear_all m else clear_group group m)
        in (pos_reply True ClearDiagnosticInformation [] resp, m))"

section \<open>The contents of a report\<close>

definition dtc_record :: "u8 \<Rightarrow> dtc_entry \<Rightarrow> u8 list" where
  "dtc_record msk e =
     [byte_at 2 (dtc_code e), byte_at 1 (dtc_code e), byte_at 0 (dtc_code e), dtc_status e AND msk]"

lemma length_dtc_records: "length (concat (map (dtc_record msk) es)) = 4 * length es"
  by (induction es) (simp_all add: dtc_record_def)

lemma length_dtc_record [simp]: "length (dtc_record msk e) = 4"
  by (simp add: dtc_record_def)

lemma write_dtc_cb_step:
  "write_dtc_cb e \<lparr>dw_buf = buf, dw_pos = pos, dw_max = max_len, dw_mask = msk\<rparr> =
    (if pos + 4 > max_len
     then (False, \<lparr>dw_buf = buf, dw_pos = pos, dw_max = max_len, dw_mask = msk\<rparr>)
     else (True, \<lparr>dw_buf = put pos (dtc_record msk e) buf, dw_pos = pos + 4, dw_max = max_len,
                   dw_mask = msk\<rparr>))"
  by (simp add: write_dtc_cb_def dtc_record_def)

lemma write_dtcs:
  assumes "length buf = max_len" "pos \<le> max_len"
  shows "for_each_from msk write_dtc_cb es
      \<lparr>dw_buf = buf, dw_pos = pos, dw_max = max_len, dw_mask = msk\<rparr> =
    (let rs = concat (map (dtc_record msk)
                (take ((max_len - pos) div 4) (filter (status_selected msk) es)))
     in \<lparr>dw_buf = put pos rs buf, dw_pos = pos + length rs, dw_max = max_len, dw_mask = msk\<rparr>)"
  using assms
proof (induction es arbitrary: buf pos)
  case Nil
  then show ?case by simp
next
  case (Cons e es)
  show ?case
  proof (cases "status_selected msk e")
    case False
    with Cons show ?thesis by simp
  next
    case sel: True
    show ?thesis
    proof (cases "pos + 4 > max_len")
      case True
      then have "(max_len - pos) div 4 = 0" by simp
      with sel True show ?thesis by (simp add: write_dtc_cb_step Let_def)
    next
      case False
      then have "(max_len - pos) div 4 = Suc ((max_len - (pos + 4)) div 4)" by simp
      moreover have "length (concat (map (dtc_record msk)
          (take ((max_len - (pos + 4)) div 4) (filter (status_selected msk) es)))) \<le> max_len - (pos + 4)"
        unfolding length_dtc_records by simp
      ultimately show ?thesis
        using sel False Cons.prems
        by (simp add: write_dtc_cb_step Let_def Cons.IH length_put put_put_at)
    qed
  qed
qed


lemma report_reply:
  assumes "3 \<le> length req" "req ! 1 = 0x02 \<or> req ! 1 = 0x0A" "3 \<le> length resp"
  shows "read_dtc_handle req resp m =
    (let bs = [0x59, req ! 1, 0xFF] @ concat (map (dtc_record (req ! 2))
                (take ((length resp - 3) div 4) (filter (status_selected (req ! 2)) (m_dtcs m))))
     in (\<lparr>r_send = True, r_buf = put 0 bs resp, r_len = length bs\<rparr>, m))"
proof -
  define sub where "sub = req ! 1"
  have sub: "sub = 0x02 \<or> sub = 0x0A" "sub \<noteq> 0x01" using assms(2) by (auto simp: sub_def)
  have "length (concat (map (dtc_record (req ! 2)) (take ((length resp - 3) div 4)
      (filter (status_selected (req ! 2)) (m_dtcs m))))) \<le> length resp - 3"
    unfolding length_dtc_records by simp
  then show ?thesis
    using assms(1,3) sub unfolding read_dtc_handle_def Let_def sub_def [symmetric]
    by (simp add: handle_report_by_status_def for_each_def write_dtcs Let_def length_put put_put_at)
qed

lemma count_reply:
  assumes "3 \<le> length req" "req ! 1 = 0x01" "6 \<le> length resp"
  shows "read_dtc_handle req resp m =
    (let n = count_by_status (req ! 2) m;
         bs = [0x59, 0x01, 0xFF, 0x01, of_nat (n div 256), of_nat (n mod 256)]
     in (\<lparr>r_send = True, r_buf = put 0 bs resp, r_len = 6\<rparr>, m))"
  using assms by (simp add: read_dtc_handle_def handle_report_count_def Let_def put_put_at)

lemma count_selected: "count_by_status msk m = length (filter (status_selected msk) (m_dtcs m))"
  by (simp add: count_by_status_def count_fold)

lemma read_dtc_wf:
  assumes "length resp = kMaxResp"
  shows "reply_wf kMaxResp ReadDtcInformation (fst (read_dtc_handle req resp m))"
proof -
  consider "length req < 3" | "3 \<le> length req" "req ! 1 = 0x02 \<or> req ! 1 = 0x0A"
    | "3 \<le> length req" "req ! 1 = 0x01"
    | "3 \<le> length req" "req ! 1 \<noteq> 0x01" "req ! 1 \<noteq> 0x02" "req ! 1 \<noteq> 0x0A" by fastforce
  then show ?thesis
  proof cases
    case 2
    let ?rs = "concat (map (dtc_record (req ! 2)) (take ((length resp - 3) div 4)
        (filter (status_selected (req ! 2)) (m_dtcs m))))"
    have "length ?rs \<le> length resp - 3" unfolding length_dtc_records by simp
    then show ?thesis
      using assms report_reply [OF 2, of resp m]
      by (auto simp: kMaxResp_def Let_def length_put put_def intro!: reply_wf_raw)
  next
    case 3
    then show ?thesis
      using assms count_reply [OF 3, of resp m]
      by (auto simp: kMaxResp_def Let_def length_put put_def intro!: reply_wf_raw)
  qed (use assms in \<open>auto simp: read_dtc_handle_def Let_def kMaxResp_def length_put\<close>)
qed

interpretation read_dtc: uds_service ReadDtcInformation dtc_inv read_dtc_handle
proof unfold_locales
  show "dtc_inv (snd (read_dtc_handle req resp m))" if "dtc_inv m" for req resp m
    using that
    by (auto simp: read_dtc_handle_def Let_def split: prod.split)
qed (rule read_dtc_wf)

interpretation clear_dtc: uds_service ClearDiagnosticInformation dtc_inv clear_dtc_handle
  by unfold_locales
    (use dtc_inv_apply [of _ ClearAll] dtc_inv_apply [of _ "ClearGroup _"] in
      \<open>auto simp: clear_dtc_handle_def Let_def kMaxResp_def\<close>)

lemma cleared_status: "kTestNotCompletedSinceLastClear OR kTestNotCompletedThisOpCycle = 0x50"
  by (simp add: status_bits)

lemma status_of_clear_all: "dtc_status_of c (clear_all m) = map_option (\<lambda>_. 0x50) (dtc_status_of c m)"
  by (simp add: clear_all_def cleared_status status_of_map [where g = "\<lambda>_. 0x50"])

lemma status_of_clear_group:
  "dtc_status_of c (clear_group g m) =
    (if group_matches g (c AND 0xFFFFFF) then map_option (\<lambda>_. 0x50) (dtc_status_of c m)
     else dtc_status_of c m)"
  using status_of_map [of _ c "\<lambda>_. 0x50" m] status_of_map [of _ c "\<lambda>st. st" m]
  by (auto simp: clear_group_def cleared_status option.map_ident intro: trans)

lemma be24_mask: "be24 a b c AND 0xFFFFFF = be24 a b c"
proof -
  have m: "(0xFFFFFF :: u32) = mask 24" by (simp add: mask_eq_exp_minus_1)
  show ?thesis
    unfolding m by (rule bit_word_eqI) (auto simp: be24_def bit_simps dest: bit_imp_le_length)
qed

section \<open>Properties\<close>

text \<open>
  C26. ReadDtcInformation reports what it counts: in a well-formed table, the number announced
  for a status mask is the number of records the report with that mask holds, none is cut
  off by the buffer, and the records are the selected codes in order of registration, three
  code bytes and the masked status each. Neither request changes the table.
\<close>

theorem report_matches_count:
  assumes "dtc_inv m" "length resp = kMaxResp"
  shows "let sel = filter (status_selected msk) (m_dtcs m);
      (r1, m1) = read_dtc_handle [0x19, 0x01, msk] resp m;
      (r2, m2) = read_dtc_handle [0x19, 0x02, msk] resp m
    in reply_bytes r1 = [0x59, 0x01, 0xFF, 0x01, 0, of_nat (length sel)] \<and>
       reply_bytes r2 = [0x59, 0x02, 0xFF] @ concat (map (dtc_record msk) sel) \<and>
       length (reply_bytes r2) = 3 + 4 * length sel \<and> length sel \<le> 64 \<and>
       r_send r1 \<and> r_send r2 \<and> m1 = m \<and> m2 = m"
proof -
  let ?sel = "filter (status_selected msk) (m_dtcs m)"
  have n: "length ?sel \<le> 64"
    using assms(1) order_trans [OF length_filter_le]
    by (auto simp: dtc_inv_def kMaxDtcs_def)
  then have "take ((length resp - 3) div 4) ?sel = ?sel" using assms(2) by (simp add: kMaxResp_def)
  then show ?thesis
    using n assms(2) count_reply [of "[0x19, 0x01, msk]" resp m]
      report_reply [of "[0x19, 0x02, msk]" resp m]
    by (simp add: count_selected reply_bytes_def Let_def put_simps kMaxResp_def length_dtc_records
        del: filter.simps)
qed

text \<open>Two codes, one of them with a failed test.\<close>

abbreviation demo_dtcs :: dtc_manager where
  "demo_dtcs \<equiv> dtc_run [RegisterDtc 0x010101 0, RegisterDtc 0x030303 0x40, TestResult 0x030303 True]
     dtc_manager_new"

theorem report_matches_count_witness:
  "reply_bytes (fst (read_dtc_handle [0x19, 0x02, 0x01] (replicate 4096 0) demo_dtcs)) =
     [0x59, 0x02, 0xFF, 0x03, 0x03, 0x03, 0x01]"
proof -
  have i: "dtc_inv demo_dtcs" by (rule dtc_inv_run [OF dtc_inv_new])
  have "filter (status_selected 0x01) (m_dtcs demo_dtcs) \<noteq> [] \<and>
      concat (map (dtc_record 0x01) (filter (status_selected 0x01) (m_dtcs demo_dtcs))) = [3, 3, 3, 1]"
    by code_simp
  with report_matches_count [OF i, of "replicate 4096 0" "0x01"] show ?thesis
    by (simp add: kMaxResp_def Let_def split_def)
qed

text \<open>
  C27. ClearDiagnosticInformation resets exactly the codes whose bits include all bits of the
  transmitted group, and with the group FFFFFF all of them; every other code keeps its status.
  The group is thus read as a bit mask: naming a single code also clears every code that has
  its bits, and the group 000000 clears the whole table.
\<close>

theorem clear_by_group_bits:
  "let group = be24 g1 g2 g3; (r, m') = clear_dtc_handle [0x14, g1, g2, g3] resp m in
     reply_bytes r = [0x54] \<and> r_send r \<and>
     dtc_status_of c m' =
       (if group = 0xFFFFFF \<or> (c AND 0xFFFFFF) AND group = group
        then map_option (\<lambda>_. 0x50) (dtc_status_of c m) else dtc_status_of c m)"
  unfolding clear_dtc_handle_def Let_def
  by (auto simp: status_of_clear_all status_of_clear_group group_matches_def be24_mask)


text \<open>The code 030303 is cleared by a request that names 010101.\<close>

lemma clear_of_another_code:
  "dtc_status_of 0x030303 (snd (clear_dtc_handle [0x14, 0x01, 0x01, 0x01] resp demo_dtcs)) = Some 0x50"
  "dtc_status_of 0x030303 demo_dtcs = Some 0x2F"
proof -
  show d: "dtc_status_of 0x030303 demo_dtcs = Some 0x2F" by code_simp
  have b: "be24 1 1 1 = (0x010101 :: u32)" by (simp add: be24_def)
  show "dtc_status_of 0x030303 (snd (clear_dtc_handle [0x14, 0x01, 0x01, 0x01] resp demo_dtcs)) = Some 0x50"
    using d by (simp add: clear_dtc_handle_def Let_def status_of_clear_group b group_matches_def)
qed

end
