(* ===== verification/Seed_Key.thy ===== *)
theory Seed_Key
  imports Uds_Prelude
begin

text \<open>
  The seed/key algorithms of \<open>src/uds/security/seed_key.cpp\<close>: the xorshift seed generator and
  the XOR key check of \<open>XorAlgorithm\<close>, and the Galois LFSR \<open>LfsrGenerator\<close>. The function-local
  static of \<open>generate_seed\<close> is an argument and a result. A seed or key with its length is the
  list of its bytes.
\<close>

section \<open>XorAlgorithm\<close>

definition xorshift32 :: "u32 \<Rightarrow> u32" where
  "xorshift32 lfsr =
     (let lfsr = lfsr XOR push_bit 13 lfsr;
          lfsr = lfsr XOR drop_bit 17 lfsr
      in lfsr XOR push_bit 5 lfsr)"

definition lfsr_static_init :: u32 where "lfsr_static_init = 0xDEADBEEF"

text \<open>Result: the number of bytes, the buffer, the static variable.\<close>

definition xor_generate_seed :: "u8 list \<Rightarrow> nat \<Rightarrow> u32 \<Rightarrow> nat \<times> u8 list \<times> u32" where
  "xor_generate_seed buf max_len lfsr =
     (if max_len < 4 then (0, buf, lfsr)
      else
        let lfsr = xorshift32 lfsr in
        (4, put 0 [byte_at 3 lfsr, byte_at 2 lfsr, byte_at 1 lfsr, byte_at 0 lfsr] buf, lfsr))"

text \<open>\<open>self\<close> is the mask of the algorithm object, \<open>None\<close> when the context pointer is null.\<close>

definition xor_verify_key :: "u32 option \<Rightarrow> u8 list \<Rightarrow> u8 list \<Rightarrow> bool" where
  "xor_verify_key self seed key =
     (case self of
        None \<Rightarrow> False
      | Some secret_mask \<Rightarrow>
          if length seed \<noteq> 4 \<or> length key \<noteq> 4 then False
          else be32 (seed ! 0) (seed ! 1) (seed ! 2) (seed ! 3) XOR secret_mask =
               be32 (key ! 0) (key ! 1) (key ! 2) (key ! 3))"

section \<open>LfsrGenerator\<close>

definition lfsr_new :: "u32 \<Rightarrow> u32" where
  "lfsr_new seed = (if seed \<noteq> 0 then seed else 1)"

definition lfsr_next :: "u32 \<Rightarrow> u32" where
  "lfsr_next m_state =
     (let lsb = m_state AND 1;
          st = drop_bit 1 m_state
      in if lsb \<noteq> 0 then st XOR 0xB4BCD35C else st)"

text \<open>The loop of \<open>fill\<close>: at most four bytes of a word per round, from index \<open>i\<close> on.\<close>

function lfsr_fill_from :: "nat \<Rightarrow> nat \<Rightarrow> u8 list \<Rightarrow> u32 \<Rightarrow> u8 list \<times> u32" where
  "lfsr_fill_from i len buf st =
     (if i < len then
        let word = lfsr_next st;
            buf = put i [byte_at 3 word] buf; i = i + 1;
            (buf, i) = (if i < len then (put i [byte_at 2 word] buf, i + 1) else (buf, i));
            (buf, i) = (if i < len then (put i [byte_at 1 word] buf, i + 1) else (buf, i));
            (buf, i) = (if i < len then (put i [byte_at 0 word] buf, i + 1) else (buf, i))
        in lfsr_fill_from i len buf word
      else (buf, st))"
  by auto
termination
  by (relation "measure (\<lambda>(i, len, buf, st). len - i)") (auto split: if_splits)

declare lfsr_fill_from.simps [simp del]

definition lfsr_fill :: "u8 list \<Rightarrow> nat \<Rightarrow> u32 \<Rightarrow> u8 list \<times> u32" where
  "lfsr_fill buf len st = lfsr_fill_from 0 len buf st"

section \<open>The generators never get stuck at zero\<close>

lemma xor_shift_up_0: "0 < k \<Longrightarrow> x XOR push_bit k x = 0 \<longleftrightarrow> x = 0" for x :: u32
proof
  assume k: "0 < k" and eq: "x XOR push_bit k x = 0"
  have "\<not> bit x n" for n
  proof (induction n rule: less_induct)
    case (less n)
    have "bit (x XOR push_bit k x) n \<longleftrightarrow> bit (0 :: u32) n" by (simp only: eq)
    then have "bit x n \<longleftrightarrow> n < 32 \<and> k \<le> n \<and> bit x (n - k)"
      using bit_imp_le_length [of x n] by (auto simp: bit_simps)
    with less [of "n - k"] k show ?case by (cases n) auto
  qed
  then show "x = 0" by (simp add: bit_eq_iff)
qed simp

lemma xor_shift_down_0: "0 < k \<Longrightarrow> x XOR drop_bit k x = 0 \<longleftrightarrow> x = 0" for x :: u32
proof
  assume k: "0 < k" and eq: "x XOR drop_bit k x = 0"
  have "\<not> bit x n" for n
  proof (induction "32 - n" arbitrary: n rule: less_induct)
    case less
    have "bit (x XOR drop_bit k x) n \<longleftrightarrow> bit (0 :: u32) n" by (simp only: eq)
    then have "bit x n \<longleftrightarrow> bit x (k + n)" by (simp add: bit_simps)
    moreover have "32 - (k + n) < 32 - n" if "n < 32" using that k by linarith
    ultimately show ?case using less [of "k + n"] bit_imp_le_length [of x n] by auto
  qed
  then show "x = 0" by (simp add: bit_eq_iff)
qed simp

lemma xorshift32_eq_0: "xorshift32 x = 0 \<longleftrightarrow> x = 0"
  by (simp only: xorshift32_def Let_def xor_shift_up_0 xor_shift_down_0 zero_less_numeral)

lemma xor_push_distrib: "push_bit n (x XOR y) = push_bit n x XOR push_bit n y" for x y :: u32
  by (rule bit_word_eqI) (auto simp: bit_simps)

lemma xor_drop_distrib: "drop_bit n (x XOR y) = drop_bit n x XOR drop_bit n y" for x y :: u32
  by (rule bit_word_eqI) (auto simp: bit_simps)

lemma xorshift32_xor: "xorshift32 (x XOR y) = xorshift32 x XOR xorshift32 y"
  by (simp only: xorshift32_def Let_def xor_push_distrib xor_drop_distrib xor.assoc
      xor.commute xor.left_commute)

lemma xor_eq_0_iff_eq: "a XOR b = 0 \<longleftrightarrow> a = b" for a b :: "'a::len word"
  by (metis xor.assoc xor.left_neutral xor_self_eq)

lemma inj_xorshift32: "inj xorshift32"
  by (rule injI) (metis xor_eq_0_iff_eq xorshift32_eq_0 xorshift32_xor)

lemma lsb_bit: "x AND 1 \<noteq> 0 \<longleftrightarrow> bit x 0" for x :: u32
  using and_exp_eq_0_iff_not_bit [of x 0] by simp

lemma lfsr_next_top: "bit (lfsr_next x) 31 \<longleftrightarrow> bit x 0"
  using bit_imp_le_length [of x 32] by (auto simp: lfsr_next_def lsb_bit Let_def bit_simps)

lemma drop_1_eq: "drop_bit 1 x = drop_bit 1 y \<Longrightarrow> bit x 0 = bit y 0 \<Longrightarrow> x = y" for x y :: u32
proof (rule bit_word_eqI)
  fix n
  assume d: "drop_bit 1 x = drop_bit 1 y" and z: "bit x 0 = bit y 0"
  show "bit x n \<longleftrightarrow> bit y n"
  proof (cases n)
    case (Suc k)
    have "bit (drop_bit 1 x) k \<longleftrightarrow> bit (drop_bit 1 y) k" by (simp only: d)
    with Suc show ?thesis by (simp only: bit_drop_bit_eq comp_apply) simp
  qed (use z in simp)
qed

lemma inj_lfsr_next: "inj lfsr_next"
proof (rule injI)
  fix x y
  assume eq: "lfsr_next x = lfsr_next y"
  then have z: "bit x 0 = bit y 0" using lfsr_next_top by metis
  with eq have "drop_bit 1 x = drop_bit 1 y"
    unfolding lfsr_next_def lsb_bit Let_def
    by (auto simp only: if_True if_False xor_cancel_right)
  then show "x = y" using z by (rule drop_1_eq)
qed

lemma lfsr_next_eq_0: "lfsr_next x = 0 \<longleftrightarrow> x = 0"
proof -
  have "lfsr_next 0 = 0" by (simp add: lfsr_next_def)
  then show ?thesis using injD [OF inj_lfsr_next, of x 0] by auto
qed

lemma orbit_avoids_zero: "(\<And>x. f x = 0 \<longleftrightarrow> x = 0) \<Longrightarrow> (f ^^ n) x = 0 \<longleftrightarrow> x = 0" for f :: "u32 \<Rightarrow> u32"
  by (induction n) simp_all

lemma orbit_returns:
  assumes "inj f" "(f ^^ m) x = (f ^^ n) x" "m \<le> n"
  shows "(f ^^ (n - m)) x = x"
proof -
  have "(f ^^ m) ((f ^^ (n - m)) x) = (f ^^ m) x"
    using assms(2,3) by (metis comp_apply funpow_add le_add_diff_inverse)
  then show ?thesis using inj_fn [OF assms(1), of m] by (simp add: inj_eq)
qed

text \<open>
  No generator is ever stuck: the seed generator and the LFSR never produce the word 0, and
  no two states have the same successor, so each of them runs through a cycle and comes
  back to its start value before any other value repeats.
\<close>

theorem generators_never_stuck:
  "(xorshift32 ^^ n) lfsr_static_init \<noteq> 0 \<and> (lfsr_next ^^ n) (lfsr_new seed) \<noteq> 0 \<and>
   ((xorshift32 ^^ k) lfsr_static_init = (xorshift32 ^^ (k + d)) lfsr_static_init \<longleftrightarrow>
      (xorshift32 ^^ d) lfsr_static_init = lfsr_static_init) \<and>
   ((lfsr_next ^^ k) (lfsr_new seed) = (lfsr_next ^^ (k + d)) (lfsr_new seed) \<longleftrightarrow>
      (lfsr_next ^^ d) (lfsr_new seed) = lfsr_new seed)"
proof -
  have "(f ^^ k) x = (f ^^ (k + d)) x \<longleftrightarrow> (f ^^ d) x = x"
    if "inj f" for f :: "u32 \<Rightarrow> u32" and x
    using orbit_returns [OF that, of k x "k + d"] by (auto simp: funpow_add)
  then show ?thesis
    using inj_xorshift32 inj_lfsr_next
    by (simp add: orbit_avoids_zero xorshift32_eq_0 lfsr_next_eq_0 lfsr_static_init_def
        lfsr_new_def)
qed

section \<open>The key of a seed\<close>

definition word_bytes :: "u32 \<Rightarrow> u8 list" where
  "word_bytes x = [byte_at 3 x, byte_at 2 x, byte_at 1 x, byte_at 0 x]"

definition bytes_word :: "u8 list \<Rightarrow> u32" where
  "bytes_word bs = be32 (bs ! 0) (bs ! 1) (bs ! 2) (bs ! 3)"

lemma length_word_bytes [simp]: "length (word_bytes x) = 4"
  by (simp add: word_bytes_def)

lemma bytes_word_bytes [simp]: "bytes_word (word_bytes x) = x"
  by (simp add: bytes_word_def word_bytes_def byte_simps [simplified])

lemma list_of_four: "length bs = 4 \<Longrightarrow> bs = [bs ! 0, bs ! 1, bs ! 2, bs ! 3]"
  by (rule nth_equalityI) (auto simp: less_Suc_eq numeral_eq_Suc)

lemma word_bytes_word: "length bs = 4 \<Longrightarrow> word_bytes (bytes_word bs) = bs"
  using list_of_four [of bs] by (simp add: bytes_word_def word_bytes_def byte_simps [simplified])

text \<open>The key a tester that knows the mask computes for a seed.\<close>

definition xor_key :: "u32 \<Rightarrow> u8 list \<Rightarrow> u8 list" where
  "xor_key secret_mask seed = word_bytes (bytes_word seed XOR secret_mask)"

lemma xor_verify_key_iff:
  "xor_verify_key (Some secret_mask) seed key \<longleftrightarrow>
     length seed = 4 \<and> key = xor_key secret_mask seed"
  unfolding xor_verify_key_def xor_key_def bytes_word_def [symmetric]
  by (auto simp: word_bytes_word)

text \<open>
  A seed has exactly one key, the seed XOR the secret mask: the key check accepts it and
  nothing else, in particular no key of another length and none at all without an algorithm
  object. It also shows the weakness of the scheme: one observed seed with its key gives the
  mask, and with it the key of every seed.
\<close>

theorem xor_scheme_exact:
  "(xor_verify_key (Some secret_mask) (word_bytes s) key \<longleftrightarrow> key = xor_key secret_mask (word_bytes s)) \<and>
   \<not> xor_verify_key None seed key' \<and>
   xor_verify_key (Some secret_mask) (word_bytes t)
     (xor_key (bytes_word (word_bytes s) XOR bytes_word (xor_key secret_mask (word_bytes s)))
        (word_bytes t))"
proof -
  have "s XOR (s XOR secret_mask) = secret_mask" by (simp flip: xor.assoc)
  then show ?thesis
    by (simp add: xor_verify_key_iff) (simp add: xor_key_def xor_verify_key_def xor.assoc)
qed

section \<open>Filling a buffer\<close>

text \<open>The byte stream of the generator: its words, most significant byte first.\<close>

fun lfsr_stream :: "nat \<Rightarrow> u32 \<Rightarrow> u8 list" where
  "lfsr_stream 0 st = []"
| "lfsr_stream (Suc n) st = word_bytes (lfsr_next st) @ lfsr_stream n (lfsr_next st)"

lemma length_lfsr_stream [simp]: "length (lfsr_stream n st) = 4 * n"
  by (induction n arbitrary: st) simp_all

lemma lfsr_stream_take: "m \<le> n \<Longrightarrow> take (4 * m) (lfsr_stream n st) = lfsr_stream m st"
proof (induction m arbitrary: n st)
  case (Suc m)
  then obtain k where "n = Suc k" "m \<le> k" by (cases n) auto
  with Suc.IH [of k "lfsr_next st"] show ?case by simp
qed simp

text \<open>One round of the loop writes the next word, or what is left room for of it.\<close>

lemma lfsr_fill_round:
  assumes "i < len" "len \<le> length buf"
  shows "lfsr_fill_from i len buf st =
    lfsr_fill_from (min (i + 4) len) len
      (put i (take (len - i) (word_bytes (lfsr_next st))) buf) (lfsr_next st)"
proof -
  consider "len = i + 1" | "len = i + 2" | "len = i + 3" | "i + 4 \<le> len"
    using assms(1) by linarith
  then show ?thesis
    using assms
    by cases (subst lfsr_fill_from.simps,
      simp add: word_bytes_def Let_def put_put_at min_def numeral_eq_Suc)+
qed

lemma lfsr_fill_from_stream:
  assumes "i \<le> len" "len \<le> length buf"
  shows "lfsr_fill_from i len buf st =
    (put i (take (len - i) (lfsr_stream ((len - i + 3) div 4) st)) buf,
     (lfsr_next ^^ ((len - i + 3) div 4)) st)"
  using assms
proof (induction "len - i" arbitrary: i buf st rule: less_induct)
  case less
  show ?case
  proof (cases "i < len")
    case False
    with less.prems show ?thesis by (subst lfsr_fill_from.simps) simp
  next
    case True
    define n where "n = (len - i + 3) div 4 - 1"
    have n: "(len - i + 3) div 4 = Suc n" using True by (simp add: n_def)
    have k: "(len - min (i + 4) len + 3) div 4 = n" using True by (auto simp: n_def min_def)
    let ?w = "word_bytes (lfsr_next st)"
    let ?rest = "take (len - min (i + 4) len) (lfsr_stream n (lfsr_next st))"
    have IH: "lfsr_fill_from (min (i + 4) len) len (put i (take (len - i) ?w) buf) (lfsr_next st) =
        (put (min (i + 4) len) ?rest (put i (take (len - i) ?w) buf),
         (lfsr_next ^^ n) (lfsr_next st))"
      using less.hyps [of "min (i + 4) len" "put i (take (len - i) ?w) buf" "lfsr_next st"]
        less.prems True unfolding k by (simp add: length_put)
    have "put (min (i + 4) len) ?rest (put i (take (len - i) ?w) buf) =
        put i (take (len - i) (?w @ lfsr_stream n (lfsr_next st))) buf"
    proof (cases "i + 4 \<le> len")
      case True
      moreover have "i + 4 + length ?rest \<le> length buf" using True less.prems by simp
      ultimately show ?thesis
        using put_put_append [of i ?w ?rest buf] by (simp del: length_take)
    next
      case False
      then show ?thesis by (simp add: min_def)
    qed
    with IH True less.prems show ?thesis
      unfolding n by (simp add: lfsr_fill_round funpow_swap1)
  qed
qed

text \<open>
  \<open>fill\<close> writes exactly the requested number of bytes, the words of the generator most
  significant byte first, the last one cut, and leaves the rest of the buffer alone; the
  generator has advanced by one word for every four bytes begun.
\<close>

theorem lfsr_fill_stream:
  assumes "len \<le> length buf"
  shows "lfsr_fill buf len st =
    (take len (lfsr_stream ((len + 3) div 4) st) @ drop len buf,
     (lfsr_next ^^ ((len + 3) div 4)) st)"
  using lfsr_fill_from_stream [of 0 len buf st] assms by (simp add: lfsr_fill_def put_def)

theorem lfsr_fill_stream_witness:
  "fst (lfsr_fill [0, 0, 0, 0, 0, 0, 9] 6 (lfsr_new 0)) = take 6 (lfsr_stream 2 1) @ [9]"
  using lfsr_fill_stream [of 6 "[0, 0, 0, 0, 0, 0, 9]" "lfsr_new 0"] by (simp add: lfsr_new_def)

end
