(* ===== verification/Security_Access.thy ===== *)
theory Security_Access
  imports Service_Base Registry Seed_Key
begin

text \<open>
  SecurityAccess (\<open>src/uds/services/security_access.cpp\<close>): the table of security levels, the
  exchange of seed and key, and the lockout after failed attempts. The callbacks of a level
  are functions on the environment \<open>'w\<close>: \<open>generate_seed\<close> gets the seed array and its size and
  returns the number of bytes and the array, \<open>verify_key\<close> gets the seed array, the number of
  seed bytes and the key from the request. The code does not check the two pointers, and
  neither does the model; a generator that returns more than the 16 bytes of the array would
  make the code read past it and is excluded where replies are considered. The array
  \<open>m_levels\<close> is the list of its first \<open>m_level_count\<close> elements.
\<close>

section \<open>Levels\<close>

definition kMaxSecurityLevels :: nat where "kMaxSecurityLevels = 8"
definition kMaxAttempts :: u8 where "kMaxAttempts = 3"
definition kDelayAfterFail :: u32 where "kDelayAfterFail = 10000"

record 'w security_level =
  sl_level :: u8
  sl_seed_len :: u8
  generate_seed :: "u8 list \<Rightarrow> nat \<Rightarrow> 'w \<Rightarrow> nat \<times> u8 list \<times> 'w"
  verify_key :: "u8 list \<Rightarrow> nat \<Rightarrow> u8 list \<Rightarrow> 'w \<Rightarrow> bool \<times> 'w"
  sl_required_session :: SessionType

record 'w level_state =
  ls_cfg :: "'w security_level"
  ls_seed :: "u8 list"
  ls_seed_len :: nat
  seed_sent :: bool
  unlocked :: bool
  fail_count :: u8
  locked_until :: u32

record 'w security =
  sa_levels :: "'w level_state list"
  sa_active_level :: u8
  sa_current_tick :: u32

definition security_new :: "'w security" where
  "security_new = \<lparr>sa_levels = [], sa_active_level = 0, sa_current_tick = 0\<rparr>"

text \<open>The constructor cleared the array, so the seed of a new level is zero.\<close>

definition fresh_level :: "'w security_level \<Rightarrow> 'w level_state" where
  "fresh_level level =
     \<lparr>ls_cfg = level, ls_seed = replicate 16 0, ls_seed_len = 0, seed_sent = False,
      unlocked = False, fail_count = 0, locked_until = 0\<rparr>"

definition register_level :: "'w security_level \<Rightarrow> 'w security \<Rightarrow> bool \<times> 'w security" where
  "register_level level s =
     (if length (sa_levels s) \<ge> kMaxSecurityLevels then (False, s)
      else if sl_level level AND 1 = 0 then (False, s)
      else (True, s\<lparr>sa_levels := sa_levels s @ [fresh_level level]\<rparr>))"

definition level_of :: "'w level_state \<Rightarrow> u8" where
  "level_of l = sl_level (ls_cfg l)"

definition seed_sub :: "u8 \<Rightarrow> u8" where
  "seed_sub level = (if level AND 1 \<noteq> 0 then level else level - 1)"

definition find_level :: "u8 \<Rightarrow> 'w security \<Rightarrow> nat option" where
  "find_level level s = find_index (\<lambda>l. level_of l = seed_sub level) (sa_levels s)"

definition is_unlocked :: "u8 \<Rightarrow> 'w security \<Rightarrow> bool" where
  "is_unlocked level s =
     (case find (\<lambda>l. level_of l = level) (sa_levels s) of None \<Rightarrow> False | Some l \<Rightarrow> unlocked l)"

definition level_update :: "u32 \<Rightarrow> 'w level_state \<Rightarrow> 'w level_state" where
  "level_update tick_ms l =
     (if locked_until l > 0 \<and> tick_ms \<ge> locked_until l
      then l\<lparr>locked_until := 0, fail_count := 0\<rparr> else l)"

definition security_update :: "u32 \<Rightarrow> 'w security \<Rightarrow> 'w security" where
  "security_update tick_ms s =
     s\<lparr>sa_current_tick := tick_ms, sa_levels := map (level_update tick_ms) (sa_levels s)\<rparr>"

section \<open>The handler\<close>

text \<open>\<open>*lvl = l\<close> for the pointer \<open>find_level\<close> returned.\<close>

definition set_level :: "nat \<Rightarrow> 'w level_state \<Rightarrow> 'w security \<Rightarrow> 'w security" where
  "set_level i l s = s\<lparr>sa_levels := (sa_levels s)[i := l]\<rparr>"

definition request_seed ::
    "u8 \<Rightarrow> nat \<Rightarrow> 'w level_state \<Rightarrow> u8 list \<Rightarrow> 'w security \<times> 'w \<Rightarrow> reply \<times> 'w security \<times> 'w" where
  "request_seed sub_func i lvl resp = (\<lambda>(s, w).
     if unlocked lvl then
       (pos_reply True SecurityAccess
          (sub_func # replicate (unat (sl_seed_len (ls_cfg lvl))) 0) resp, s, w)
     else
       (case generate_seed (ls_cfg lvl) (ls_seed lvl) 16 w of (n, seed, w) \<Rightarrow>
          let lvl = lvl\<lparr>ls_seed := seed, ls_seed_len := n, seed_sent := True\<rparr>;
              s = (set_level i lvl s)\<lparr>sa_active_level := sub_func\<rparr>
          in (pos_reply True SecurityAccess (sub_func # take n seed) resp, s, w)))"

definition send_key ::
    "u8 \<Rightarrow> nat \<Rightarrow> 'w level_state \<Rightarrow> u8 list \<Rightarrow> u8 list \<Rightarrow> 'w security \<times> 'w \<Rightarrow>
     reply \<times> 'w security \<times> 'w" where
  "send_key sub_func i lvl key resp = (\<lambda>(s, w).
     if \<not> seed_sent lvl \<or> sa_active_level s \<noteq> sub_func - 1 then
       (nrc_reply SecurityAccess RequestSequenceError resp, s, w)
     else
       (case verify_key (ls_cfg lvl) (ls_seed lvl) (ls_seed_len lvl) key w of (valid, w) \<Rightarrow>
          if \<not> valid then
            let lvl = lvl\<lparr>fail_count := fail_count lvl + 1, seed_sent := False\<rparr> in
            if fail_count lvl \<ge> kMaxAttempts then
              let lvl = lvl\<lparr>locked_until := sa_current_tick s + kDelayAfterFail\<rparr>
              in (nrc_reply SecurityAccess ExceededNumberOfAttempts resp, set_level i lvl s, w)
            else (nrc_reply SecurityAccess InvalidKey resp, set_level i lvl s, w)
          else
            let lvl = lvl\<lparr>unlocked := True, fail_count := 0, seed_sent := False\<rparr>
            in (pos_reply True SecurityAccess [sub_func] resp, set_level i lvl s, w)))"

definition security_handle ::
    "'v uds_session \<Rightarrow> u8 list \<Rightarrow> u8 list \<Rightarrow> 'w security \<times> 'w \<Rightarrow> reply \<times> 'w security \<times> 'w" where
  "security_handle session req resp = (\<lambda>(s, w).
     if length req < 2 then
       (nrc_reply SecurityAccess IncorrectMessageLengthOrInvalidFormat resp, s, w)
     else
       let sub_func = req ! 1;
           is_seed = (sub_func AND 1 \<noteq> 0)
       in case find_level sub_func s of
            None \<Rightarrow> (nrc_reply SecurityAccess SubFunctionNotSupported resp, s, w)
          | Some i \<Rightarrow>
              let lvl = sa_levels s ! i in
              if locked_until lvl \<noteq> 0 \<and> sa_current_tick s < locked_until lvl then
                (nrc_reply SecurityAccess RequiredTimeDelayNotExpired resp, s, w)
              else if sl_required_session (ls_cfg lvl) \<noteq> m_session session then
                (nrc_reply SecurityAccess ServiceNotSupportedInActiveSession resp, s, w)
              else if is_seed then request_seed sub_func i lvl resp (s, w)
              else send_key sub_func i lvl (drop 2 req) resp (s, w))"


section \<open>One level of the table\<close>

definition sec_level :: "u8 \<Rightarrow> 'w security \<Rightarrow> 'w level_state option" where
  "sec_level level s = find (\<lambda>l. level_of l = level) (sa_levels s)"

lemma is_unlocked_level:
  "is_unlocked level s \<longleftrightarrow> (\<exists>l. sec_level level s = Some l \<and> unlocked l)"
  by (simp add: is_unlocked_def sec_level_def split: option.split)

lemma odd_byte_plus: "(b :: u8) AND 1 \<noteq> 0 \<Longrightarrow> (b + 1) AND 1 = 0"
  by (simp add: and_one_eq mod_2_eq_odd)

lemma odd_byte_minus: "(b :: u8) AND 1 = 0 \<Longrightarrow> (b - 1) AND 1 \<noteq> 0"
  by (simp add: and_one_eq mod_2_eq_odd)

lemma find_level_index:
  assumes "find_level sub s = Some i"
  shows "i < length (sa_levels s)" "sec_level (seed_sub sub) s = Some (sa_levels s ! i)"
  using assms find_index_Some [OF assms [unfolded find_level_def]]
    find_index_nth [of "sa_levels s" "\<lambda>l. level_of l = seed_sub sub"]
  by (simp_all add: find_level_def sec_level_def)

lemma find_level_none: "find_level sub s = None \<Longrightarrow> sec_level (seed_sub sub) s = None"
  by (auto simp: find_level_def sec_level_def find_None_iff')

lemma find_level_update_first:
  "find_index P xs = Some i \<Longrightarrow> P x \<Longrightarrow> find P (xs[i := x]) = Some x"
  by (induction xs arbitrary: i) (auto split: if_splits)

lemma find_update_other:
  "\<not> P (xs ! i) \<Longrightarrow> \<not> P x \<Longrightarrow> find P (xs[i := x]) = find P xs"
proof (induction xs arbitrary: i)
  case (Cons y ys)
  then show ?case by (cases i) auto
qed simp

lemma sec_level_set:
  assumes "find_level sub s = Some i" "level_of l = level_of (sa_levels s ! i)"
  shows "sec_level L (set_level i l s) = (if L = seed_sub sub then Some l else sec_level L s)"
proof -
  have f: "find_index (\<lambda>l. level_of l = seed_sub sub) (sa_levels s) = Some i"
    using assms(1) by (simp add: find_level_def)
  with find_index_Some [OF f] assms(2) show ?thesis
    using find_level_update_first [OF f, of l]
    by (auto simp: sec_level_def set_level_def intro!: find_update_other)
qed

lemma sec_level_simps [simp]:
  "sec_level L (s\<lparr>sa_active_level := a\<rparr>) = sec_level L s"
  "sa_active_level (set_level i l s) = sa_active_level s"
  "sa_current_tick (set_level i l s) = sa_current_tick s"
  by (simp_all add: sec_level_def set_level_def)

lemma level_update_cfg [simp]:
  "ls_cfg (level_update t l) = ls_cfg l" "unlocked (level_update t l) = unlocked l"
  "seed_sent (level_update t l) = seed_sent l" "ls_seed (level_update t l) = ls_seed l"
  "ls_seed_len (level_update t l) = ls_seed_len l"
  by (simp_all add: level_update_def)

lemma sec_level_security_update [simp]:
  "sec_level L (security_update t s) = map_option (level_update t) (sec_level L s)"
proof -
  have "find P (map f xs) = map_option f (find P xs)" if "\<And>x. P (f x) = P x"
    for P f and xs :: "'a level_state list"
    using that by (induction xs) auto
  then show ?thesis by (simp add: sec_level_def security_update_def level_of_def)
qed

text \<open>A key was tested: accepted, or refused with one of the two codes for a wrong key.\<close>

definition failed_key :: "u8 \<Rightarrow> u8 list \<Rightarrow> reply \<Rightarrow> bool" where
  "failed_key L req r \<longleftrightarrow> 2 \<le> length req \<and> req ! 1 = L + 1 \<and>
     (negative_reply SecurityAccess InvalidKey r \<or>
      negative_reply SecurityAccess ExceededNumberOfAttempts r)"

definition tested_key :: "u8 \<Rightarrow> u8 list \<Rightarrow> reply \<Rightarrow> bool" where
  "tested_key L req r \<longleftrightarrow> failed_key L req r \<or>
     2 \<le> length req \<and> req ! 1 = L + 1 \<and> positive_reply SecurityAccess r"


text \<open>The level refuses requests until its delay is over.\<close>

definition level_locked :: "'w security \<Rightarrow> 'w level_state \<Rightarrow> bool" where
  "level_locked s l \<longleftrightarrow> locked_until l \<noteq> 0 \<and> sa_current_tick s < locked_until l"

lemma seed_sub_odd [simp]: "L AND 1 \<noteq> 0 \<Longrightarrow> seed_sub L = L"
  by (simp add: seed_sub_def)

lemma seed_sub_succ [simp]: "L AND 1 \<noteq> 0 \<Longrightarrow> seed_sub (L + 1) = L"
  using odd_byte_plus [of L] by (simp add: seed_sub_def)

lemma security_handle_other:
  assumes "L AND 1 \<noteq> 0" "2 \<le> length req" "seed_sub (req ! 1) \<noteq> L"
    and "security_handle session req resp (s, w) = (r, s', w')"
  shows "sec_level L s' = sec_level L s \<and> sa_current_tick s' = sa_current_tick s \<and>
    \<not> tested_key L req r \<and> req ! 1 \<noteq> L"
proof -
  have "req ! 1 \<noteq> L" "req ! 1 \<noteq> L + 1" using assms(1,3) by auto
  moreover have "sec_level L s' = sec_level L s \<and> sa_current_tick s' = sa_current_tick s"
    using assms(2-4)
    by (auto simp: security_handle_def request_seed_def send_key_def Let_def sec_level_set
        level_of_def not_le [symmetric] split: option.splits if_splits prod.splits)
  ultimately show ?thesis by (simp add: tested_key_def failed_key_def)
qed

lemma security_handle_short:
  "length req < 2 \<Longrightarrow> security_handle session req resp (s, w) =
    (nrc_reply SecurityAccess IncorrectMessageLengthOrInvalidFormat resp, s, w)"
  by (simp add: security_handle_def)

lemma security_handle_own:
  assumes "L AND 1 \<noteq> 0" "2 \<le> length req" "seed_sub (req ! 1) = L" "sec_level L s = Some l"
  shows "\<exists>i. find_level (req ! 1) s = Some i \<and> sa_levels s ! i = l \<and>
    security_handle session req resp (s, w) =
      (if level_locked s l then (nrc_reply SecurityAccess RequiredTimeDelayNotExpired resp, s, w)
       else if sl_required_session (ls_cfg l) \<noteq> m_session session then
         (nrc_reply SecurityAccess ServiceNotSupportedInActiveSession resp, s, w)
       else if req ! 1 = L then request_seed L i l resp (s, w)
       else send_key (L + 1) i l (drop 2 req) resp (s, w)) \<and>
    (req ! 1 = L \<or> req ! 1 = L + 1)"
proof -
  obtain i where i: "find_level (req ! 1) s = Some i"
    using find_level_none [of "req ! 1" s] assms(3,4) by (cases "find_level (req ! 1) s") auto
  then have l: "sa_levels s ! i = l" using find_level_index [OF i] assms(3,4) by simp
  define sub where "sub = req ! 1"
  have sub: "sub = L \<and> sub AND 1 \<noteq> 0 \<or> sub = L + 1 \<and> sub AND 1 = 0 \<and> sub \<noteq> L"
    using assms(1,3) odd_byte_plus [OF assms(1)] unfolding sub_def [symmetric] seed_sub_def
    by (auto split: if_splits)
  then show ?thesis
    using i l assms(2) unfolding security_handle_def Let_def sub_def [symmetric]
    by (auto simp: level_locked_def)
qed


lemma request_seed_cases:
  assumes "request_seed L i l resp (s, w) = (r, s', w')" "find_level L s = Some i"
    "sa_levels s ! i = l" "L AND 1 \<noteq> 0"
  shows "unlocked l \<and> s' = s \<and> w' = w \<or>
      (\<exists>n seed. \<not> unlocked l \<and> generate_seed (ls_cfg l) (ls_seed l) 16 w = (n, seed, w') \<and>
        reply_bytes r = 0x67 # L # take n seed \<and>
        sec_level L s' = Some (l\<lparr>ls_seed := seed, ls_seed_len := n, seed_sent := True\<rparr>) \<and>
        sa_current_tick s' = sa_current_tick s)"
  using assms
  by (auto simp: request_seed_def Let_def sec_level_set level_of_def split: if_splits prod.splits)

lemma send_key_cases:
  assumes "send_key (L + 1) i l key resp (s, w) = (r, s', w')" "find_level (L + 1) s = Some i"
    "sa_levels s ! i = l" "L AND 1 \<noteq> 0"
  shows "s' = s \<and> w' = w \<and> r = nrc_reply SecurityAccess RequestSequenceError resp \<or>
    (\<exists>valid. seed_sent l \<and> verify_key (ls_cfg l) (ls_seed l) (ls_seed_len l) key w = (valid, w') \<and>
      sa_current_tick s' = sa_current_tick s \<and>
      (if valid
       then r = pos_reply True SecurityAccess [L + 1] resp \<and>
         sec_level L s' = Some (l\<lparr>unlocked := True, fail_count := 0, seed_sent := False\<rparr>)
       else
         let n = fail_count l + 1; x = l\<lparr>fail_count := n, seed_sent := False\<rparr> in
         if n \<ge> kMaxAttempts
         then r = nrc_reply SecurityAccess ExceededNumberOfAttempts resp \<and>
           sec_level L s' = Some (x\<lparr>locked_until := sa_current_tick s + kDelayAfterFail\<rparr>)
         else r = nrc_reply SecurityAccess InvalidKey resp \<and> sec_level L s' = Some x))"
proof (cases "seed_sent l \<and> sa_active_level s = L")
  case True
  obtain valid w1 where v: "verify_key (ls_cfg l) (ls_seed l) (ls_seed_len l) key w = (valid, w1)"
    by fastforce
  have set: "sec_level K (set_level i x s) = Some x" if "K = L" "level_of x = level_of l" for x K
    using sec_level_set [OF assms(2), of x L] that assms(3,4) by simp
  show ?thesis
    using assms(1) True v
    by (cases valid; intro disjI2 exI [of _ valid]) (auto simp: send_key_def Let_def set level_of_def)
qed (use assms(1) in \<open>auto simp: send_key_def\<close>)

text \<open>A seed is issued unless the level is open, and a key is tested if a seed is pending.\<close>

lemma request_seed_outcome:
  assumes "request_seed L i l resp (s, w) = (r, s', w')" "find_level L s = Some i"
    "sa_levels s ! i = l" "L AND 1 \<noteq> 0" "sec_level L s = Some l" "2 \<le> length req" "req ! 1 = L"
  obtains
    (quiet) "sec_level L s' = Some l" "sa_current_tick s' = sa_current_tick s"
      "\<not> tested_key L req r" "unlocked l"
  | (seed) n seed where "\<not> unlocked l"
      "generate_seed (ls_cfg l) (ls_seed l) 16 w = (n, seed, w')"
      "reply_bytes r = 0x67 # L # take n seed" "\<not> tested_key L req r"
      "sec_level L s' = Some (l\<lparr>ls_seed := seed, ls_seed_len := n, seed_sent := True\<rparr>)"
      "sa_current_tick s' = sa_current_tick s"
proof -
  have n: "\<not> tested_key L req r" using assms(7) by (simp add: tested_key_def failed_key_def)
  from request_seed_cases [OF assms(1-4)] show thesis
  proof (elim disjE exE conjE)
    assume "unlocked l" "s' = s"
    with assms(5) n show thesis by (intro quiet) simp_all
  qed (rule seed, use n in simp_all)
qed

lemma send_key_outcome:
  assumes "send_key (L + 1) i l (drop 2 req) resp (s, w) = (r, s', w')" "find_level (L + 1) s = Some i"
    "sa_levels s ! i = l" "L AND 1 \<noteq> 0" "sec_level L s = Some l" "2 \<le> length req" "req ! 1 = L + 1"
  obtains
    (quiet) "sec_level L s' = Some l" "sa_current_tick s' = sa_current_tick s"
      "\<not> tested_key L req r"
  | (good) "seed_sent l" "fst (verify_key (ls_cfg l) (ls_seed l) (ls_seed_len l) (drop 2 req) w)"
      "r = pos_reply True SecurityAccess [L + 1] resp"
      "sec_level L s' = Some (l\<lparr>unlocked := True, fail_count := 0, seed_sent := False\<rparr>)"
      "sa_current_tick s' = sa_current_tick s"
  | (bad) x where "failed_key L req r" "seed_sent l"
      "x = l\<lparr>fail_count := fail_count l + 1, seed_sent := False\<rparr>"
      "sec_level L s' = Some (if fail_count l + 1 \<ge> kMaxAttempts
         then x\<lparr>locked_until := sa_current_tick s + kDelayAfterFail\<rparr> else x)"
      "sa_current_tick s' = sa_current_tick s"
      "negative_reply SecurityAccess ExceededNumberOfAttempts r \<longleftrightarrow> fail_count l + 1 \<ge> kMaxAttempts"
proof -
  have kr: "failed_key L req r \<longleftrightarrow> negative_reply SecurityAccess InvalidKey r \<or>
      negative_reply SecurityAccess ExceededNumberOfAttempts r"
    using assms(6,7) by (simp add: failed_key_def)
  from send_key_cases [OF assms(1-4)] show thesis
  proof (elim disjE exE conjE)
    assume "s' = s" "r = nrc_reply SecurityAccess RequestSequenceError resp"
    with assms(5) show thesis by (intro quiet) (simp_all add: tested_key_def failed_key_def)
  next
    fix valid
    assume v: "seed_sent l"
        "verify_key (ls_cfg l) (ls_seed l) (ls_seed_len l) (drop 2 req) w = (valid, w')"
      and t: "sa_current_tick s' = sa_current_tick s"
      and c: "if valid
       then r = pos_reply True SecurityAccess [L + 1] resp \<and>
         sec_level L s' = Some (l\<lparr>unlocked := True, fail_count := 0, seed_sent := False\<rparr>)
       else
         let n = fail_count l + 1; x = l\<lparr>fail_count := n, seed_sent := False\<rparr> in
         if n \<ge> kMaxAttempts
         then r = nrc_reply SecurityAccess ExceededNumberOfAttempts resp \<and>
           sec_level L s' = Some (x\<lparr>locked_until := sa_current_tick s + kDelayAfterFail\<rparr>)
         else r = nrc_reply SecurityAccess InvalidKey resp \<and> sec_level L s' = Some x"
    show thesis
    proof (cases valid)
      case True
      then show thesis by (intro good) (use v t c in simp_all)
    next
      case False
      show thesis
        by (rule bad [OF _ v(1) refl]) (use False t c kr in \<open>simp_all add: Let_def split: if_splits\<close>)
    qed
  qed
qed

text \<open>What one request does to the level \<open>L\<close>: nothing, issue a seed, or test a key.\<close>

lemma security_handle_cases:
  assumes "security_handle session req resp (s, w) = (r, s', w')" "sec_level L s = Some l"
    and "L AND 1 \<noteq> 0"
  obtains
    (quiet) "sec_level L s' = Some l" "sa_current_tick s' = sa_current_tick s"
      "\<not> tested_key L req r"
      "2 \<le> length req \<and> req ! 1 = L \<and> positive_reply SecurityAccess r \<Longrightarrow> unlocked l"
  | (seed) n seed where "2 \<le> length req" "req ! 1 = L" "\<not> unlocked l"
      "generate_seed (ls_cfg l) (ls_seed l) 16 w = (n, seed, w')"
      "reply_bytes r = 0x67 # L # take n seed" "\<not> tested_key L req r"
      "sec_level L s' = Some (l\<lparr>ls_seed := seed, ls_seed_len := n, seed_sent := True\<rparr>)"
      "sa_current_tick s' = sa_current_tick s"
  | (good) "2 \<le> length req" "req ! 1 = L + 1" "m_session session = sl_required_session (ls_cfg l)"
      "seed_sent l" "fst (verify_key (ls_cfg l) (ls_seed l) (ls_seed_len l) (drop 2 req) w)"
      "r = pos_reply True SecurityAccess [L + 1] resp"
      "sec_level L s' = Some (l\<lparr>unlocked := True, fail_count := 0, seed_sent := False\<rparr>)"
      "sa_current_tick s' = sa_current_tick s"
  | (bad) x where "failed_key L req r" "seed_sent l" "\<not> level_locked s l"
      "x = l\<lparr>fail_count := fail_count l + 1, seed_sent := False\<rparr>"
      "sec_level L s' = Some (if fail_count l + 1 \<ge> kMaxAttempts
         then x\<lparr>locked_until := sa_current_tick s + kDelayAfterFail\<rparr> else x)"
      "sa_current_tick s' = sa_current_tick s"
      "negative_reply SecurityAccess ExceededNumberOfAttempts r \<longleftrightarrow> fail_count l + 1 \<ge> kMaxAttempts"
proof -
  consider "length req < 2" | "2 \<le> length req" "seed_sub (req ! 1) \<noteq> L"
    | "2 \<le> length req" "seed_sub (req ! 1) = L" by linarith
  then show thesis
  proof cases
    case 1
    with assms show ?thesis
      by (intro quiet) (auto simp: security_handle_short tested_key_def failed_key_def)
  next
    case 2
    with security_handle_other [OF assms(3) 2 assms(1)] assms(2) show ?thesis
      by (intro quiet) auto
  next
    case 3
    obtain i where i: "find_level (req ! 1) s = Some i" "sa_levels s ! i = l"
      and h: "security_handle session req resp (s, w) =
        (if level_locked s l then (nrc_reply SecurityAccess RequiredTimeDelayNotExpired resp, s, w)
         else if sl_required_session (ls_cfg l) \<noteq> m_session session then
           (nrc_reply SecurityAccess ServiceNotSupportedInActiveSession resp, s, w)
         else if req ! 1 = L then request_seed L i l resp (s, w)
         else send_key (L + 1) i l (drop 2 req) resp (s, w))"
      and sub: "req ! 1 = L \<or> req ! 1 = L + 1"
      using security_handle_own [OF assms(3) 3 assms(2), of session resp w] by blast
    show ?thesis
    proof (cases "level_locked s l \<or> sl_required_session (ls_cfg l) \<noteq> m_session session")
      case True
      with h assms(1,2) show ?thesis
        by (intro quiet) (auto simp: tested_key_def failed_key_def split: if_splits)
    next
      case False
      then have "if req ! 1 = L then request_seed L i l resp (s, w) = (r, s', w')
          else send_key (L + 1) i l (drop 2 req) resp (s, w) = (r, s', w')"
        using h assms(1) by simp
      with sub i(1) consider "req ! 1 = L" "request_seed L i l resp (s, w) = (r, s', w')" "find_level L s = Some i"
        | "req ! 1 = L + 1" "send_key (L + 1) i l (drop 2 req) resp (s, w) = (r, s', w')"
          "find_level (L + 1) s = Some i" by (auto split: if_splits)
      then show ?thesis
      proof cases
        case 1
        from request_seed_outcome [OF 1(2,3) i(2) assms(3,2) 3(1) 1(1)] show ?thesis
          by cases (use 1(1) 3(1) quiet seed in blast)+
      next
        case 2
        from send_key_outcome [OF 2(2,3) i(2) assms(3,2) 3(1) 2(1)] show ?thesis
        proof cases
          case 1
          then show ?thesis using quiet 2(1) by simp
        next
          case key: 2
          show ?thesis by (rule good [OF 3(1) 2(1) _ key]) (use False in simp)
        next
          case (3 x)
          show ?thesis by (rule bad [OF 3(1,2) _ 3(3-6)]) (use False in simp)
        qed
      qed
    qed
  qed
qed


section \<open>Histories\<close>

text \<open>
  The main loop of the ECU calls \<open>update\<close> with the tick and hands requests over. The log of a
  run pairs every event with the reply to it.
\<close>

datatype 'v sec_event = Sec_update u32 | Sec_request "'v uds_session" "u8 list"

fun sec_apply ::
    "u8 list \<Rightarrow> 'v sec_event \<Rightarrow> 'w security \<times> 'w \<Rightarrow> reply option \<times> 'w security \<times> 'w" where
  "sec_apply resp (Sec_update t) (s, w) = (None, security_update t s, w)"
| "sec_apply resp (Sec_request session req) (s, w) =
     (case security_handle session req resp (s, w) of (r, s, w) \<Rightarrow> (Some r, s, w))"

fun sec_run ::
    "u8 list \<Rightarrow> 'v sec_event list \<Rightarrow> 'w security \<times> 'w \<Rightarrow>
     ('v sec_event \<times> reply option) list \<times> 'w security \<times> 'w" where
  "sec_run resp [] sw = ([], sw)"
| "sec_run resp (e # es) sw =
     (case sec_apply resp e sw of (r, sw1) \<Rightarrow>
        case sec_run resp es sw1 of (log, sw2) \<Rightarrow> ((e, r) # log, sw2))"

lemma sec_run_snoc:
  "sec_run resp (es @ [e]) sw =
     (case sec_run resp es sw of (log, sw1) \<Rightarrow>
        case sec_apply resp e sw1 of (r, sw2) \<Rightarrow> (log @ [(e, r)], sw2))"
  by (induction es arbitrary: sw) (auto split: prod.splits)

text \<open>The induction over the history of one level: an update, or one of the four outcomes.\<close>

lemma sec_run_induct [consumes 3, case_names start update quiet seed good bad]:
  assumes "L AND 1 \<noteq> 0" "sec_run resp es (s0, w0) = (log, s, w)" "sec_level L s0 = Some l0"
    and "P [] s0 l0"
    and "\<And>log s l t. P log s l \<Longrightarrow>
      P (log @ [(Sec_update t, None)]) (security_update t s) (level_update t l)"
    and "\<And>log s l s' session req r. P log s l \<Longrightarrow> sa_current_tick s' = sa_current_tick s \<Longrightarrow>
      \<not> tested_key L req r \<Longrightarrow>
      (2 \<le> length req \<and> req ! 1 = L \<and> positive_reply SecurityAccess r \<Longrightarrow> unlocked l) \<Longrightarrow>
      P (log @ [(Sec_request session req, Some r)]) s' l"
    and "\<And>log s l s' session req r n seed w w'. P log s l \<Longrightarrow> sa_current_tick s' = sa_current_tick s \<Longrightarrow>
      \<not> tested_key L req r \<Longrightarrow> 2 \<le> length req \<Longrightarrow> req ! 1 = L \<Longrightarrow> \<not> unlocked l \<Longrightarrow>
      generate_seed (ls_cfg l) (ls_seed l) 16 w = (n, seed, w') \<Longrightarrow>
      reply_bytes r = 0x67 # L # take n seed \<Longrightarrow>
      P (log @ [(Sec_request session req, Some r)]) s'
        (l\<lparr>ls_seed := seed, ls_seed_len := n, seed_sent := True\<rparr>)"
    and "\<And>log s l s' session req r w. P log s l \<Longrightarrow> sa_current_tick s' = sa_current_tick s \<Longrightarrow>
      2 \<le> length req \<Longrightarrow> req ! 1 = L + 1 \<Longrightarrow>
      m_session session = sl_required_session (ls_cfg l) \<Longrightarrow> seed_sent l \<Longrightarrow>
      fst (verify_key (ls_cfg l) (ls_seed l) (ls_seed_len l) (drop 2 req) w) \<Longrightarrow>
      r = pos_reply True SecurityAccess [L + 1] resp \<Longrightarrow>
      P (log @ [(Sec_request session req, Some r)]) s'
        (l\<lparr>unlocked := True, fail_count := 0, seed_sent := False\<rparr>)"
    and "\<And>log s l s' session req r x. P log s l \<Longrightarrow> sa_current_tick s' = sa_current_tick s \<Longrightarrow>
      failed_key L req r \<Longrightarrow> seed_sent l \<Longrightarrow> \<not> level_locked s l \<Longrightarrow>
      x = l\<lparr>fail_count := fail_count l + 1, seed_sent := False\<rparr> \<Longrightarrow>
      P (log @ [(Sec_request session req, Some r)]) s'
        (if fail_count l + 1 \<ge> kMaxAttempts
         then x\<lparr>locked_until := sa_current_tick s + kDelayAfterFail\<rparr> else x)"
  shows "\<exists>l. sec_level L s = Some l \<and> P log s l"
  using assms(2)
proof (induction es arbitrary: log s w rule: rev_induct)
  case Nil
  with assms(3,4) show ?case by simp
next
  case (snoc e es)
  obtain log1 s1 w1 where run: "sec_run resp es (s0, w0) = (log1, s1, w1)"
    by (metis prod_cases3)
  with snoc.IH obtain l1 where l1: "sec_level L s1 = Some l1" and P: "P log1 s1 l1" by blast
  show ?case
  proof (cases e)
    case (Sec_update t)
    with snoc.prems run l1 assms(5) [OF P] show ?thesis by (auto simp: sec_run_snoc)
  next
    case (Sec_request session req)
    then obtain r where h: "security_handle session req resp (s1, w1) = (r, s, w)"
      and log: "log = log1 @ [(Sec_request session req, Some r)]"
      using snoc.prems run by (auto simp: sec_run_snoc split: prod.splits)
    from h l1 assms(1) show ?thesis
    proof (cases rule: security_handle_cases)
      case quiet
      with assms(6) [OF P] log show ?thesis by blast
    next
      case (seed n sd)
      with assms(7) [OF P] log show ?thesis by blast
    next
      case good
      with assms(8) [OF P] log show ?thesis by blast
    next
      case (bad x)
      with assms(9) [OF P] log show ?thesis by blast
    qed
  qed
qed


section \<open>The table and the service\<close>

interpretation levels: registry kMaxSecurityLevels "\<lambda>c s. sl_level c AND 1 \<noteq> 0" fresh_level level_of
  sa_levels register_level sec_level
  by unfold_locales (auto simp: register_level_def sec_level_def)

text \<open>
  A documented seed generator returns at most the size of the array it gets, 16, and stays
  inside it.
\<close>

definition generator_ok :: "'w security_level \<Rightarrow> bool" where
  "generator_ok c \<longleftrightarrow> (\<forall>buf w. length buf = 16 \<longrightarrow>
     (case generate_seed c buf 16 w of (n, buf', w') \<Rightarrow> n \<le> 16 \<and> length buf' = 16))"

definition security_inv :: "'w security \<Rightarrow> bool" where
  "security_inv s \<longleftrightarrow> length (sa_levels s) \<le> kMaxSecurityLevels \<and>
     (\<forall>l \<in> set (sa_levels s). generator_ok (ls_cfg l) \<and> length (ls_seed l) = 16)"

lemma security_inv_new [simp]: "security_inv security_new"
  by (simp add: security_inv_def security_new_def)

lemma security_inv_register:
  "security_inv s \<Longrightarrow> generator_ok c \<Longrightarrow> security_inv (snd (register_level c s))"
  by (auto simp: security_inv_def register_level_def fresh_level_def)

lemma security_inv_update [simp]: "security_inv (security_update t s) \<longleftrightarrow> security_inv s"
  by (auto simp: security_inv_def security_update_def)

lemma security_inv_set:
  "security_inv s \<Longrightarrow> generator_ok (ls_cfg l) \<Longrightarrow> length (ls_seed l) = 16 \<Longrightarrow>
    security_inv (set_level i l s)"
  by (auto simp: security_inv_def set_level_def dest!: set_update_subset_insert [THEN subsetD])

lemma security_inv_active [simp]: "security_inv (s\<lparr>sa_active_level := a\<rparr>) \<longleftrightarrow> security_inv s"
  by (simp add: security_inv_def)

lemma security_handle_wf:
  assumes "security_inv s" "length resp = kMaxResp"
  shows "reply_wf kMaxResp SecurityAccess (fst (security_handle session req resp (s, w))) \<and>
    security_inv (fst (snd (security_handle session req resp (s, w))))"
proof (cases "length req < 2 \<or> find_level (req ! 1) s = None")
  case True
  then show ?thesis using assms by (auto simp: security_handle_def kMaxResp_def Let_def)
next
  case False
  then obtain i where i: "find_level (req ! 1) s = Some i" by auto
  define l sub where "l = sa_levels s ! i" and "sub = req ! 1"
  have "l \<in> set (sa_levels s)" using find_level_index(1) [OF i] by (simp add: l_def)
  then have l: "generator_ok (ls_cfg l)" "length (ls_seed l) = 16"
    using assms(1) by (auto simp: security_inv_def)
  have len: "unat (sl_seed_len (ls_cfg l)) < 256" using unsigned_less [of "sl_seed_len (ls_cfg l)"] by simp
  obtain n seed w1 where g: "generate_seed (ls_cfg l) (ls_seed l) 16 w = (n, seed, w1)" "length seed = 16"
    using l unfolding generator_ok_def by (metis (mono_tags, lifting) case_prodD prod_cases3)
  have seed: "reply_wf kMaxResp SecurityAccess (fst (request_seed sub i l resp (s, w))) \<and>
      security_inv (fst (snd (request_seed sub i l resp (s, w))))"
    using assms l g len by (auto simp: request_seed_def Let_def kMaxResp_def intro!: security_inv_set)
  have key: "reply_wf kMaxResp SecurityAccess (fst (send_key sub i l key resp (s, w))) \<and>
      security_inv (fst (snd (send_key sub i l key resp (s, w))))" for key
    using assms l
    by (auto simp: send_key_def Let_def kMaxResp_def split: prod.split intro!: security_inv_set)
  show ?thesis
    using False i assms seed key [of "drop 2 req"]
    unfolding security_handle_def Let_def l_def [symmetric] sub_def [symmetric]
    by (simp add: kMaxResp_def l_def sub_def)
qed

interpretation security: uds_service SecurityAccess "\<lambda>(s, w). security_inv s"
  "security_handle session" for session :: "'v uds_session"
proof unfold_locales
  fix sw :: "'a security \<times> 'a" and req resp :: "u8 list"
  assume *: "case sw of (s, w) \<Rightarrow> security_inv s" "length resp = kMaxResp"
  obtain s w where sw: "sw = (s, w)" by (cases sw)
  with * have "security_inv s" by simp
  from security_handle_wf [OF this *(2), of session req w]
  show "reply_wf kMaxResp SecurityAccess (fst (security_handle session req resp sw))"
    and "case snd (security_handle session req resp sw) of (s, w) \<Rightarrow> security_inv s"
    by (auto simp: sw split: prod.split)
qed

end
