(* ===== verification/Services_Blind.thy ===== *)
theory Services_Blind
  imports Services_Session Services_Data Services_Memory Services_Dtc Security_Access
begin

text \<open>
  All handlers write their reply into the one response buffer of the server, which still
  holds the reply of an earlier request. \<open>blind_service\<close> extends the contract of \<open>IService\<close>:
  what a handler answers and what it does depends on the request and on its state, never on
  what the buffer held before, so no byte of an earlier reply can leak into a later one. It
  is interpreted on the twenty services of the library, those with callbacks under the same
  duty on the callbacks.
\<close>

section \<open>The contract\<close>

text \<open>The same frames go out: the buffers may differ behind the reply.\<close>

definition same_reply :: "reply \<Rightarrow> reply \<Rightarrow> bool" where
  "same_reply r r' \<longleftrightarrow>
     r_send r = r_send r' \<and> r_len r = r_len r' \<and> reply_bytes r = reply_bytes r'"

locale blind_service = uds_service +
  assumes blind: "inv s \<Longrightarrow> req \<noteq> [] \<Longrightarrow> length resp = kMaxResp \<Longrightarrow> length resp' = kMaxResp \<Longrightarrow>
      same_reply (fst (handle req resp s)) (fst (handle req resp' s)) \<and>
      snd (handle req resp s) = snd (handle req resp' s)"
begin

lemma blind_step:
  assumes "inv s" "req \<noteq> []" "length resp = kMaxResp" "length resp' = kMaxResp"
    and "handle req resp s = (r, s')"
  obtains r' where "handle req resp' s = (r', s')" "same_reply r r'"
  using blind [OF assms(1-4)] assms(5) by (cases "handle req resp' s") simp

end

lemma same_reply_refl [simp]: "same_reply r r"
  by (simp add: same_reply_def)

lemma same_reply_nrc [simp]: "same_reply (nrc_reply sid c resp) (nrc_reply sid c resp')"
  by (simp add: same_reply_def) (simp add: nrc_reply_def write_nrc_def)

lemma same_reply_pos [simp]:
  "same_reply (pos_reply send sid bs resp) (pos_reply send sid bs resp')"
  by (simp add: same_reply_def) (simp add: pos_reply_def)

lemma same_reply_raw [simp]:
  "same_reply \<lparr>r_send = k, r_buf = b, r_len = n\<rparr> \<lparr>r_send = k, r_buf = b', r_len = n\<rparr> \<longleftrightarrow>
    take n b = take n b'"
  by (simp add: same_reply_def reply_bytes_def)

text \<open>A service with a table or a callback \<open>t\<close> that it never changes, on an environment \<open>w\<close>.\<close>

lemma blind_state_service:
  assumes "\<And>t req resp w. ok t w \<Longrightarrow> length resp = kMaxResp \<Longrightarrow>
      reply_wf kMaxResp sid (fst (h t req resp w))"
    and "\<And>t req resp w. ok t w \<Longrightarrow> length resp = kMaxResp \<Longrightarrow> ok t (snd (h t req resp w))"
    and "\<And>t req resp resp' w. ok t w \<Longrightarrow> length resp = kMaxResp \<Longrightarrow> length resp' = kMaxResp \<Longrightarrow>
      same_reply (fst (h t req resp w)) (fst (h t req resp' w)) \<and>
      snd (h t req resp w) = snd (h t req resp' w)"
  shows "blind_service sid (\<lambda>(t, w). ok t w)
    (\<lambda>req resp (t, w). case h t req resp w of (r, w') \<Rightarrow> (r, (t, w')))"
proof -
  let ?h = "\<lambda>req resp (t, w). case h t req resp w of (r, w') \<Rightarrow> (r, (t, w'))"
  have h: "?h req resp s = (fst (h (fst s) req resp (snd s)), (fst s, snd (h (fst s) req resp (snd s))))"
    for req resp s
    by (simp add: split_def)
  show ?thesis
  proof
    fix s :: "'a \<times> 'b" and req resp resp' :: "u8 list"
    assume "case s of (t, w) \<Rightarrow> ok t w" "length resp = kMaxResp"
    then have ok: "ok (fst s) (snd s)" "length resp = kMaxResp" by (simp_all add: split_def)
    show "reply_wf kMaxResp sid (fst (?h req resp s))" using assms(1) [OF ok] by (simp add: h)
    show "case snd (?h req resp s) of (t, w) \<Rightarrow> ok t w" using assms(2) [OF ok] by (simp add: h)
    show "same_reply (fst (?h req resp s)) (fst (?h req resp' s)) \<and>
        snd (?h req resp s) = snd (?h req resp' s)" if "length resp' = kMaxResp"
      using assms(3) [OF ok that] by (simp add: h)
  qed
qed

lemma blind_table_service:
  assumes "\<And>t req resp w. ok t \<Longrightarrow> length resp = kMaxResp \<Longrightarrow>
      reply_wf kMaxResp sid (fst (h t req resp w))"
    and "\<And>t req resp resp' w. ok t \<Longrightarrow> length resp = kMaxResp \<Longrightarrow> length resp' = kMaxResp \<Longrightarrow>
      same_reply (fst (h t req resp w)) (fst (h t req resp' w)) \<and>
      snd (h t req resp w) = snd (h t req resp' w)"
  shows "blind_service sid (\<lambda>(t, w). ok t)
    (\<lambda>req resp (t, w). case h t req resp w of (r, w') \<Rightarrow> (r, (t, w')))"
  by (rule blind_state_service) (use assms in blast)+

section \<open>Callbacks that fill a part of the buffer\<close>

text \<open>
  A callback is given the rest of the response buffer; its duty is to report no bytes it has
  not written. The results of two calls on different buffers agree in the reported bytes.
  The data a reader and a writer work on may have an invariant \<open>W\<close> of their own, such as the
  size of an array.
\<close>

definition same_fill :: "nat \<times> u8 list \<times> 'w \<Rightarrow> nat \<times> u8 list \<times> 'w \<Rightarrow> bool" where
  "same_fill = (\<lambda>(n, b, w) (n', b', w'). n = n' \<and> take n b = take n b' \<and> w = w')"

definition same_try ::
    "bool \<times> u8 list \<times> nat \<times> 'w \<Rightarrow> bool \<times> u8 list \<times> nat \<times> 'w \<Rightarrow> bool" where
  "same_try = (\<lambda>(ok, b, n, w) (ok', b', n', w').
     ok = ok' \<and> w = w' \<and> (ok \<longrightarrow> n = n' \<and> take n b = take n b'))"

definition reader_blind :: "('w \<Rightarrow> bool) \<Rightarrow> 'w data_identifier \<Rightarrow> bool" where
  "reader_blind W d \<longleftrightarrow> (\<forall>f buf buf' w. read_fn d = Some f \<longrightarrow> length buf = length buf' \<longrightarrow> W w \<longrightarrow>
     same_fill (f buf (length buf) w) (f buf' (length buf') w) \<and>
     W (snd (snd (f buf (length buf) w))))"

definition writer_keeps :: "('w \<Rightarrow> bool) \<Rightarrow> 'w data_identifier \<Rightarrow> bool" where
  "writer_keeps W d \<longleftrightarrow> (\<forall>f data w. write_fn d = Some f \<longrightarrow> W w \<longrightarrow> W (snd (f data w)))"

definition io_blind :: "'w io_control_entry \<Rightarrow> bool" where
  "io_blind e \<longleftrightarrow> (\<forall>action opt buf buf' w. length buf = length buf' \<longrightarrow>
     same_try (io_control e action opt buf (length buf) w)
       (io_control e action opt buf' (length buf') w))"

definition routine_fn_blind :: "(u8 list \<Rightarrow> 'w \<Rightarrow> bool \<times> u8 list \<times> nat \<times> 'w) \<Rightarrow> bool" where
  "routine_fn_blind f \<longleftrightarrow> (\<forall>buf buf' w.
     length buf = kMaxResp - 4 \<longrightarrow> length buf' = kMaxResp - 4 \<longrightarrow> same_try (f buf w) (f buf' w))"

definition routine_blind :: "'w routine_entry \<Rightarrow> bool" where
  "routine_blind e \<longleftrightarrow>
     (\<forall>f opt. routine_start e = Some f \<longrightarrow> routine_fn_blind (f opt)) \<and>
     (\<forall>f opt. routine_stop e = Some f \<longrightarrow> routine_fn_blind (f opt)) \<and>
     (\<forall>f. routine_results e = Some f \<longrightarrow> routine_fn_blind f)"

definition read_cb_blind ::
    "(u32 \<Rightarrow> u8 list \<Rightarrow> nat \<Rightarrow> 'w \<Rightarrow> nat \<times> u8 list \<times> 'w) option \<Rightarrow> bool" where
  "read_cb_blind cb \<longleftrightarrow> (\<forall>f a buf buf' len w. cb = Some f \<longrightarrow> length buf = length buf' \<longrightarrow>
     len \<le> length buf \<longrightarrow> same_fill (f a buf len w) (f a buf' len w))"

definition exit_cb_blind :: "'w exit_fn option \<Rightarrow> bool" where
  "exit_cb_blind cb \<longleftrightarrow> (\<forall>f p buf buf' w. cb = Some f \<longrightarrow> length buf = length buf' \<longrightarrow>
     same_try (f p buf (length buf) w) (f p buf' (length buf') w))"

section \<open>Data services\<close>

lemma take_put_over:
  assumes "length buf = length buf'" "pos \<le> length buf" "take pos buf = take pos buf'"
  shows "take (pos + length bs) (put pos bs buf) = take (pos + length bs) (put pos bs buf')"
  using assms by (simp add: put_def)

lemma rdbi_loop_blind:
  assumes "\<forall>d \<in> set t. reader_ok d \<and> reader_blind W d"
  shows "length resp = kMaxResp \<Longrightarrow> length resp' = kMaxResp \<Longrightarrow> pos \<le> kMaxResp \<Longrightarrow>
    take pos resp = take pos resp' \<Longrightarrow> W w \<Longrightarrow>
    same_reply (fst (rdbi_loop t ids resp pos w)) (fst (rdbi_loop t ids resp' pos w)) \<and>
    snd (rdbi_loop t ids resp pos w) = snd (rdbi_loop t ids resp' pos w) \<and>
    W (snd (rdbi_loop t ids resp pos w))"
proof (induction ids arbitrary: resp resp' pos w rule: induct_list012)
  case (3 a b ids)
  let ?d = "be16 a b"
  show ?case
  proof (cases "\<exists>e f. find_did ?d t = Some e \<and> read_fn e = Some f \<and> pos + 2 \<le> kMaxResp - 1")
    case False
    then have "find_did ?d t = None \<or> (\<exists>e. find_did ?d t = Some e \<and>
        (read_fn e = None \<or> \<not> pos + 2 \<le> kMaxResp - 1))"
      by (cases "find_did ?d t") auto
    with "3.prems" show ?thesis
      by (auto simp: Let_def kMaxResp_def split: option.split)
  next
    case True
    then obtain e f where e: "find_did ?d t = Some e" "read_fn e = Some f" "pos + 2 \<le> kMaxResp - 1"
      by blast
    let ?b = "put pos [a, b]"
    let ?part = "drop (pos + 2) (?b resp)" and ?part' = "drop (pos + 2) (?b resp')"
    have bound: "pos + 2 < kMaxResp" using e(3) by (simp add: kMaxResp_def)
    then have len: "length (?b resp) = kMaxResp" "length (?b resp') = kMaxResp"
      using "3.prems" by (simp_all add: length_put)
    obtain n p v where f: "f ?part (kMaxResp - (pos + 2)) w = (n, p, v)" by (metis prod_cases3)
    obtain n' p' v' where f': "f ?part' (kMaxResp - (pos + 2)) w = (n', p', v')" by (metis prod_cases3)
    have ok: "reader_ok e" "reader_blind W e" using assms dids.lookup_key e(1) by blast+
    have "same_fill (n, p, v) (n', p', v') \<and> W v"
      using ok(2) [unfolded reader_blind_def, rule_format, of f ?part ?part' w] e(2) f f' len "3.prems"(5)
      by simp
    then have same: "W v" "n' = n" "v' = v" "take n p = take n p'" by (auto simp: same_fill_def)
    have fit: "length p = kMaxResp - (pos + 2)" "length p' = kMaxResp - (pos + 2)"
      "n \<le> kMaxResp - (pos + 2)"
      using ok(1) e(2) f f' len unfolding reader_ok_def fills_buffer_def by (metis length_drop)+
    let ?r = "take (pos + 2) (?b resp) @ p" and ?r' = "take (pos + 2) (?b resp') @ p'"
    have step: "rdbi_loop t (a # b # ids) resp pos w =
        (if n = 0 then (nrc_reply ReadDataByIdentifier ConditionsNotCorrect ?r, v)
         else rdbi_loop t ids ?r (pos + 2 + n) v)"
      using rdbi_loop_step [OF e _ f] "3.prems"(1) by (simp add: Let_def)
    have step': "rdbi_loop t (a # b # ids) resp' pos w =
        (if n = 0 then (nrc_reply ReadDataByIdentifier ConditionsNotCorrect ?r', v)
         else rdbi_loop t ids ?r' (pos + 2 + n) v)"
      using rdbi_loop_step [OF e _ f'] "3.prems"(2) same by (simp add: Let_def)
    have "take (pos + 2) (?b resp) = take (pos + 2) (?b resp')"
      using take_put_over [of resp resp' pos "[a, b]"] "3.prems" by simp
    then have "take (pos + 2 + n) ?r = take (pos + 2 + n) ?r'"
      using same bound len by simp
    note IH = "3.IH"(1) [OF _ _ _ this same(1)]
    have "length ?r = kMaxResp" "length ?r' = kMaxResp" "pos + 2 + n \<le> kMaxResp"
      using fit bound len by simp_all
    from IH [OF this] same(1) show ?thesis unfolding step step' by (auto simp: Let_def)
  qed
qed simp_all

lemma rdbi_blind:
  assumes "W w \<and> (\<forall>d \<in> set t. reader_ok d \<and> reader_blind W d)" "length resp = kMaxResp" "length resp' = kMaxResp"
  shows "same_reply (fst (rdbi_handle t req resp w)) (fst (rdbi_handle t req resp' w)) \<and>
    snd (rdbi_handle t req resp w) = snd (rdbi_handle t req resp' w) \<and>
    W (snd (rdbi_handle t req resp w))"
proof -
  let ?b = "put 0 [0x62 :: u8]"
  have "take 1 (?b resp) = take 1 (?b resp')" by (simp add: put_def)
  then have "same_reply (fst (rdbi_loop t (drop 1 req) (?b resp) 1 w))
        (fst (rdbi_loop t (drop 1 req) (?b resp') 1 w)) \<and>
      snd (rdbi_loop t (drop 1 req) (?b resp) 1 w) = snd (rdbi_loop t (drop 1 req) (?b resp') 1 w) \<and>
      W (snd (rdbi_loop t (drop 1 req) (?b resp) 1 w))"
    by (intro rdbi_loop_blind) (use assms in \<open>simp_all add: length_put kMaxResp_def\<close>)
  then show ?thesis using assms(1) by (auto simp: rdbi_handle_def)
qed

lemma wdbi_blind:
  "same_reply (fst (wdbi_handle t req resp w)) (fst (wdbi_handle t req resp' w)) \<and>
    snd (wdbi_handle t req resp w) = snd (wdbi_handle t req resp' w)"
  by (simp add: wdbi_handle_def Let_def split: option.split prod.split bool.split)

lemma wdbi_keeps:
  assumes "W w" "\<forall>d \<in> set t. writer_keeps W d"
  shows "W (snd (wdbi_handle t req resp w))"
proof (cases "find_did (be16 (req ! 1) (req ! 2)) t")
  case (Some d)
  then have "writer_keeps W d" using assms(2) dids.lookup_key by blast
  then have "W (snd (f data w))" if "write_fn d = Some f" for f data
    using assms(1) that by (simp add: writer_keeps_def)
  with Some assms(1) show ?thesis
    by (simp add: wdbi_handle_def Let_def split_def split: option.split bool.split)
qed (simp add: wdbi_handle_def Let_def assms)

text \<open>The first four bytes are written by the handler, the rest by the callback.\<close>

lemma same_reply_part:
  assumes "length resp = kMaxResp" "length resp' = kMaxResp" "length bs = 4" "take n p = take n p'"
  shows "same_reply \<lparr>r_send = k, r_buf = take 4 (put 0 bs resp) @ p, r_len = 4 + n\<rparr>
    \<lparr>r_send = k, r_buf = take 4 (put 0 bs resp') @ p', r_len = 4 + n\<rparr>"
  using assms by (simp add: put_def kMaxResp_def)

lemma io_blind_handle:
  assumes "\<forall>e \<in> set t. io_ok e \<and> io_blind e" "length resp = kMaxResp" "length resp' = kMaxResp"
  shows "same_reply (fst (io_handle t session req resp w)) (fst (io_handle t session req resp' w)) \<and>
    snd (io_handle t session req resp w) = snd (io_handle t session req resp' w)"
proof (cases "length req < 4 \<or> find_io (be16 (req ! 1) (req ! 2)) t = None")
  case True
  then show ?thesis by (auto simp: io_handle_def Let_def)
next
  case False
  then obtain e where e: "find_io (be16 (req ! 1) (req ! 2)) t = Some e" by blast
  then have b: "io_blind e" using assms(1) io_controls.lookup_key by blast
  let ?d = "be16 (req ! 1) (req ! 2)"
  let ?b = "put 0 [0x6F, hi8 ?d, lo8 ?d, req ! 3]"
  let ?opt = "if length req > 4 then Some (drop 4 req) else None"
  obtain k p n v where c: "io_control e (req ! 3) ?opt (drop 4 (?b resp)) (kMaxResp - 4) w = (k, p, n, v)"
    by (metis prod_cases4)
  obtain k' p' n' v' where c': "io_control e (req ! 3) ?opt (drop 4 (?b resp')) (kMaxResp - 4) w = (k', p', n', v')"
    by (metis prod_cases4)
  have len: "length (drop 4 (?b resp)) = kMaxResp - 4" "length (drop 4 (?b resp')) = kMaxResp - 4"
    using assms(2,3) by (simp_all add: length_put kMaxResp_def)
  have "same_try (k, p, n, v) (k', p', n', v')"
    using b [unfolded io_blind_def, rule_format, of "drop 4 (?b resp)" "drop 4 (?b resp')" "req ! 3" ?opt w]
      len c c' by simp
  then show ?thesis
    using False e c c' assms(2,3) same_reply_part [of resp resp' "[0x6F, hi8 ?d, lo8 ?d, req ! 3]" n p p' True]
    by (auto simp: io_handle_def Let_def same_try_def kMaxResp_def)
qed

lemma routine_answer_blind:
  assumes "routine_fn_blind f" "length resp = kMaxResp" "length resp' = kMaxResp" "length bs = 4"
  shows "same_reply (fst (routine_answer (put 0 bs resp) (f (drop 4 (put 0 bs resp)) w)))
      (fst (routine_answer (put 0 bs resp') (f (drop 4 (put 0 bs resp')) w))) \<and>
    snd (routine_answer (put 0 bs resp) (f (drop 4 (put 0 bs resp)) w)) =
      snd (routine_answer (put 0 bs resp') (f (drop 4 (put 0 bs resp')) w))"
proof -
  let ?p = "drop 4 (put 0 bs resp)" and ?p' = "drop 4 (put 0 bs resp')"
  have len: "length ?p = kMaxResp - 4" "length ?p' = kMaxResp - 4"
    using assms(2-4) by (simp_all add: length_put kMaxResp_def)
  obtain k p n v where c: "f ?p w = (k, p, n, v)" by (metis prod_cases4)
  obtain k' p' n' v' where c': "f ?p' w = (k', p', n', v')" by (metis prod_cases4)
  have "same_try (k, p, n, v) (k', p', n', v')"
    using assms(1) len c c' unfolding routine_fn_blind_def by metis
  with c c' same_reply_part [OF assms(2-4), of n p p' True] show ?thesis
    by (auto simp: routine_answer_def Let_def same_try_def)
qed

lemma routine_blind_handle:
  assumes "\<forall>e \<in> set t. routine_ok e \<and> routine_blind e" "length resp = kMaxResp" "length resp' = kMaxResp"
  shows "same_reply (fst (routine_handle t session req resp w))
      (fst (routine_handle t session req resp' w)) \<and>
    snd (routine_handle t session req resp w) = snd (routine_handle t session req resp' w)"
proof (cases "find_routine (be16 (req ! 2) (req ! 3)) t")
  case None
  then show ?thesis by (simp add: routine_handle_def Let_def)
next
  case (Some e)
  then have b: "routine_blind e" using assms(1) routines.lookup_key by blast
  let ?bs = "[0x71, req ! 1, hi8 (be16 (req ! 2) (req ! 3)), lo8 (be16 (req ! 2) (req ! 3))]"
  let ?opt = "if length req > 4 then Some (drop 4 req) else None"
  note a = routine_answer_blind [OF _ assms(2,3), of _ ?bs w, simplified]
  show ?thesis
    using Some b a unfolding routine_handle_def Let_def routine_blind_def
    by (auto split: option.split)
qed

section \<open>Memory services\<close>

lemma same_reply_part1:
  assumes "length resp = kMaxResp" "length resp' = kMaxResp" "take n p = take n p'"
  shows "same_reply \<lparr>r_send = k, r_buf = take 1 (put 0 [b] resp) @ p, r_len = 1 + n\<rparr>
    \<lparr>r_send = k, r_buf = take 1 (put 0 [b] resp') @ p', r_len = 1 + n\<rparr>"
  using assms by (simp add: put_def kMaxResp_def)

lemma read_memory_blind:
  assumes "read_cb_ok cb \<and> read_cb_blind cb" "length resp = kMaxResp" "length resp' = kMaxResp"
  shows "same_reply (fst (read_memory_handle cb req resp w)) (fst (read_memory_handle cb req resp' w)) \<and>
    snd (read_memory_handle cb req resp w) = snd (read_memory_handle cb req resp' w)"
proof -
  define addr_len where "addr_len = low_nibble (req ! 1)"
  define mem_len where "mem_len = high_nibble (req ! 1)"
  define address where "address = parse_be (take addr_len (drop 2 req))"
  define mem_size where "mem_size = unat (parse_be (take mem_len (drop (2 + addr_len) req)))"
  note h = read_memory_handle_def [of cb req _ w, unfolded Let_def, folded addr_len_def mem_len_def,
      folded address_def mem_size_def]
  let ?p = "drop 1 (put 0 [0x63] resp)" and ?p' = "drop 1 (put 0 [0x63] resp')"
  have len: "length ?p = kMaxResp - 1" "length ?p' = kMaxResp - 1"
    using assms(2,3) by (simp_all add: length_put kMaxResp_def)
  show ?thesis
  proof (cases "\<exists>f. cb = Some f \<and> mem_size \<le> kMaxResp - 1")
    case True
    then obtain f where f: "cb = Some f" "mem_size \<le> kMaxResp - 1" by blast
    obtain n p v where c: "f address ?p mem_size w = (n, p, v)" by (metis prod_cases3)
    obtain n' p' v' where c': "f address ?p' mem_size w = (n', p', v')" by (metis prod_cases3)
    have "same_fill (n, p, v) (n', p', v')"
      using assms(1) f len c c' unfolding read_cb_blind_def by metis
    then have "n' = n" "v' = v" "take n p = take n p'" by (auto simp: same_fill_def)
    with f c c' show ?thesis
      using same_reply_part1 [OF assms(2,3), of n p p' True "0x63"] assms(2,3)
      unfolding h by simp
  next
    case False
    then have "cb = None \<or> mem_size > kMaxResp - 1" by (cases cb) auto
    then show ?thesis using assms(2,3) unfolding h by (auto simp: kMaxResp_def)
  qed
qed

lemma write_memory_blind:
  "same_reply (fst (write_memory_handle cb req resp w)) (fst (write_memory_handle cb req resp' w)) \<and>
    snd (write_memory_handle cb req resp w) = snd (write_memory_handle cb req resp' w)"
  by (simp add: write_memory_handle_def Let_def split: prod.split)

lemma transfer_exit_call:
  assumes "length resp = kMaxResp" "param = (if length req > 1 then Some (drop 1 req) else None)"
  shows "transfer_exit_handle (Some f) req resp (dl, td, w) =
    (if \<not> dl then (nrc_reply RequestTransferExit RequestSequenceError resp, dl, td, w)
     else case f param (drop 1 (put 0 [0x77] resp)) (kMaxResp - 1) w of
       (ok, part, n, w) \<Rightarrow>
         if \<not> ok then (nrc_reply RequestTransferExit GeneralProgrammingFailure
           (take 1 (put 0 [0x77] resp) @ part), dl, td, w)
         else (\<lparr>r_send = True, r_buf = take 1 (put 0 [0x77] resp) @ part, r_len = 1 + n\<rparr>,
           False, td_reset td, w))"
proof -
  have "size_sub (length (put 0 [0x77] resp)) 1 = kMaxResp - 1"
    using assms(1) by (simp add: length_put kMaxResp_def)
  moreover have "sid_byte RequestTransferExit + 0x40 = 0x77" by simp
  ultimately show ?thesis
    unfolding transfer_exit_handle_def Let_def by (simp only: assms(2) [symmetric] prod.case option.case)
qed

lemma transfer_exit_blind:
  assumes "exit_cb_ok cb \<and> exit_cb_blind cb" "length resp = kMaxResp" "length resp' = kMaxResp"
  shows "same_reply (fst (transfer_exit_handle cb req resp s)) (fst (transfer_exit_handle cb req resp' s)) \<and>
    snd (transfer_exit_handle cb req resp s) = snd (transfer_exit_handle cb req resp' s)"
proof -
  obtain dl td w where s: "s = (dl, td, w)" by (cases s)
  let ?p = "drop 1 (put 0 [0x77] resp)" and ?p' = "drop 1 (put 0 [0x77] resp')"
  define param where "param = (if length req > 1 then Some (drop 1 req) else None)"
  have len: "length ?p = kMaxResp - 1" "length ?p' = kMaxResp - 1"
    using assms(2,3) by (simp_all add: length_put kMaxResp_def)
  show ?thesis
  proof (cases cb)
    case None
    then show ?thesis by (simp add: s transfer_exit_handle_def Let_def put_def)
  next
    case (Some f)
    obtain k p n v where c: "f param ?p (kMaxResp - 1) w = (k, p, n, v)" by (metis prod_cases4)
    obtain k' p' n' v' where c': "f param ?p' (kMaxResp - 1) w = (k', p', n', v')" by (metis prod_cases4)
    have "same_try (k, p, n, v) (k', p', n', v')"
      using assms(1) Some len c c' unfolding exit_cb_blind_def by metis
    then have same: "k' = k" "v' = v" "k \<Longrightarrow> n' = n" "k \<Longrightarrow> take n p = take n p'"
      by (auto simp: same_try_def)
    show ?thesis
      unfolding s Some transfer_exit_call [OF assms(2) param_def]
        transfer_exit_call [OF assms(3) param_def] c c' prod.case
      using same same_reply_part1 [OF assms(2,3), of n p p' True "0x77"]
      by (simp del: same_reply_raw One_nat_def)
  qed
qed

section \<open>Security access and trouble codes\<close>

lemma security_blind:
  "same_reply (fst (security_handle session req resp s)) (fst (security_handle session req resp' s)) \<and>
    snd (security_handle session req resp s) = snd (security_handle session req resp' s)"
  by (cases s)
    (simp add: security_handle_def request_seed_def send_key_def Let_def split: option.split prod.split)

lemma read_dtc_blind:
  assumes "length resp = kMaxResp" "length resp' = kMaxResp"
  shows "same_reply (fst (read_dtc_handle req resp m)) (fst (read_dtc_handle req resp' m)) \<and>
    snd (read_dtc_handle req resp m) = snd (read_dtc_handle req resp' m)"
proof -
  consider "length req < 3 \<or> req ! 1 \<noteq> 0x01 \<and> req ! 1 \<noteq> 0x02 \<and> req ! 1 \<noteq> 0x0A"
    | "3 \<le> length req" "req ! 1 = 0x02 \<or> req ! 1 = 0x0A" | "3 \<le> length req" "req ! 1 = 0x01" by fastforce
  then show ?thesis
  proof cases
    case 1
    then show ?thesis by (auto simp: read_dtc_handle_def Let_def)
  next
    case 2
    show ?thesis
      using report_reply [OF 2, of resp m] report_reply [OF 2, of resp' m] assms
      by (simp add: kMaxResp_def Let_def put_def)
  next
    case 3
    show ?thesis
      using count_reply [OF 3, of resp m] count_reply [OF 3, of resp' m] assms
      by (simp add: kMaxResp_def Let_def put_def)
  qed
qed

section \<open>The twenty services\<close>

lemma dsc_blind_handle:
  "same_reply (fst (dsc_handle cb req resp s)) (fst (dsc_handle cb req resp' s)) \<and>
    snd (dsc_handle cb req resp s) = snd (dsc_handle cb req resp' s)"
  by (cases s) (simp add: dsc_handle_def Let_def split: prod.split bool.split)

interpretation dsc_blind: blind_service DiagnosticSessionControl "\<lambda>_. True" "dsc_handle cb"
  for cb :: "(SessionType \<Rightarrow> SessionType \<Rightarrow> 'w \<Rightarrow> 'w) option"
  by unfold_locales (rule dsc_blind_handle)

interpretation ecu_reset_blind: blind_service EcuReset "\<lambda>_. True" "ecu_reset_handle cb"
  for cb :: "(ResetType \<Rightarrow> 'w \<Rightarrow> 'w) option"
  by unfold_locales (auto simp: ecu_reset_handle_def Let_def)

interpretation tester_present_blind: blind_service TesterPresent "\<lambda>_. True" tester_present_handle
  by unfold_locales (auto simp: tester_present_handle_def Let_def)

interpretation comm_control_blind: blind_service CommunicationControl "\<lambda>_. True"
  "comm_control_handle cb session"
  for cb :: "(u8 \<Rightarrow> u8 \<Rightarrow> 'w \<Rightarrow> 'w) option" and session :: "'v uds_session"
  by unfold_locales (auto simp: comm_control_handle_def Let_def)

interpretation control_dtc_blind: blind_service ControlDtcSetting "\<lambda>_. True"
  "control_dtc_handle cb session"
  for cb :: "(u8 \<Rightarrow> u8 list option \<Rightarrow> 'w \<Rightarrow> 'w) option" and session :: "'v uds_session"
  by unfold_locales (auto simp: control_dtc_handle_def Let_def)

interpretation link_control_blind: blind_service LinkControl "\<lambda>_. True" "link_control_handle cb session"
  for cb :: "(u32 \<Rightarrow> 'w \<Rightarrow> 'w) option" and session :: "'v uds_session"
  by unfold_locales (auto simp: link_control_handle_def Let_def)

interpretation roe_blind: blind_service ResponseOnEvent "\<lambda>_. True" roe_handle
  by unfold_locales (auto simp: roe_handle_def Let_def)

interpretation rdbi_blind: blind_service ReadDataByIdentifier
  "\<lambda>(t, w). W w \<and> (\<forall>d \<in> set t. reader_ok d \<and> reader_blind W d)"
  "\<lambda>req resp (t, w). case rdbi_handle t req resp w of (r, w') \<Rightarrow> (r, (t, w'))"
  for W :: "'w \<Rightarrow> bool"
proof (rule blind_state_service)
  fix t :: "'w data_identifier list" and req resp resp' :: "u8 list" and w
  assume *: "W w \<and> (\<forall>d \<in> set t. reader_ok d \<and> reader_blind W d)" "length resp = kMaxResp"
  then show "reply_wf kMaxResp ReadDataByIdentifier (fst (rdbi_handle t req resp w))"
    by (intro rdbi_wf) simp_all
  from rdbi_blind [OF *, of resp req] * show "W (snd (rdbi_handle t req resp w)) \<and>
      (\<forall>d \<in> set t. reader_ok d \<and> reader_blind W d)" by simp
  show "same_reply (fst (rdbi_handle t req resp w)) (fst (rdbi_handle t req resp' w)) \<and>
      snd (rdbi_handle t req resp w) = snd (rdbi_handle t req resp' w)" if "length resp' = kMaxResp"
    using rdbi_blind [OF * that] by simp
qed

interpretation wdbi_blind: blind_service WriteDataByIdentifier
  "\<lambda>(t, w). W w \<and> (\<forall>d \<in> set t. writer_keeps W d)"
  "\<lambda>req resp (t, w). case wdbi_handle t req resp w of (r, w') \<Rightarrow> (r, (t, w'))"
  for W :: "'w \<Rightarrow> bool"
  by (rule blind_state_service) (auto simp: wdbi_wf wdbi_blind wdbi_keeps)

interpretation io_blind: blind_service InputOutputControlByIdentifier
  "\<lambda>(t, w). \<forall>e \<in> set t. io_ok e \<and> io_blind e"
  "\<lambda>req resp (t, w). case io_handle t session req resp w of (r, w') \<Rightarrow> (r, (t, w'))"
  for session :: "'v uds_session"
  by (rule blind_table_service [OF io_wf io_blind_handle]) auto

interpretation routine_blind: blind_service RoutineControl
  "\<lambda>(t, w). \<forall>e \<in> set t. routine_ok e \<and> routine_blind e"
  "\<lambda>req resp (t, w). case routine_handle t session req resp w of (r, w') \<Rightarrow> (r, (t, w'))"
  for session :: "'v uds_session"
  by (rule blind_table_service [OF routine_wf routine_blind_handle]) auto

interpretation read_memory_blind: blind_service ReadMemoryByAddress
  "\<lambda>(cb, w). read_cb_ok cb \<and> read_cb_blind cb"
  "\<lambda>req resp (cb, w). case read_memory_handle cb req resp w of (r, w') \<Rightarrow> (r, (cb, w'))"
  by (rule blind_table_service [OF read_memory_wf read_memory_blind]) auto

interpretation write_memory_blind: blind_service WriteMemoryByAddress "\<lambda>(cb, w). True"
  "\<lambda>req resp (cb, w). case write_memory_handle cb req resp w of (r, w') \<Rightarrow> (r, (cb, w'))"
  by (rule blind_table_service [OF write_memory_wf write_memory_blind])

interpretation request_download_blind: blind_service RequestDownload "\<lambda>_. True"
  "request_download_handle cb session"
  for cb :: "'w accept_fn option" and session :: "'v uds_session"
  by unfold_locales (auto simp: request_download_handle_def split: prod.split)

interpretation request_upload_blind: blind_service RequestUpload "\<lambda>_. True" "request_upload_handle cb"
  for cb :: "'w accept_fn option"
  by unfold_locales (auto simp: request_upload_handle_def split: prod.split)

interpretation transfer_data_blind: blind_service TransferData "\<lambda>_. True" "transfer_data_handle cb"
  for cb :: "(u8 \<Rightarrow> u8 list \<Rightarrow> 'w \<Rightarrow> bool \<times> 'w) option"
  by unfold_locales (auto simp: transfer_data_handle_def Let_def split: prod.split)

interpretation transfer_exit_blind: blind_service RequestTransferExit
  "\<lambda>(cb, _). exit_cb_ok cb \<and> exit_cb_blind cb"
  "\<lambda>req resp (cb, s). case transfer_exit_handle cb req resp s of (r, s') \<Rightarrow> (r, (cb, s'))"
  by (rule blind_table_service [OF _ transfer_exit_blind]) (metis transfer_exit_wf prod_cases3)+

interpretation security_blind: blind_service SecurityAccess "\<lambda>(s, w). security_inv s"
  "security_handle session"
  for session :: "'v uds_session"
  by unfold_locales (rule security_blind)

interpretation read_dtc_blind: blind_service ReadDtcInformation dtc_inv read_dtc_handle
  by unfold_locales (rule read_dtc_blind)

interpretation clear_dtc_blind: blind_service ClearDiagnosticInformation dtc_inv clear_dtc_handle
  by unfold_locales (auto simp: clear_dtc_handle_def Let_def)

end
