(* ===== verification/Security_Props.thy ===== *)
theory Security_Props
  imports Security_Access
begin

text \<open>
  What SecurityAccess guarantees over histories of requests and timer updates: a level is
  opened by the key of the pending seed only, the number of keys that can be tried in a given
  time is bounded while the tick does not wrap, and an opened level is never closed again.
\<close>

section \<open>Opening a level\<close>

text \<open>
  The seed the tester still has to answer: the one of the last seed reply, unless a key was
  tested since.
\<close>

definition pending_step ::
    "u8 \<Rightarrow> u8 list option \<Rightarrow> 'v sec_event \<times> reply option \<Rightarrow> u8 list option" where
  "pending_step L p x =
     (case x of
        (Sec_request session req, Some r) \<Rightarrow>
          if tested_key L req r then None
          else if 2 \<le> length req \<and> req ! 1 = L \<and> positive_reply SecurityAccess r
          then Some (drop 2 (reply_bytes r))
          else p
      | _ \<Rightarrow> p)"

definition pending_seed :: "u8 \<Rightarrow> ('v sec_event \<times> reply option) list \<Rightarrow> u8 list option" where
  "pending_seed L log = foldl (pending_step L) None log"

lemma pending_seed_snoc [simp]:
  "pending_seed L [] = None"
  "pending_seed L (log @ [x]) = pending_step L (pending_seed L log) x"
  by (simp_all add: pending_seed_def)

text \<open>Some request of the log carried a valid key for the seed that was pending then.\<close>

definition opened_by_key ::
    "(u8 list \<Rightarrow> u8 list \<Rightarrow> bool) \<Rightarrow> u8 \<Rightarrow> SessionType \<Rightarrow> ('v sec_event \<times> reply option) list \<Rightarrow> bool" where
  "opened_by_key valid L required log \<longleftrightarrow>
     (\<exists>pre session req r post seed. log = pre @ (Sec_request session req, r) # post \<and>
        2 \<le> length req \<and> req ! 1 = L + 1 \<and> m_session session = required \<and>
        pending_seed L pre = Some seed \<and> valid seed (drop 2 req))"

lemma opened_by_key_snoc: "opened_by_key valid L required log \<Longrightarrow> opened_by_key valid L required (log @ [x])"
  unfolding opened_by_key_def by (metis append.assoc append_Cons)

text \<open>A level whose key check depends on the seed bytes and the key only.\<close>

locale seed_key_scheme =
  fixes cfg :: "'w security_level"
    and valid :: "u8 list \<Rightarrow> u8 list \<Rightarrow> bool"
  assumes verify_valid: "fst (verify_key cfg seed n key w) = valid (take n seed) key"
begin

lemma unlocked_by_key:
  assumes "sl_level cfg = L" "L AND 1 \<noteq> 0" "sec_level L s0 = Some (fresh_level cfg)"
    and "sec_run resp es (s0, w0) = (log, s, w)" "is_unlocked L s"
  shows "opened_by_key valid L (sl_required_session cfg) log"
proof -
  let ?ok = "opened_by_key valid L (sl_required_session cfg)"
  let ?P = "\<lambda>log (s :: 'w security) l. ls_cfg l = cfg \<and>
    (if unlocked l then \<not> seed_sent l \<and> ?ok log
     else seed_sent l \<longrightarrow> pending_seed L log = Some (take (ls_seed_len l) (ls_seed l)))"
  have "\<exists>l. sec_level L s = Some l \<and> ?P log s l"
    using assms(2,4,3)
  proof (induction rule: sec_run_induct)
    case start
    then show ?case by (simp add: fresh_level_def)
  next
    case (update log s l t)
    then show ?case by (auto simp: pending_step_def intro: opened_by_key_snoc)
  next
    case (quiet log s l s' session req r)
    then show ?case by (auto simp: pending_step_def intro: opened_by_key_snoc)
  next
    case (seed log s l s' session req r n sd w w')
    then have "positive_reply SecurityAccess r" by (simp add: positive_reply_def)
    with seed show ?case by (auto simp: pending_step_def)
  next
    case (good log s l s' session req r w)
    then have "\<not> unlocked l" and p: "pending_seed L log = Some (take (ls_seed_len l) (ls_seed l))"
      by (auto split: if_splits)
    moreover have "valid (take (ls_seed_len l) (ls_seed l)) (drop 2 req)"
      using good verify_valid [of "ls_seed l" "ls_seed_len l" "drop 2 req" w] by simp
    ultimately have "?ok (log @ [(Sec_request session req, Some r)])"
      using good unfolding opened_by_key_def by blast
    with good show ?case by simp
  next
    case (bad log s l s' session req r x)
    then show ?case by (auto split: if_splits)
  qed
  with assms(5) show ?thesis by (auto simp: is_unlocked_level)
qed

end

text \<open>The level of the example: XOR seeds and keys, the generator state as environment.\<close>

definition xor_level :: "u8 \<Rightarrow> u32 \<Rightarrow> SessionType \<Rightarrow> u32 security_level" where
  "xor_level level secret_mask required =
     \<lparr>sl_level = level, sl_seed_len = 4, generate_seed = xor_generate_seed,
      verify_key = (\<lambda>seed n key lfsr. (xor_verify_key (Some secret_mask) (take n seed) key, lfsr)),
      sl_required_session = required\<rparr>"

interpretation xor: seed_key_scheme "xor_level L secret_mask required"
  "xor_verify_key (Some secret_mask)" for L :: u8 and secret_mask :: u32 and required :: SessionType
  by unfold_locales (simp add: xor_level_def)


text \<open>
  C10. A level is opened by the key of a seed it issued and by nothing else: with the XOR
  scheme, if a newly registered level is open after any history of requests and timer
  updates, then some request of the history was made in the session the level requires and
  carried the XOR of the mask with the seed that was pending at that point, issued by an
  earlier reply and not used up by another attempt in between.
\<close>

theorem unlock_needs_key:
  assumes "L AND 1 \<noteq> 0" "sec_level L s0 = Some (fresh_level (xor_level L secret_mask required))"
    and "sec_run resp es (s0, w0) = (log, s, w)" "is_unlocked L s"
  shows "\<exists>pre session req r post seed. log = pre @ (Sec_request session req, r) # post \<and>
    2 \<le> length req \<and> req ! 1 = L + 1 \<and> m_session session = required \<and>
    pending_seed L pre = Some seed \<and> length seed = 4 \<and> drop 2 req = xor_key secret_mask seed"
proof -
  have c: "sl_level (xor_level L secret_mask required) = L"
    "sl_required_session (xor_level L secret_mask required) = required"
    by (simp_all add: xor_level_def)
  from xor.unlocked_by_key [OF c(1) assms] show ?thesis
    unfolding c(2) opened_by_key_def xor_verify_key_iff by blast
qed

text \<open>The example of \<open>main.cpp\<close>: level 1 in the extended session, after its registration.\<close>

abbreviation demo_security :: "u32 security" where
  "demo_security \<equiv> snd (register_level (xor_level 1 0xDEAD1234 Extended) security_new)"

abbreviation extended :: "unit uds_session" where
  "extended \<equiv> (session_new kDefaultTiming)\<lparr>m_session := Extended\<rparr>"

text \<open>A seed request and the key of the first seed of the generator.\<close>

abbreviation demo_unlock :: "unit sec_event list" where
  "demo_unlock \<equiv>
     [Sec_update 5, Sec_request extended [0x27, 1],
      Sec_request extended ([0x27, 2] @ xor_key 0xDEAD1234 (word_bytes (xorshift32 lfsr_static_init)))]"

theorem unlock_needs_key_witness:
  "let (log, s, w) = sec_run (replicate 16 0) demo_unlock (demo_security, lfsr_static_init) in
     is_unlocked 1 s \<and>
     (\<exists>pre session req r post seed. log = pre @ (Sec_request session req, r) # post \<and>
        2 \<le> length req \<and> req ! 1 = 1 + 1 \<and> m_session session = Extended \<and>
        pending_seed 1 pre = Some seed \<and> length seed = 4 \<and> drop 2 req = xor_key 0xDEAD1234 seed)"
proof -
  obtain log s w where run:
    "sec_run (replicate 16 0) demo_unlock (demo_security, lfsr_static_init) = (log, s, w)"
    by (metis prod_cases3)
  have "is_unlocked 1 (fst (snd (sec_run (replicate 16 0) demo_unlock (demo_security, lfsr_static_init))))"
    by code_simp
  then have u: "is_unlocked 1 s" by (simp only: run fst_conv snd_conv)
  have l: "sec_level 1 demo_security = Some (fresh_level (xor_level 1 0xDEAD1234 Extended))"
    by (simp add: sec_level_def register_level_def security_new_def kMaxSecurityLevels_def
        level_of_def fresh_level_def xor_level_def)
  have "(1 :: u8) AND 1 \<noteq> 0" by simp
  from unlock_needs_key [OF this l run u] u show ?thesis by (simp only: run Let_def split)
qed

text \<open>
  C25. An open level stays open: no request, no change of session and no timer update closes it,
  in particular not the return to the default session.
\<close>

theorem unlocked_for_good:
  assumes "L AND 1 \<noteq> 0" "is_unlocked L s0" "sec_run resp es (s0, w0) = (log, s, w)"
  shows "is_unlocked L s"
proof -
  obtain l0 where l0: "sec_level L s0 = Some l0" and u: "unlocked l0"
    using assms(2) by (auto simp: is_unlocked_level)
  have "\<exists>l. sec_level L s = Some l \<and> unlocked l"
    using assms(1,3) l0
    by (induction rule: sec_run_induct [where P = "\<lambda>_ _. unlocked"]) (simp_all add: u)
  then show ?thesis by (auto simp: is_unlocked_level)
qed

theorem unlocked_for_good_witness:
  "let (log0, s0, w0) = sec_run (replicate 16 0) demo_unlock (demo_security, lfsr_static_init);
       (log, s, w) = sec_run (replicate 16 0)
         [Sec_update 6000, Sec_request (session_new kDefaultTiming :: unit uds_session) [0x27, 1]]
         (s0, w0)
   in is_unlocked 1 s"
proof -
  obtain log0 s0 w0 where run0:
    "sec_run (replicate 16 0) demo_unlock (demo_security, lfsr_static_init) = (log0, s0, w0)"
    by (metis prod_cases3)
  have "is_unlocked 1 (fst (snd (sec_run (replicate 16 0) demo_unlock (demo_security, lfsr_static_init))))"
    by code_simp
  then have u: "is_unlocked 1 s0" by (simp only: run0 fst_conv snd_conv)
  obtain log s w where run: "sec_run (replicate 16 0)
      [Sec_update 6000, Sec_request (session_new kDefaultTiming :: unit uds_session) [0x27, 1]]
      (s0, w0) = (log, s, w)"
    by (metis prod_cases3)
  have "(1 :: u8) AND 1 \<noteq> 0" by simp
  from unlocked_for_good [OF this u run] show ?thesis by (simp only: run0 run Let_def split)
qed

section \<open>Guessing keys\<close>

lemma tick_security_update [simp]: "sa_current_tick (security_update t s) = t"
  by (simp add: security_update_def)

definition sec_ticks :: "'v sec_event list \<Rightarrow> nat list" where
  "sec_ticks es = concat (map (\<lambda>e. case e of Sec_update t \<Rightarrow> [unat t] | _ \<Rightarrow> []) es)"

definition log_failures :: "u8 \<Rightarrow> ('v sec_event \<times> reply option) list \<Rightarrow> nat" where
  "log_failures L log =
     length (filter (\<lambda>x. case x of (Sec_request session req, Some r) \<Rightarrow> failed_key L req r | _ \<Rightarrow> False) log)"

lemma sec_ticks_snoc [simp]:
  "sec_ticks [] = []" "sec_ticks (es @ [Sec_update t]) = sec_ticks es @ [unat t]"
  "sec_ticks (es @ [Sec_request session req]) = sec_ticks es"
  by (simp_all add: sec_ticks_def)

lemma log_failures_snoc [simp]:
  "log_failures L [] = 0" "log_failures L (log @ [(Sec_update t, None)]) = log_failures L log"
  "log_failures L (log @ [(Sec_request session req, Some r)]) =
     log_failures L log + (if failed_key L req r then 1 else 0)"
  by (simp_all add: log_failures_def)

lemma sec_run_events: "sec_run resp es sw = (log, sw') \<Longrightarrow> map fst log = es"
  by (induction es arbitrary: sw log) (auto split: prod.splits)

text \<open>
  The ghost \<open>n\<close> counts the delays that are over since tick \<open>T\<close>; \<open>F\<close> keys failed, \<open>f\<close> is the
  failure counter, \<open>u\<close> the end of a running delay and \<open>c\<close> the tick.
\<close>

definition guess_bound :: "nat \<Rightarrow> nat \<Rightarrow> nat \<Rightarrow> nat \<Rightarrow> nat \<Rightarrow> bool \<Rightarrow> bool \<Rightarrow> bool" where
  "guess_bound T F f u c up sent \<longleftrightarrow>
     (\<exists>n. T + 10000 * n \<le> c \<and> f \<le> 3 \<and> (f = 3 \<longrightarrow> 0 < u) \<and>
        (0 < u \<longrightarrow> T + 10000 * n + 10000 \<le> u \<and> c < u) \<and>
        (if up then F \<le> 3 * n + 3 \<and> \<not> sent else F \<le> 3 * n + f))"

lemma guess_bound_update:
  assumes "guess_bound T F f u c up sent" "c \<le> t"
  shows "if 0 < u \<and> u \<le> t then guess_bound T F 0 0 t up sent else guess_bound T F f u t up sent"
proof -
  obtain n where n: "T + 10000 * n \<le> c" "f \<le> 3" "f = 3 \<longrightarrow> 0 < u"
      "0 < u \<longrightarrow> T + 10000 * n + 10000 \<le> u \<and> c < u"
      "if up then F \<le> 3 * n + 3 \<and> \<not> sent else F \<le> 3 * n + f"
    using assms(1) unfolding guess_bound_def by blast
  show ?thesis
  proof (cases "0 < u \<and> u \<le> t")
    case True
    with n have "T + 10000 * (n + 1) \<le> t" "F \<le> 3 * (n + 1)" by (auto split: if_splits)
    with True n(5) show ?thesis
      unfolding guess_bound_def by (auto intro!: exI [of _ "n + 1"] split: if_splits)
  next
    case False
    with n assms(2) show ?thesis unfolding guess_bound_def by (auto intro!: exI [of _ n])
  qed
qed

lemma guess_bound_bad:
  assumes "guess_bound T F f u c up True" "u = 0 \<or> u \<le> c"
  shows "f < 3 \<and> guess_bound T (F + 1) (f + 1) (if f + 1 \<ge> 3 then c + 10000 else u) c up False"
proof -
  obtain n where n: "T + 10000 * n \<le> c" "f \<le> 3" "f = 3 \<longrightarrow> 0 < u"
      "0 < u \<longrightarrow> T + 10000 * n + 10000 \<le> u \<and> c < u"
      "if up then F \<le> 3 * n + 3 \<and> \<not> True else F \<le> 3 * n + f"
    using assms(1) unfolding guess_bound_def by blast
  then have u: "u = 0" "f < 3" "\<not> up" "F \<le> 3 * n + f" using assms(2) by (auto split: if_splits)
  with n(1) show ?thesis unfolding guess_bound_def by (intro conjI exI [of _ n]) auto
qed

lemma guess_bound_sent: "guess_bound T F f u c False sent \<Longrightarrow> guess_bound T F f u c False sent'"
  by (simp add: guess_bound_def)

lemma guess_bound_good: "guess_bound T F f u c up sent \<Longrightarrow> guess_bound T F 0 u c True False"
  unfolding guess_bound_def by (elim exE, rule exI) (auto split: if_splits)

definition guess_inv :: "nat \<Rightarrow> nat \<Rightarrow> 'w security \<Rightarrow> 'w level_state \<Rightarrow> bool" where
  "guess_inv T F s l \<longleftrightarrow>
     guess_bound T F (unat (fail_count l)) (unat (locked_until l)) (unat (sa_current_tick s))
       (unlocked l) (seed_sent l)"

lemma guess_update:
  assumes "guess_inv T F s l" "unat (sa_current_tick s) \<le> unat t"
  shows "guess_inv T F (security_update t s) (level_update t l)"
  using guess_bound_update [OF assms [unfolded guess_inv_def]]
  by (auto simp: guess_inv_def level_update_def security_update_def word_less_nat_alt
      word_le_nat_alt split: if_splits)

lemma guess_bad:
  assumes "guess_inv T F s l" "seed_sent l" "\<not> level_locked s l"
    and "unat (sa_current_tick s) + 10000 < 2 ^ 32" "sa_current_tick s' = sa_current_tick s"
    and "x = l\<lparr>fail_count := fail_count l + 1, seed_sent := False\<rparr>"
  shows "guess_inv T (F + 1) s' (if fail_count l + 1 \<ge> kMaxAttempts
    then x\<lparr>locked_until := sa_current_tick s + kDelayAfterFail\<rparr> else x)"
proof -
  have "unat (locked_until l) = 0 \<or> unat (locked_until l) \<le> unat (sa_current_tick s)"
    using assms(3) by (auto simp: level_locked_def word_less_nat_alt unat_eq_0)
  with guess_bound_bad [of T F "unat (fail_count l)" "unat (locked_until l)"
      "unat (sa_current_tick s)" "unlocked l"] assms(1,2)
  have f: "unat (fail_count l) < 3"
    and g: "guess_bound T (F + 1) (unat (fail_count l) + 1)
      (if unat (fail_count l) + 1 \<ge> 3 then unat (sa_current_tick s) + 10000 else unat (locked_until l))
      (unat (sa_current_tick s)) (unlocked l) False"
    unfolding guess_inv_def by simp_all
  have "unat (fail_count l + 1) = unat (fail_count l) + 1"
    using f by (simp add: unat_word_ariths)
  moreover have "unat (sa_current_tick s + kDelayAfterFail) = unat (sa_current_tick s) + 10000"
    using assms(4) by (simp add: unat_word_ariths kDelayAfterFail_def)
  ultimately show ?thesis
    using g assms(5,6)
    by (cases "fail_count l + 1 \<ge> kMaxAttempts")
      (simp_all add: guess_inv_def kMaxAttempts_def word_le_nat_alt)
qed

text \<open>The ticks of a run: they do not go back, and none is near the wrap.\<close>

abbreviation ticks_ok :: "nat \<Rightarrow> 'v sec_event list \<Rightarrow> bool" where
  "ticks_ok T es \<equiv> sorted (T # sec_ticks es) \<and> (\<forall>t \<in> set (T # sec_ticks es). t + 10000 < 2 ^ 32)"

lemma last_tick_le:
  "sorted (T # sec_ticks es @ [t]) \<Longrightarrow> last (T # sec_ticks es) \<le> t"
  by (auto simp: sorted_append split: if_splits)

lemma last_tick_early: "ticks_ok T es \<Longrightarrow> last (T # sec_ticks es) + 10000 < 2 ^ 32"
  using last_in_set [of "T # sec_ticks es"] by blast

lemma guess_inv_run:
  fixes cfg :: "'w security_level" and es :: "'v sec_event list"
  assumes "L AND 1 \<noteq> 0" "sec_run resp es (s0, w0) = (log, s, w)" "sec_level L s0 = Some (fresh_level cfg)"
  defines "T \<equiv> unat (sa_current_tick s0)"
  shows "\<exists>l. sec_level L s = Some l \<and> (ticks_ok T (map fst log) \<longrightarrow>
    unat (sa_current_tick s) = last (T # sec_ticks (map fst log)) \<and> guess_inv T (log_failures L log) s l)"
  using assms(1-3)
proof (induction rule: sec_run_induct)
  case start
  then show ?case by (simp add: T_def guess_inv_def guess_bound_def fresh_level_def)
next
  case (update log s l t)
  show ?case
  proof
    assume g: "ticks_ok T (map fst (log @ [(Sec_update t, None)]))"
    then have "ticks_ok T (map fst log)" by (simp add: sorted_append)
    with update have c: "unat (sa_current_tick s) = last (T # sec_ticks (map fst log))"
      and inv: "guess_inv T (log_failures L log) s l" by auto
    from c g last_tick_le [of T "map fst log" "unat t"] have "unat (sa_current_tick s) \<le> unat t" by simp
    from guess_update [OF inv this] show "unat (sa_current_tick (security_update t s)) =
        last (T # sec_ticks (map fst (log @ [(Sec_update t, None)]))) \<and>
        guess_inv T (log_failures L (log @ [(Sec_update t, None)])) (security_update t s) (level_update t l)"
      by simp
  qed
next
  case (quiet log s l s' session req r)
  then show ?case by (auto simp: tested_key_def guess_inv_def)
next
  case (seed log s l s' session req r n sd w w')
  then show ?case by (auto simp: tested_key_def guess_inv_def intro: guess_bound_sent)
next
  case (good log s l s' session req r w)
  then have "\<not> failed_key L req r" by (simp add: failed_key_def)
  with good guess_bound_good show ?case by (auto simp: guess_inv_def)
next
  case (bad log s l s' session req r x)
  then show ?case using guess_bad last_tick_early [of T "map fst log"] by fastforce
qed

text \<open>
  C11. Keys cannot be guessed quickly: while the tick does not go back and stays 10 seconds
  below its wrap, the number of wrong keys that are tested for a newly registered level is
  at most three for every started period of 10 seconds.
\<close>

theorem guesses_bounded:
  fixes cfg :: "'w security_level" and es :: "'v sec_event list"
  assumes "L AND 1 \<noteq> 0" "sec_level L s0 = Some (fresh_level cfg)"
    and "sec_run resp es (s0, w0) = (log, s, w)"
    and "sorted (unat (sa_current_tick s0) # sec_ticks es)"
    and "\<forall>t \<in> set (unat (sa_current_tick s0) # sec_ticks es). t + 10000 < 2 ^ 32"
  shows "log_failures L log \<le>
    3 * (1 + (unat (sa_current_tick s) - unat (sa_current_tick s0)) div 10000)"
proof -
  let ?T = "unat (sa_current_tick s0)"
  have "guess_inv ?T (log_failures L log) s (the (sec_level L s))"
    using guess_inv_run [OF assms(1,3,2)] sec_run_events [OF assms(3)] assms(4,5) by auto
  then obtain n where "?T + 10000 * n \<le> unat (sa_current_tick s)" "log_failures L log \<le> 3 * n + 3"
    unfolding guess_inv_def guess_bound_def by (auto split: if_splits)
  moreover from this have "n \<le> (unat (sa_current_tick s) - ?T) div 10000"
    by (simp add: less_eq_div_iff_mult_less_eq)
  ultimately show ?thesis by simp
qed


abbreviation wrong_key :: "unit sec_event list" where
  "wrong_key \<equiv> [Sec_request extended [0x27, 1], Sec_request extended [0x27, 2, 0, 0, 0, 0]]"

text \<open>Two attempts with wrong keys at the same tick.\<close>

abbreviation demo_guesses :: "unit sec_event list" where
  "demo_guesses \<equiv> wrong_key @ wrong_key"

theorem guesses_bounded_witness:
  "let (log, s, w) = sec_run (replicate 16 0) demo_guesses (demo_security, lfsr_static_init)
   in log_failures 1 log \<le> 3 \<and> log_failures 1 log = 2"
proof -
  obtain log s w where run:
    "sec_run (replicate 16 0) demo_guesses (demo_security, lfsr_static_init) = (log, s, w)"
    by (metis prod_cases3)
  have "case sec_run (replicate 16 0) demo_guesses (demo_security, lfsr_static_init) of
      (log, s, w) \<Rightarrow> log_failures 1 log = 2 \<and> sa_current_tick s = 0"
    by code_simp
  then have f: "log_failures 1 log = 2" "sa_current_tick s = 0" by (simp_all only: run split)
  have l: "sec_level 1 demo_security = Some (fresh_level (xor_level 1 0xDEAD1234 Extended))"
    and t: "sa_current_tick demo_security = 0"
    by (simp_all add: sec_level_def register_level_def security_new_def kMaxSecurityLevels_def
        level_of_def fresh_level_def xor_level_def)
  have "(1 :: u8) AND 1 \<noteq> 0" by simp
  from guesses_bounded [OF this l run] f t show ?thesis
    by (simp only: run Let_def split) (simp add: sec_ticks_def)
qed

lemma no_delay_reply [simp]:
  "\<not> negative_reply SecurityAccess RequiredTimeDelayNotExpired (fst (request_seed L i l resp (s, w)))"
  "\<not> negative_reply SecurityAccess RequiredTimeDelayNotExpired (fst (send_key K i l key resp (s, w)))"
  by (auto simp: request_seed_def send_key_def Let_def split: prod.splits)

lemma exceeded_locks:
  assumes "L AND 1 \<noteq> 0" "sec_level L s = Some l"
    and "security_handle session req resp (s, w) = (r, s1, w1)" "2 \<le> length req" "req ! 1 = L + 1"
    and "negative_reply SecurityAccess ExceededNumberOfAttempts r"
  shows "\<exists>x. sec_level L s1 = Some x \<and> locked_until x = sa_current_tick s + kDelayAfterFail"
  using assms(3,2,1)
proof (cases rule: security_handle_cases)
  case quiet
  then show ?thesis using assms(4-6) by (simp add: tested_key_def failed_key_def)
next
  case seed
  then show ?thesis using assms(1,5) by simp
next
  case good
  then show ?thesis using assms(6) by simp
next
  case (bad y)
  then show ?thesis using assms(6) by simp
qed

lemma delayed_iff_locked:
  assumes "L AND 1 \<noteq> 0" "sec_level L s = Some y" "2 \<le> length req" "req ! 1 = L \<or> req ! 1 = L + 1"
  shows "negative_reply SecurityAccess RequiredTimeDelayNotExpired
      (fst (security_handle session req resp (s, w))) \<longleftrightarrow> level_locked s y"
proof -
  have sub: "seed_sub (req ! 1) = L" using assms(1,4) by auto
  obtain i where h: "security_handle session req resp (s, w) =
      (if level_locked s y then (nrc_reply SecurityAccess RequiredTimeDelayNotExpired resp, s, w)
       else if sl_required_session (ls_cfg y) \<noteq> m_session session
       then (nrc_reply SecurityAccess ServiceNotSupportedInActiveSession resp, s, w)
       else if req ! 1 = L then request_seed L i y resp (s, w)
       else send_key (L + 1) i y (drop 2 req) resp (s, w))"
    using security_handle_own [OF assms(1,3) sub assms(2), of session resp w] by blast
  show ?thesis unfolding h by simp
qed

text \<open>The delay as it is stored and compared: it is void when the sum wraps.\<close>

lemma delay_running_iff:
  assumes "T \<le> t"
  shows "T + kDelayAfterFail \<noteq> 0 \<and> t < T + kDelayAfterFail \<longleftrightarrow>
    unat T + 10000 < 2 ^ 32 \<and> unat t < unat T + 10000"
proof (cases "unat T + 10000 < 2 ^ 32")
  case True
  then have "unat (T + kDelayAfterFail) = unat T + 10000"
    by (simp add: unat_word_ariths kDelayAfterFail_def)
  then show ?thesis using True by (auto simp: word_less_nat_alt)
next
  case False
  then have "unat (T + kDelayAfterFail) = unat T + 10000 - 2 ^ 32"
    using unsigned_less [of T, where 'a = nat]
    by (simp add: unat_word_ariths kDelayAfterFail_def le_mod_geq)
  then show ?thesis
    using False assms unsigned_less [of T, where 'a = nat]
    by (auto simp: word_less_nat_alt word_le_nat_alt)
qed

text \<open>
  C24. The delay lasts exactly 10 seconds, unless the tick is about to wrap: after the key
  request that was answered with ExceededNumberOfAttempts at tick T and an update to a tick
  \<open>t \<ge> T\<close>, requests for the level are refused with RequiredTimeDelayNotExpired if and only if
  T + 10000 does not wrap and \<open>t < T + 10000\<close>. In the last 10 seconds before the wrap the
  lockout has no effect at all.
\<close>

theorem lockout_exact:
  assumes "L AND 1 \<noteq> 0" "sec_level L s = Some l"
    and "security_handle session req resp (s, w) = (r, s1, w1)" "2 \<le> length req" "req ! 1 = L + 1"
    and "negative_reply SecurityAccess ExceededNumberOfAttempts r"
    and "sa_current_tick s \<le> t" "2 \<le> length req'" "req' ! 1 = L \<or> req' ! 1 = L + 1"
    and "security_handle session' req' resp' (security_update t s1, w2) = (r', s2, w3)"
  shows "negative_reply SecurityAccess RequiredTimeDelayNotExpired r' \<longleftrightarrow>
    unat (sa_current_tick s) + 10000 < 2 ^ 32 \<and> unat t < unat (sa_current_tick s) + 10000"
proof -
  obtain x where x: "sec_level L s1 = Some x" "locked_until x = sa_current_tick s + kDelayAfterFail"
    using exceeded_locks [OF assms(1-6)] by blast
  define y where "y = level_update t x"
  have "sec_level L (security_update t s1) = Some y" using x(1) by (simp add: y_def)
  from delayed_iff_locked [OF assms(1) this assms(8,9), of session' resp' w2]
  have "negative_reply SecurityAccess RequiredTimeDelayNotExpired r' \<longleftrightarrow>
      level_locked (security_update t s1) y"
    using assms(10) by simp
  also have "\<dots> \<longleftrightarrow> sa_current_tick s + kDelayAfterFail \<noteq> 0 \<and> t < sa_current_tick s + kDelayAfterFail"
    using x(2) by (auto simp: level_locked_def y_def level_update_def security_update_def word_gt_0)
  also note delay_running_iff [OF assms(7)]
  finally show ?thesis .
qed

text \<open>After two wrong keys and a third seed request.\<close>

abbreviation demo_third :: "u32 security \<times> u32" where
  "demo_third \<equiv> (demo_security\<lparr>sa_active_level := 1, sa_levels :=
     [(fresh_level (xor_level 1 0xDEAD1234 Extended))\<lparr>ls_seed := [1, 2, 3, 4], ls_seed_len := 4,
        seed_sent := True, fail_count := 2\<rparr>]\<rparr>, 7)"

theorem lockout_exact_witness:
  "let (r, s1, w1) = security_handle extended [0x27, 2, 0, 0, 0, 0] (replicate 16 0) demo_third;
       (r1, s2, w2) = security_handle extended [0x27, 1] (replicate 16 0) (security_update 9999 s1, w1);
       (r2, s3, w3) = security_handle extended [0x27, 1] (replicate 16 0) (security_update 10000 s1, w1)
   in negative_reply SecurityAccess RequiredTimeDelayNotExpired r1 \<and>
      \<not> negative_reply SecurityAccess RequiredTimeDelayNotExpired r2"
proof -
  obtain s w where d: "demo_third = (s, w)" by fastforce
  obtain r s1 w1 where h: "security_handle extended [0x27, 2, 0, 0, 0, 0] (replicate 16 0) (s, w) =
      (r, s1, w1)" by (metis prod_cases3)
  obtain r1 s2 w2 where h1: "security_handle extended [0x27, 1] (replicate 16 0)
      (security_update 9999 s1, w1) = (r1, s2, w2)" by (metis prod_cases3)
  obtain r2 s3 w3 where h2: "security_handle extended [0x27, 1] (replicate 16 0)
      (security_update 10000 s1, w1) = (r2, s3, w3)" by (metis prod_cases3)
  have "case demo_third of (s, w) \<Rightarrow> sec_level 1 s \<noteq> None \<and> sa_current_tick s = 0 \<and>
      negative_reply SecurityAccess ExceededNumberOfAttempts
        (fst (security_handle extended [0x27, 2, 0, 0, 0, 0] (replicate 16 0) (s, w)))"
    by code_simp
  then have "sec_level 1 s \<noteq> None \<and> sa_current_tick s = 0 \<and>
      negative_reply SecurityAccess ExceededNumberOfAttempts r"
    by (simp only: d h split fst_conv) simp
  then obtain l where l: "sec_level 1 s = Some l" and t: "sa_current_tick s = 0"
    and n: "negative_reply SecurityAccess ExceededNumberOfAttempts r"
    by blast
  have req: "(1 :: u8) AND 1 \<noteq> 0" "2 \<le> length [0x27, 2, 0, 0, 0, 0 :: u8]"
    "[0x27, 2, 0, 0, 0, 0 :: u8] ! 1 = 1 + 1" "2 \<le> length [0x27, 1 :: u8]"
    "[0x27, 1 :: u8] ! 1 = 1 \<or> [0x27, 1 :: u8] ! 1 = 1 + 1" by simp_all
  note x = lockout_exact [OF req(1) l h req(2,3) n _ req(4,5)]
  from x [OF _ h1] x [OF _ h2] t show ?thesis by (simp only: d h h1 h2 Let_def split) simp
qed

end
