(* ===== verification/Can_Interface.thy ===== *)
theory Can_Interface
  imports Uds_Prelude
begin

text \<open>
  The CAN interface the transport layer is written against
  (\<open>include/uds/transport/can_interface.hpp\<close>): frames, and the interface \<open>ICanInterface\<close>
  whose methods the integrator provides. They are functions on the environment \<open>'w\<close>; a
  definition that talks to the bus takes them as the record \<open>can_if\<close>. Reading the tick
  does not change the environment. The optional \<open>on_idle\<close> hook is never called by the
  library and is left out.
\<close>

record can_frame =
  cf_id :: u32
  cf_data :: "u8 list"
  cf_dlc :: u8
  cf_extended :: bool

text \<open>\<open>CanFrame f{}\<close>: every field zero.\<close>

definition zero_frame :: can_frame where
  "zero_frame = \<lparr>cf_id = 0, cf_data = replicate 8 0, cf_dlc = 0, cf_extended = False\<rparr>"

text \<open>A frame of a classic CAN bus: the data array has eight bytes and \<open>dlc\<close> is at most 8.\<close>

definition classic_frame :: "can_frame \<Rightarrow> bool" where
  "classic_frame f \<longleftrightarrow> length (cf_data f) = 8 \<and> cf_dlc f \<le> 8"

record 'w can_if =
  can_send :: "can_frame \<Rightarrow> 'w \<Rightarrow> bool \<times> 'w"
  can_receive :: "'w \<Rightarrow> can_frame option \<times> 'w"
  can_tick :: "'w \<Rightarrow> u32"

text \<open>
  \<open>CanWithTimer\<close> (\<open>include/uds/hal/hal_can.hpp\<close>): a driver that takes its tick from another
  timer.
\<close>

definition can_with_timer :: "'w can_if \<Rightarrow> ('w \<Rightarrow> u32) \<Rightarrow> 'w can_if" where
  "can_with_timer can timer =
     \<lparr>can_send = can_send can, can_receive = can_receive can, can_tick = timer\<rparr>"

text \<open>
  \<open>StubCan\<close> of \<open>examples/stm32f4/main.cpp\<close>: the environment is the tick counter, every
  transmission is accepted and nothing is received.
\<close>

definition stub_can :: "u32 can_if" where
  "stub_can =
     \<lparr>can_send = (\<lambda>f w. (True, w)), can_receive = (\<lambda>w. (None, w)), can_tick = (\<lambda>w. w)\<rparr>"

definition stub_tick :: "u32 \<Rightarrow> u32" where
  "stub_tick w = w + 1"

section \<open>The traffic of a driver\<close>

text \<open>
  What the transport layer needs of a driver: an observation \<open>sent\<close> of the environment that
  grows by the frame when \<open>send\<close> reports success and stays when it reports failure.
\<close>

locale can_driver =
  fixes can :: "'w can_if"
    and sent :: "'w \<Rightarrow> can_frame list"
  assumes send_ok: "can_send can f w = (True, w') \<Longrightarrow> sent w' = sent w @ [f]"
    and send_failed: "can_send can f w = (False, w') \<Longrightarrow> sent w' = sent w"
begin

lemma sent_extends: "can_send can f w = (ok, w') \<Longrightarrow> \<exists>fs. sent w' = sent w @ fs \<and> set fs \<subseteq> {f}"
  by (cases ok) (auto dest: send_ok send_failed)

end

text \<open>A driver whose transmissions all succeed.\<close>

locale lossless_driver = can_driver +
  assumes accepts: "fst (can_send can f w)"
begin

lemma send_lossless: "\<exists>w'. can_send can f w = (True, w') \<and> sent w' = sent w @ [f]"
  using accepts [of f w] by (cases "can_send can f w") (auto dest: send_ok)

end

text \<open>
  Any driver at all, with the accepted frames recorded beside the environment: the record is
  a ghost that no code reads.
\<close>

definition logged :: "'w can_if \<Rightarrow> ('w \<times> can_frame list) can_if" where
  "logged can =
     \<lparr>can_send = (\<lambda>f (w, fs). let (ok, w') = can_send can f w in
                    (ok, (w', if ok then fs @ [f] else fs))),
      can_receive = (\<lambda>(w, fs). let (f, w') = can_receive can w in (f, (w', fs))),
      can_tick = (\<lambda>(w, fs). can_tick can w)\<rparr>"

lemma logged_send:
  "can_send (logged can) f (w, fs) =
     (fst (can_send can f w),
      (snd (can_send can f w), if fst (can_send can f w) then fs @ [f] else fs))"
  by (simp add: logged_def split_def Let_def)

lemma logged_tick [simp]: "can_tick (logged can) (w, fs) = can_tick can w"
  by (simp add: logged_def)

interpretation logged: can_driver "logged can" snd for can :: "'w can_if"
  by unfold_locales (auto simp: logged_def split_def Let_def)

interpretation timed: can_driver "can_with_timer (logged can) timer" snd
  for can :: "'w can_if" and timer :: "'w \<times> can_frame list \<Rightarrow> u32"
  by unfold_locales (auto simp: can_with_timer_def dest: logged.send_ok logged.send_failed)

interpretation stub: lossless_driver "logged stub_can" snd
  by unfold_locales (auto simp: logged_def stub_can_def)

lemma lossless_logged:
  "(\<And>f w. fst (can_send can f w)) \<Longrightarrow> lossless_driver (logged can) snd"
  by unfold_locales (auto simp: logged_def split_def Let_def)

lemma length_zero_frame [simp]: "length (cf_data zero_frame) = 8"
  by (simp add: zero_frame_def)

end
