(* ===== verification/Iso_Tp.thy ===== *)
theory Iso_Tp
  imports Can_Interface
begin

text \<open>
  The ISO-TP transport layer \<open>IsoTp\<close> (\<open>transport/isotp.hpp\<close>, \<open>transport/isotp.cpp\<close>), one
  definition per method. The receive buffer is the list \<open>m_rx_buf\<close> of \<open>MAX_PAYLOAD\<close> bytes.
  \<open>m_tx_data\<close> is a pointer into memory the caller keeps: an address, \<open>None\<close> for a null
  pointer, whose content is looked up in a \<open>store\<close> at the time the bytes are copied into
  frames. A method whose \<open>memcpy\<close> can read outside its source array returns an option, and
  \<open>None\<close> is that undefined behaviour.
\<close>

datatype IsoTpResult = Ok | Pending | Error | Timeout | Overflow | WrongSN

record IsoTpConfig =
  cfg_rx_id :: u32
  cfg_tx_id :: u32
  cfg_block_size :: u8
  cfg_st_min_ms :: u8
  cfg_n_bs_ms :: u32
  cfg_n_cr_ms :: u32

definition kDefaultIsoTpConfig :: IsoTpConfig where
  "kDefaultIsoTpConfig =
     \<lparr>cfg_rx_id = 0x7DF, cfg_tx_id = 0x7E8, cfg_block_size = 0, cfg_st_min_ms = 0,
      cfg_n_bs_ms = 1000, cfg_n_cr_ms = 1000\<rparr>"

definition MAX_PAYLOAD :: nat where
  "MAX_PAYLOAD = 4096"

definition kFC :: u8 where "kFC = 0x30"
definition kFC_CTS :: u8 where "kFC_CTS = 0x00"
definition kFC_WAIT :: u8 where "kFC_WAIT = 0x01"
definition kFC_OVFL :: u8 where "kFC_OVFL = 0x02"

datatype RxState = RxIdle | RxReceiving
datatype TxState = TxIdle | TxWaitFC | TxSending

type_synonym addr = nat
type_synonym store = "addr \<Rightarrow> u8 list"

record isotp =
  m_cfg :: IsoTpConfig
  m_rx_state :: RxState
  m_rx_buf :: "u8 list"
  m_rx_expected :: nat
  m_rx_received :: nat
  m_rx_sn :: u8
  m_rx_deadline :: u32
  m_data_ready :: bool
  m_tx_state :: TxState
  m_tx_data :: "addr option"
  m_tx_total :: nat
  m_tx_offset :: nat
  m_tx_sn :: u8
  m_tx_bs_count :: u8
  m_tx_bs_rem :: u8
  m_tx_st_min :: u32
  m_tx_deadline :: u32

text \<open>The constructor leaves the content of the receive buffer open.\<close>

definition isotp_new :: "u8 list \<Rightarrow> IsoTpConfig \<Rightarrow> isotp" where
  "isotp_new garbage config =
     \<lparr>m_cfg = config, m_rx_state = RxIdle, m_rx_buf = garbage, m_rx_expected = 0,
      m_rx_received = 0, m_rx_sn = 0, m_rx_deadline = 0, m_data_ready = False,
      m_tx_state = TxIdle, m_tx_data = None, m_tx_total = 0, m_tx_offset = 0, m_tx_sn = 0,
      m_tx_bs_count = 0, m_tx_bs_rem = 0, m_tx_st_min = 0, m_tx_deadline = 0\<rparr>"

definition st_min_to_ms :: "u8 \<Rightarrow> u32" where
  "st_min_to_ms st_min =
     (if st_min \<le> 0x7F then ucast st_min
      else if st_min \<ge> 0xF1 \<and> st_min \<le> 0xF9 then 1 else 1)"

section \<open>Reception\<close>

definition handle_sf :: "can_frame \<Rightarrow> isotp \<Rightarrow> (IsoTpResult \<times> isotp) option" where
  "handle_sf frame s =
     (let len = cf_data frame ! 0 AND 0x0F in
      if len = 0 \<or> cf_dlc frame < 1 \<or> len > cf_dlc frame - 1 then Some (Error, s)
      else if unat len > MAX_PAYLOAD then Some (Overflow, s)
      else case mem_read (cf_data frame) 1 (unat len) of
        None \<Rightarrow> None
      | Some bytes \<Rightarrow>
          Some (Ok, s\<lparr>m_rx_state := RxIdle, m_rx_expected := unat len,
                      m_rx_received := unat len, m_rx_buf := put 0 bytes (m_rx_buf s),
                      m_data_ready := True\<rparr>))"

text \<open>The arithmetic of the first byte is done in \<open>int\<close> and then cut to eight bits.\<close>

definition send_fc :: "'w can_if \<Rightarrow> u8 \<Rightarrow> u8 \<Rightarrow> u8 \<Rightarrow> isotp \<Rightarrow> 'w \<Rightarrow> 'w" where
  "send_fc can fs bs st_min s w =
     (let pci = ucast (push_bit 4 (ucast kFC) OR (ucast fs AND 0x0F) :: u32);
          fc = zero_frame\<lparr>cf_id := cfg_tx_id (m_cfg s), cf_dlc := 3,
                          cf_data := put 0 [pci, bs, st_min] (cf_data zero_frame)\<rparr>
      in snd (can_send can fc w))"

definition handle_ff ::
  "'w can_if \<Rightarrow> can_frame \<Rightarrow> isotp \<Rightarrow> 'w \<Rightarrow> (IsoTpResult \<times> isotp \<times> 'w) option" where
  "handle_ff can frame s w =
     (if cf_dlc frame < 8 then Some (Error, s, w)
      else let len = be16 (cf_data frame ! 0 AND 0x0F) (cf_data frame ! 1) in
        if len < 8 then Some (Error, s, w)
        else if unat len > MAX_PAYLOAD then Some (Overflow, s, send_fc can kFC_OVFL 0 0 s w)
        else case mem_read (cf_data frame) 2 6 of
          None \<Rightarrow> None
        | Some bytes \<Rightarrow>
            (let s' = s\<lparr>m_data_ready := False, m_rx_expected := unat len,
                        m_rx_received := 6, m_rx_sn := 1, m_rx_state := RxReceiving,
                        m_rx_deadline := can_tick can w + cfg_n_cr_ms (m_cfg s),
                        m_rx_buf := put 0 bytes (m_rx_buf s)\<rparr>
             in Some (Pending, s',
                  send_fc can kFC_CTS (cfg_block_size (m_cfg s)) (cfg_st_min_ms (m_cfg s)) s' w)))"

definition cf_copy_len :: "can_frame \<Rightarrow> isotp \<Rightarrow> nat" where
  "cf_copy_len frame s =
     (let remaining = size_sub (m_rx_expected s) (m_rx_received s);
          copy_len = (if remaining < 7 then remaining else 7)
      in if cf_dlc frame > 0 \<and> copy_len > unat (cf_dlc frame - 1)
         then unat (cf_dlc frame - 1) else copy_len)"

definition handle_cf ::
  "'w can_if \<Rightarrow> can_frame \<Rightarrow> isotp \<Rightarrow> 'w \<Rightarrow> (IsoTpResult \<times> isotp) option" where
  "handle_cf can frame s w =
     (if m_rx_state s \<noteq> RxReceiving then Some (Error, s)
      else if (cf_data frame ! 0 AND 0x0F) \<noteq> m_rx_sn s then Some (WrongSN, s)
      else
        let copy_len = cf_copy_len frame s;
            s = s\<lparr>m_rx_sn := (m_rx_sn s + 1) AND 0x0F\<rparr>
        in if m_rx_received s + copy_len > MAX_PAYLOAD then Some (Overflow, s)
           else case mem_read (cf_data frame) 1 copy_len of
             None \<Rightarrow> None
           | Some bytes \<Rightarrow>
               (let s = s\<lparr>m_rx_buf := put (m_rx_received s) bytes (m_rx_buf s),
                          m_rx_received := m_rx_received s + copy_len,
                          m_rx_deadline := can_tick can w + cfg_n_cr_ms (m_cfg s)\<rparr>
                in if m_rx_received s \<ge> m_rx_expected s
                   then Some (Ok, s\<lparr>m_rx_received := m_rx_expected s, m_rx_state := RxIdle,
                                    m_data_ready := True\<rparr>)
                   else Some (Pending, s)))"

text \<open>
  \<open>get_data\<close>: the buffer is \<open>None\<close> for a null pointer, otherwise the bytes it holds; the
  result is the number of bytes copied, the buffer afterwards and the state.
\<close>

definition isotp_get_data ::
  "u8 list option \<Rightarrow> nat \<Rightarrow> isotp \<Rightarrow> nat \<times> u8 list option \<times> isotp" where
  "isotp_get_data buffer max_len s =
     (case buffer of
        None \<Rightarrow> (0, None, s)
      | Some buf \<Rightarrow>
          if \<not> m_data_ready s then (0, Some buf, s)
          else let n = (if m_rx_received s < max_len then m_rx_received s else max_len) in
            (n, Some (put 0 (take n (m_rx_buf s)) buf),
             s\<lparr>m_data_ready := False, m_rx_received := 0\<rparr>))"

section \<open>Transmission\<close>

definition tx_read :: "store \<Rightarrow> addr option \<Rightarrow> nat \<Rightarrow> nat \<Rightarrow> u8 list option" where
  "tx_read st p off n = (case p of None \<Rightarrow> None | Some a \<Rightarrow> mem_read (st a) off n)"

definition cf_frame :: "u32 \<Rightarrow> u8 \<Rightarrow> u8 list \<Rightarrow> can_frame" where
  "cf_frame tx_id sn bytes =
     zero_frame\<lparr>cf_id := tx_id, cf_dlc := of_nat (length bytes + 1),
       cf_data := put 1 bytes (put 0 [0x20 OR (sn AND 0x0F)] (cf_data zero_frame))\<rparr>"

text \<open>
  The loop of \<open>send_next_cf\<close>. The offset grows in every round, so what is left to send
  shrinks.
\<close>

function send_next_cf ::
  "'w can_if \<Rightarrow> store \<Rightarrow> isotp \<Rightarrow> 'w \<Rightarrow> (IsoTpResult \<times> isotp \<times> 'w) option" where
  "send_next_cf can st s w =
     (if m_tx_offset s < m_tx_total s then
        if m_tx_bs_rem s \<noteq> 0 \<and> m_tx_bs_count s \<ge> m_tx_bs_rem s then
          Some (Pending,
                s\<lparr>m_tx_state := TxWaitFC,
                  m_tx_deadline := can_tick can w + cfg_n_bs_ms (m_cfg s),
                  m_tx_bs_count := 0\<rparr>, w)
        else
          let remaining = m_tx_total s - m_tx_offset s;
              copy_len = (if remaining < 7 then remaining else 7)
          in case tx_read st (m_tx_data s) (m_tx_offset s) copy_len of
               None \<Rightarrow> None
             | Some bytes \<Rightarrow>
                 (case can_send can (cf_frame (cfg_tx_id (m_cfg s)) (m_tx_sn s) bytes) w of
                    (ok, w') \<Rightarrow>
                      if \<not> ok then Some (Error, s, w')
                      else send_next_cf can st
                        (s\<lparr>m_tx_offset := m_tx_offset s + copy_len,
                           m_tx_sn := (m_tx_sn s + 1) AND 0x0F,
                           m_tx_bs_count := m_tx_bs_count s + 1\<rparr>) w')
      else Some (Ok, s\<lparr>m_tx_state := TxIdle\<rparr>, w))"
  by pat_completeness auto
termination
  by (relation "measure (\<lambda>(can, st, s, w). m_tx_total s - m_tx_offset s)") auto

declare send_next_cf.simps [simp del]

text \<open>One round of the loop, and the outcomes of the loop as separate equations.\<close>

definition tx_chunk :: "isotp \<Rightarrow> nat" where
  "tx_chunk s = (if m_tx_total s - m_tx_offset s < 7 then m_tx_total s - m_tx_offset s else 7)"

definition tx_paused :: "isotp \<Rightarrow> bool" where
  "tx_paused s \<longleftrightarrow> m_tx_bs_rem s \<noteq> 0 \<and> m_tx_bs_count s \<ge> m_tx_bs_rem s"

definition tx_advance :: "isotp \<Rightarrow> isotp" where
  "tx_advance s = s\<lparr>m_tx_offset := m_tx_offset s + tx_chunk s,
     m_tx_sn := (m_tx_sn s + 1) AND 0x0F, m_tx_bs_count := m_tx_bs_count s + 1\<rparr>"

lemma send_next_cf_done:
  "\<not> m_tx_offset s < m_tx_total s \<Longrightarrow>
    send_next_cf can st s w = Some (Ok, s\<lparr>m_tx_state := TxIdle\<rparr>, w)"
  by (simp add: send_next_cf.simps)

lemma send_next_cf_pause:
  "m_tx_offset s < m_tx_total s \<Longrightarrow> tx_paused s \<Longrightarrow>
    send_next_cf can st s w = Some (Pending, s\<lparr>m_tx_state := TxWaitFC,
      m_tx_deadline := can_tick can w + cfg_n_bs_ms (m_cfg s), m_tx_bs_count := 0\<rparr>, w)"
  by (simp add: send_next_cf.simps tx_paused_def)

lemma send_next_cf_step:
  "m_tx_offset s < m_tx_total s \<Longrightarrow> \<not> tx_paused s \<Longrightarrow>
    send_next_cf can st s w =
      (case tx_read st (m_tx_data s) (m_tx_offset s) (tx_chunk s) of
         None \<Rightarrow> None
       | Some bytes \<Rightarrow>
           (case can_send can (cf_frame (cfg_tx_id (m_cfg s)) (m_tx_sn s) bytes) w of
              (ok, w') \<Rightarrow> if \<not> ok then Some (Error, s, w')
                else send_next_cf can st (tx_advance s) w'))"
  unfolding tx_paused_def
  by (subst send_next_cf.simps) (simp only: tx_chunk_def tx_advance_def Let_def if_True
      if_False not_False_eq_True if_not_P split_def)

lemma tx_chunk_pos: "m_tx_offset s < m_tx_total s \<Longrightarrow> 0 < tx_chunk s"
  by (simp add: tx_chunk_def)

lemma tx_advance_simps [simp]:
  "m_tx_total (tx_advance s) = m_tx_total s" "m_tx_data (tx_advance s) = m_tx_data s"
  "m_cfg (tx_advance s) = m_cfg s" "m_tx_state (tx_advance s) = m_tx_state s"
  "m_tx_bs_rem (tx_advance s) = m_tx_bs_rem s"
  "m_tx_bs_count (tx_advance s) = m_tx_bs_count s + 1"
  "m_tx_offset (tx_advance s) = m_tx_offset s + tx_chunk s"
  "m_tx_sn (tx_advance s) = (m_tx_sn s + 1) AND 0x0F"
  "m_rx_buf (tx_advance s) = m_rx_buf s" "m_rx_state (tx_advance s) = m_rx_state s"
  "m_rx_expected (tx_advance s) = m_rx_expected s"
  "m_rx_received (tx_advance s) = m_rx_received s" "m_rx_sn (tx_advance s) = m_rx_sn s"
  "m_data_ready (tx_advance s) = m_data_ready s"
  by (simp_all add: tx_advance_def)

text \<open>Induction over a completed call of the loop.\<close>

lemma send_next_cf_induct [consumes 1, case_names finished pause fail step]:
  assumes "send_next_cf can st s w = Some (r, s', w')"
    and "\<And>s w. \<not> m_tx_offset s < m_tx_total s \<Longrightarrow> P s w Ok (s\<lparr>m_tx_state := TxIdle\<rparr>) w"
    and "\<And>s w. m_tx_offset s < m_tx_total s \<Longrightarrow> tx_paused s \<Longrightarrow>
      P s w Pending (s\<lparr>m_tx_state := TxWaitFC,
        m_tx_deadline := can_tick can w + cfg_n_bs_ms (m_cfg s), m_tx_bs_count := 0\<rparr>) w"
    and "\<And>s w bytes w'. m_tx_offset s < m_tx_total s \<Longrightarrow> \<not> tx_paused s \<Longrightarrow>
      tx_read st (m_tx_data s) (m_tx_offset s) (tx_chunk s) = Some bytes \<Longrightarrow>
      can_send can (cf_frame (cfg_tx_id (m_cfg s)) (m_tx_sn s) bytes) w = (False, w') \<Longrightarrow>
      P s w Error s w'"
    and "\<And>s w bytes w1 r s' w'. m_tx_offset s < m_tx_total s \<Longrightarrow> \<not> tx_paused s \<Longrightarrow>
      tx_read st (m_tx_data s) (m_tx_offset s) (tx_chunk s) = Some bytes \<Longrightarrow>
      can_send can (cf_frame (cfg_tx_id (m_cfg s)) (m_tx_sn s) bytes) w = (True, w1) \<Longrightarrow>
      P (tx_advance s) w1 r s' w' \<Longrightarrow> P s w r s' w'"
  shows "P s w r s' w'"
  using assms(1)
proof (induction "m_tx_total s - m_tx_offset s" arbitrary: s w rule: less_induct)
  case less
  consider (d) "\<not> m_tx_offset s < m_tx_total s"
    | (p) "m_tx_offset s < m_tx_total s" "tx_paused s"
    | (n) "m_tx_offset s < m_tx_total s" "\<not> tx_paused s" by blast
  then show ?case
  proof cases
    case d
    with less.prems assms(2) [OF d] show ?thesis by (simp add: send_next_cf_done)
  next
    case p
    with less.prems assms(3) [OF p, of w] show ?thesis by (auto simp: send_next_cf_pause)
  next
    case n
    from less.prems obtain bytes ok w1
      where b: "tx_read st (m_tx_data s) (m_tx_offset s) (tx_chunk s) = Some bytes"
        and o: "can_send can (cf_frame (cfg_tx_id (m_cfg s)) (m_tx_sn s) bytes) w = (ok, w1)"
        and e: "(if \<not> ok then Some (Error, s, w1) else send_next_cf can st (tx_advance s) w1) =
          Some (r, s', w')"
      by (auto simp: send_next_cf_step [OF n] split: option.splits prod.splits)
    show ?thesis
    proof (cases ok)
      case False
      with e o assms(4) [OF n b] show ?thesis by auto
    next
      case True
      have lt: "m_tx_total (tx_advance s) - m_tx_offset (tx_advance s) <
          m_tx_total s - m_tx_offset s"
        using n(1) tx_chunk_pos [OF n(1)] by simp
      from e True have "send_next_cf can st (tx_advance s) w1 = Some (r, s', w')" by simp
      from less.hyps [OF lt this] show ?thesis using assms(5) [OF n b] o True by simp
    qed
  qed
qed

definition handle_fc ::
  "'w can_if \<Rightarrow> store \<Rightarrow> can_frame \<Rightarrow> isotp \<Rightarrow> 'w \<Rightarrow> (IsoTpResult \<times> isotp \<times> 'w) option" where
  "handle_fc can st frame s w =
     (if m_tx_state s \<noteq> TxWaitFC then Some (Error, s, w)
      else if cf_dlc frame < 3 then Some (Error, s, w)
      else
        let fs = cf_data frame ! 0 AND 0x0F; bs = cf_data frame ! 1; stm = cf_data frame ! 2 in
        if fs = kFC_OVFL then Some (Overflow, s, w)
        else if fs = kFC_WAIT then
          Some (Pending, s\<lparr>m_tx_deadline := can_tick can w + cfg_n_bs_ms (m_cfg s)\<rparr>, w)
        else if fs \<noteq> kFC_CTS then Some (Error, s, w)
        else send_next_cf can st
          (s\<lparr>m_tx_bs_rem := bs, m_tx_bs_count := 0,
             m_tx_st_min := (if stm \<le> 0x7F then ucast stm else 1),
             m_tx_state := TxSending\<rparr>) w)"

definition isotp_send ::
  "'w can_if \<Rightarrow> store \<Rightarrow> addr option \<Rightarrow> nat \<Rightarrow> isotp \<Rightarrow> 'w \<Rightarrow>
     (IsoTpResult \<times> isotp \<times> 'w) option" where
  "isotp_send can st data len s w =
     (if data = None \<or> len = 0 \<or> len > MAX_PAYLOAD then Some (Error, s, w)
      else if len \<le> 7 then
        (case tx_read st data 0 len of
           None \<Rightarrow> None
         | Some bytes \<Rightarrow>
             (let sf = zero_frame\<lparr>cf_id := cfg_tx_id (m_cfg s), cf_dlc := of_nat (len + 1),
                         cf_data := put 1 bytes (put 0 [of_nat len AND 0x0F] (cf_data zero_frame))\<rparr>;
                  (ok, w') = can_send can sf w
              in Some (if ok then Ok else Error, s, w')))
      else
        (case tx_read st data 0 6 of
           None \<Rightarrow> None
         | Some bytes \<Rightarrow>
             (let ff = zero_frame\<lparr>cf_id := cfg_tx_id (m_cfg s), cf_dlc := 8,
                         cf_data := put 2 bytes
                           (put 0 [0x10 OR (of_nat (len div 256) AND 0x0F), of_nat (len mod 256)]
                             (cf_data zero_frame))\<rparr>;
                  (ok, w') = can_send can ff w
              in if \<not> ok then Some (Error, s, w')
                 else Some (Pending,
                   s\<lparr>m_tx_data := data, m_tx_total := len, m_tx_offset := 6, m_tx_sn := 1,
                     m_tx_bs_count := 0, m_tx_bs_rem := 0, m_tx_state := TxWaitFC,
                     m_tx_deadline := can_tick can w' + cfg_n_bs_ms (m_cfg s)\<rparr>, w'))))"

section \<open>The frame dispatcher and the timeouts\<close>

definition process_frame ::
  "'w can_if \<Rightarrow> store \<Rightarrow> can_frame \<Rightarrow> isotp \<Rightarrow> 'w \<Rightarrow> (IsoTpResult \<times> isotp \<times> 'w) option" where
  "process_frame can st frame s w =
     (if cf_id frame \<noteq> cfg_rx_id (m_cfg s) \<or> cf_dlc frame = 0 then Some (Error, s, w)
      else
        let pci_type = drop_bit 4 (cf_data frame ! 0) AND 0x0F in
        if pci_type = 0x0 then map_option (\<lambda>(r, s'). (r, s', w)) (handle_sf frame s)
        else if pci_type = 0x1 then handle_ff can frame s w
        else if pci_type = 0x2 then map_option (\<lambda>(r, s'). (r, s', w)) (handle_cf can frame s w)
        else if pci_type = 0x3 then handle_fc can st frame s w
        else Some (Error, s, w))"

definition isotp_update :: "'w can_if \<Rightarrow> isotp \<Rightarrow> 'w \<Rightarrow> isotp" where
  "isotp_update can s w =
     (let now = can_tick can w;
          s = (if m_rx_state s = RxReceiving \<and> m_rx_deadline s > 0 \<and> now \<ge> m_rx_deadline s
               then s\<lparr>m_rx_state := RxIdle, m_rx_received := 0, m_rx_expected := 0,
                      m_rx_deadline := 0\<rparr>
               else s)
      in if m_tx_state s = TxWaitFC \<and> m_tx_deadline s > 0 \<and> now \<ge> m_tx_deadline s
         then s\<lparr>m_tx_state := TxIdle\<rparr> else s)"

lemma process_frame_cases:
  assumes "process_frame can st f s w = Some (r, s', w')"
  obtains (rejected) "r = Error" "s' = s" "w' = w"
    | (sf) "handle_sf f s = Some (r, s')" "w' = w"
    | (ff) "handle_ff can f s w = Some (r, s', w')"
    | (cf) "handle_cf can f s w = Some (r, s')" "w' = w"
    | (fc) "handle_fc can st f s w = Some (r, s', w')"
proof -
  have "(r = Error \<and> s' = s \<and> w' = w) \<or> (handle_sf f s = Some (r, s') \<and> w' = w) \<or>
      handle_ff can f s w = Some (r, s', w') \<or> (handle_cf can f s w = Some (r, s') \<and> w' = w) \<or>
      handle_fc can st f s w = Some (r, s', w')"
    using assms unfolding process_frame_def Let_def
    by (simp only: map_option_eq_Some split: if_split_asm) auto
  then show thesis using that by blast
qed

text \<open>Frames fed one after the other, in the order the integrator's loop reads them.\<close>

fun feed ::
  "'w can_if \<Rightarrow> store \<Rightarrow> can_frame list \<Rightarrow> isotp \<Rightarrow> 'w \<Rightarrow> (isotp \<times> 'w) option" where
  "feed can st [] s w = Some (s, w)"
| "feed can st (f # fs) s w =
     (case process_frame can st f s w of
        None \<Rightarrow> None
      | Some (r, s', w') \<Rightarrow> feed can st fs s' w')"

lemma feed_append:
  "feed can st (fs @ gs) s w =
     (case feed can st fs s w of None \<Rightarrow> None | Some (s', w') \<Rightarrow> feed can st gs s' w')"
  by (induction fs arbitrary: s w) (auto split: option.splits)

end
