(* ===== verification/Iso_Tp_Rx.thy ===== *)
theory Iso_Tp_Rx
  imports Iso_Tp
begin

text \<open>
  The receiving half of the transport layer: the invariant of the receive state, its
  preservation by every method, the absence of out-of-bounds reads for classic CAN frames,
  and the outcome of each kind of frame.
\<close>

definition rx_inv :: "isotp \<Rightarrow> bool" where
  "rx_inv s \<longleftrightarrow>
     length (m_rx_buf s) = MAX_PAYLOAD \<and>
     (m_rx_state s = RxReceiving \<longrightarrow>
        6 \<le> m_rx_received s \<and> m_rx_received s < m_rx_expected s \<and>
        m_rx_expected s < 4096 \<and> \<not> m_data_ready s) \<and>
     (m_data_ready s \<longrightarrow> 0 < m_rx_received s \<and> m_rx_received s = m_rx_expected s \<and>
        m_rx_expected s < 4096)"

lemma rx_inv_new: "length garbage = MAX_PAYLOAD \<Longrightarrow> rx_inv (isotp_new garbage cfg)"
  by (simp add: rx_inv_def isotp_new_def)

text \<open>\<open>rx_inv\<close> only looks at the receive fields.\<close>

lemma rx_inv_cong:
  assumes "m_rx_buf s' = m_rx_buf s" "m_rx_state s' = m_rx_state s"
    "m_rx_expected s' = m_rx_expected s" "m_rx_received s' = m_rx_received s"
    "m_data_ready s' = m_data_ready s"
  shows "rx_inv s' = rx_inv s"
  using assms by (simp add: rx_inv_def)

lemma ff_len_lt: "unat (be16 (a AND 0x0F) b) < 4096"
  using low_nibble_le [of a] unat_u8_lt [of b] by (simp add: unat_be16)

section \<open>The handlers\<close>

lemma handle_sf_classic:
  assumes "classic_frame f"
  shows "handle_sf f s =
    (let len = unat (cf_data f ! 0 AND 0x0F) in
     if len = 0 \<or> unat (cf_dlc f) \<le> len then Some (Error, s)
     else Some (Ok, s\<lparr>m_rx_state := RxIdle, m_rx_expected := len, m_rx_received := len,
                      m_rx_buf := put 0 (take len (drop 1 (cf_data f))) (m_rx_buf s),
                      m_data_ready := True\<rparr>))"
proof -
  let ?l = "cf_data f ! 0 AND 0x0F"
  have dlc: "unat (cf_dlc f) \<le> 8" "length (cf_data f) = 8"
    using assms by (auto simp: classic_frame_def word_le_nat_alt)
  show ?thesis
  proof (cases "cf_dlc f = 0")
    case True
    then show ?thesis by (simp add: handle_sf_def Let_def unat_eq_0)
  next
    case False
    then have sub: "unat (cf_dlc f - 1) = unat (cf_dlc f) - 1"
      by (rule unat_minus_one)
    have pos: "0 < unat (cf_dlc f)" using False by (simp add: unat_gt_0)
    have gt: "?l > cf_dlc f - 1 \<longleftrightarrow> unat (cf_dlc f) \<le> unat ?l"
      unfolding word_less_nat_alt sub using pos by arith
    have lt1: "\<not> cf_dlc f < 1"
      using pos by (simp add: word_less_nat_alt)
    have ov: "\<not> unat ?l > MAX_PAYLOAD"
      using low_nibble_le [of "cf_data f ! 0"] by (simp add: MAX_PAYLOAD_def)
    show ?thesis
    proof (cases "?l = 0 \<or> unat (cf_dlc f) \<le> unat ?l")
      case True
      then show ?thesis by (auto simp: handle_sf_def Let_def gt lt1 unat_eq_0)
    next
      case False
      then have "mem_read (cf_data f) 1 (unat ?l) = Some (take (unat ?l) (drop 1 (cf_data f)))"
        using dlc by (intro mem_read_in_range) simp
      with False show ?thesis
        by (simp add: handle_sf_def Let_def gt lt1 ov unat_eq_0 \<open>cf_dlc f \<noteq> 0\<close>)
    qed
  qed
qed

lemma handle_ff_classic:
  assumes "classic_frame f"
  defines "len \<equiv> unat (be16 (cf_data f ! 0 AND 0x0F) (cf_data f ! 1))"
  shows "handle_ff can f s w =
    (if cf_dlc f < 8 \<or> len < 8 then Some (Error, s, w)
     else let s' = s\<lparr>m_data_ready := False, m_rx_expected := len,
                     m_rx_received := 6, m_rx_sn := 1, m_rx_state := RxReceiving,
                     m_rx_deadline := can_tick can w + cfg_n_cr_ms (m_cfg s),
                     m_rx_buf := put 0 (take 6 (drop 2 (cf_data f))) (m_rx_buf s)\<rparr>
          in Some (Pending, s',
               send_fc can kFC_CTS (cfg_block_size (m_cfg s)) (cfg_st_min_ms (m_cfg s)) s' w))"
proof -
  have "mem_read (cf_data f) 2 6 = Some (take 6 (drop 2 (cf_data f)))"
    using assms(1) by (intro mem_read_in_range) (simp add: classic_frame_def)
  moreover have "\<not> len > MAX_PAYLOAD"
    using ff_len_lt [of "cf_data f ! 0" "cf_data f ! 1"] by (simp add: len_def MAX_PAYLOAD_def)
  moreover have "be16 (cf_data f ! 0 AND 0x0F) (cf_data f ! 1) < 8
      \<longleftrightarrow> len < 8"
    by (simp add: len_def word_less_nat_alt)
  ultimately show ?thesis
    by (simp add: handle_ff_def Let_def len_def)
qed

lemma cf_copy_len_le:
  assumes "rx_inv s" "m_rx_state s = RxReceiving"
  shows "cf_copy_len f s \<le> 7" "m_rx_received s + cf_copy_len f s \<le> m_rx_expected s"
  using assms by (auto simp: cf_copy_len_def rx_inv_def Let_def)

lemma handle_cf_classic:
  assumes "classic_frame f" "rx_inv s" "m_rx_state s = RxReceiving"
    and "cf_data f ! 0 AND 0x0F = m_rx_sn s"
  defines "n \<equiv> cf_copy_len f s"
  shows "handle_cf can f s w =
    (let s' = s\<lparr>m_rx_sn := (m_rx_sn s + 1) AND 0x0F,
                m_rx_buf := put (m_rx_received s) (take n (drop 1 (cf_data f))) (m_rx_buf s),
                m_rx_received := m_rx_received s + n,
                m_rx_deadline := can_tick can w + cfg_n_cr_ms (m_cfg s)\<rparr>
     in if m_rx_received s + n = m_rx_expected s
        then Some (Ok, s'\<lparr>m_rx_state := RxIdle, m_data_ready := True\<rparr>)
        else Some (Pending, s'))"
proof -
  have n: "n \<le> 7" "m_rx_received s + n \<le> m_rx_expected s" "m_rx_expected s < 4096"
    using cf_copy_len_le [OF assms(2,3)] assms(2,3) by (auto simp: n_def rx_inv_def)
  have "mem_read (cf_data f) 1 n = Some (take n (drop 1 (cf_data f)))"
    using assms(1) n by (intro mem_read_in_range) (simp add: classic_frame_def)
  with n show ?thesis using assms(3,4)
    by (auto simp: handle_cf_def Let_def MAX_PAYLOAD_def n_def [symmetric])
qed

section \<open>Preservation of the invariant\<close>

lemma rx_inv_handle_sf:
  assumes "classic_frame f" "rx_inv s" "handle_sf f s = Some (r, s')"
  shows "rx_inv s'"
proof -
  have b: "unat (cf_data f ! 0 AND 0x0F) \<le> 15" by (rule low_nibble_le)
  from assms(1) have dl: "length (cf_data f) = 8" by (simp add: classic_frame_def)
  with assms(3,2) b show ?thesis
    by (auto simp: handle_sf_classic [OF assms(1)] rx_inv_def Let_def put_simps MAX_PAYLOAD_def
        split: if_splits)
qed

lemma rx_inv_handle_ff:
  assumes "classic_frame f" "rx_inv s" "handle_ff can f s w = Some (r, s', w')"
  shows "rx_inv s'"
proof -
  from assms(1) have dl: "length (cf_data f) = 8" by (simp add: classic_frame_def)
  have lt: "unat (be16 (cf_data f ! 0 AND 0x0F) (cf_data f ! 1)) < 4096"
    by (rule ff_len_lt)
  with assms(3,2) dl show ?thesis
    by (auto simp: handle_ff_classic [OF assms(1)] rx_inv_def Let_def put_simps MAX_PAYLOAD_def
        split: if_splits)
qed

lemma rx_inv_handle_cf:
  assumes "classic_frame f" "rx_inv s" "handle_cf can f s w = Some (r, s')"
  shows "rx_inv s'"
proof (cases "m_rx_state s = RxReceiving \<and> cf_data f ! 0 AND 0x0F = m_rx_sn s")
  case False
  with assms(2,3) show ?thesis by (auto simp: handle_cf_def split: if_splits)
next
  case True
  then have rec: "m_rx_state s = RxReceiving" and sn: "cf_data f ! 0 AND 0x0F = m_rx_sn s"
    by simp_all
  have n: "cf_copy_len f s \<le> 7" "m_rx_received s + cf_copy_len f s \<le> m_rx_expected s"
    using cf_copy_len_le [OF assms(2) rec] by simp_all
  from assms(1) have dl: "length (cf_data f) = 8" by (simp add: classic_frame_def)
  from assms(2) rec have s: "length (m_rx_buf s) = 4096" "m_rx_expected s < 4096"
      "6 \<le> m_rx_received s" "m_rx_received s < m_rx_expected s" "\<not> m_data_ready s"
    by (auto simp: rx_inv_def MAX_PAYLOAD_def)
  have lb: "length (put (m_rx_received s) (take (cf_copy_len f s) (drop 1 (cf_data f)))
      (m_rx_buf s)) = 4096"
    using n dl s by (subst length_put) simp_all
  from assms(3) lb n s show ?thesis
    unfolding handle_cf_classic [OF assms(1,2) rec sn] rx_inv_def
    by (auto simp: Let_def MAX_PAYLOAD_def rec split: if_splits)
qed

lemma send_next_cf_rx_fields:
  "send_next_cf can st s w = Some (r, s', w') \<Longrightarrow>
    m_rx_buf s' = m_rx_buf s \<and> m_rx_state s' = m_rx_state s \<and>
    m_rx_expected s' = m_rx_expected s \<and> m_rx_received s' = m_rx_received s \<and>
    m_data_ready s' = m_data_ready s \<and> m_cfg s' = m_cfg s \<and> m_rx_sn s' = m_rx_sn s"
  by (induction rule: send_next_cf_induct) simp_all

lemma handle_fc_rx_fields:
  "handle_fc can st f s w = Some (r, s', w') \<Longrightarrow>
    m_rx_buf s' = m_rx_buf s \<and> m_rx_state s' = m_rx_state s \<and>
    m_rx_expected s' = m_rx_expected s \<and> m_rx_received s' = m_rx_received s \<and>
    m_data_ready s' = m_data_ready s \<and> m_cfg s' = m_cfg s \<and> m_rx_sn s' = m_rx_sn s"
  by (auto simp: handle_fc_def Let_def split: if_splits dest!: send_next_cf_rx_fields)

lemma rx_inv_process_frame:
  assumes "classic_frame f" "rx_inv s" "process_frame can st f s w = Some (r, s', w')"
  shows "rx_inv s'"
  using assms(3)
proof (cases rule: process_frame_cases)
  case fc
  then have "rx_inv s' = rx_inv s" by (intro rx_inv_cong) (simp_all add: handle_fc_rx_fields)
  with assms(2) show ?thesis by simp
next
  case rejected
  with assms(2) show ?thesis by simp
next
  case sf
  with assms(1,2) show ?thesis by (auto intro: rx_inv_handle_sf)
next
  case ff
  with assms(1,2) show ?thesis by (auto intro: rx_inv_handle_ff)
next
  case cf
  with assms(1,2) show ?thesis by (auto intro: rx_inv_handle_cf)
qed

lemma rx_inv_get_data: "rx_inv s \<Longrightarrow> rx_inv (snd (snd (isotp_get_data buf n s)))"
  by (auto simp: isotp_get_data_def rx_inv_def Let_def split: option.splits)

lemma rx_inv_update: "rx_inv s \<Longrightarrow> rx_inv (isotp_update can s w)"
  by (auto simp: isotp_update_def rx_inv_def Let_def)

lemma rx_inv_send: "rx_inv s \<Longrightarrow> isotp_send can st p n s w = Some (r, s', w') \<Longrightarrow> rx_inv s'"
  by (auto simp: isotp_send_def rx_inv_def Let_def split: if_splits option.splits prod.splits)

end
