(* ===== verification/Iso_Tp_Tx.thy ===== *)
theory Iso_Tp_Tx
  imports Iso_Tp
begin

text \<open>
  The sending half of the transport layer. The abstract specification of a transmission is
  \<open>segment\<close>: the single frame of a short message, or the first frame followed by the
  consecutive frames. The state of a transmission in progress stands for the frames it has
  still to send, \<open>tx_frames\<close>; sending puts a prefix of them on the bus and keeps the rest.
\<close>

section \<open>Segmentation\<close>

definition sf_frame :: "u32 \<Rightarrow> u8 list \<Rightarrow> can_frame" where
  "sf_frame tx_id data =
     zero_frame\<lparr>cf_id := tx_id, cf_dlc := of_nat (length data + 1),
       cf_data := put 1 data (put 0 [of_nat (length data) AND 0x0F] (cf_data zero_frame))\<rparr>"

definition ff_frame :: "u32 \<Rightarrow> u8 list \<Rightarrow> can_frame" where
  "ff_frame tx_id data =
     zero_frame\<lparr>cf_id := tx_id, cf_dlc := 8,
       cf_data := put 2 (take 6 data)
         (put 0 [0x10 OR (of_nat (length data div 256) AND 0x0F), of_nat (length data mod 256)]
           (cf_data zero_frame))\<rparr>"

function cf_frames :: "u32 \<Rightarrow> u8 \<Rightarrow> u8 list \<Rightarrow> can_frame list" where
  "cf_frames tx_id sn data =
     (if data = [] then []
      else cf_frame tx_id sn (take 7 data) # cf_frames tx_id ((sn + 1) AND 0x0F) (drop 7 data))"
  by pat_completeness auto
termination
  by (relation "measure (\<lambda>(tx_id, sn, data). length data)") auto

declare cf_frames.simps [simp del]

lemma cf_frames_Nil [simp]: "cf_frames tx_id sn [] = []"
  by (simp add: cf_frames.simps)

lemma cf_frames_step:
  "data \<noteq> [] \<Longrightarrow> cf_frames tx_id sn data =
     cf_frame tx_id sn (take 7 data) # cf_frames tx_id ((sn + 1) AND 0x0F) (drop 7 data)"
  by (subst cf_frames.simps) simp

lemma cf_frames_eq_Nil [simp]: "cf_frames tx_id sn data = [] \<longleftrightarrow> data = []"
  by (cases "data = []") (simp_all add: cf_frames_step)

lemma length_cf_frames: "length (cf_frames tx_id sn data) = (length data + 6) div 7"
proof (induction tx_id sn data rule: cf_frames.induct)
  case (1 tx_id sn data)
  then show ?case by (cases "data = []") (auto simp: cf_frames_step div_if)
qed

definition segment :: "u32 \<Rightarrow> u8 list \<Rightarrow> can_frame list" where
  "segment tx_id data =
     (if length data \<le> 7 then [sf_frame tx_id data]
      else ff_frame tx_id data # cf_frames tx_id 1 (drop 6 data))"

section \<open>Transmission as a refinement of segmentation\<close>

text \<open>The bytes, and with them the frames, a transmission has still to send.\<close>

definition tx_rest :: "store \<Rightarrow> isotp \<Rightarrow> u8 list" where
  "tx_rest st s =
     (case m_tx_data s of None \<Rightarrow> []
      | Some a \<Rightarrow> drop (m_tx_offset s) (take (m_tx_total s) (st a)))"

definition tx_frames :: "store \<Rightarrow> isotp \<Rightarrow> can_frame list" where
  "tx_frames st s = cf_frames (cfg_tx_id (m_cfg s)) (m_tx_sn s) (tx_rest st s)"

text \<open>The data of the transmission is in memory.\<close>

definition tx_mem :: "store \<Rightarrow> isotp \<Rightarrow> bool" where
  "tx_mem st s \<longleftrightarrow> (\<exists>a. m_tx_data s = Some a \<and> m_tx_total s \<le> length (st a)) \<and>
     m_tx_offset s \<le> m_tx_total s"

definition tx_inv :: "store \<Rightarrow> isotp \<Rightarrow> bool" where
  "tx_inv st s \<longleftrightarrow> (m_tx_state s \<noteq> TxIdle \<longrightarrow> tx_mem st s)"

lemma tx_read_mem:
  assumes "tx_mem st s" "m_tx_offset s < m_tx_total s"
  shows "tx_read st (m_tx_data s) (m_tx_offset s) (tx_chunk s) = Some (take 7 (tx_rest st s))"
  using assms by (auto simp: tx_mem_def tx_read_def mem_read_def tx_rest_def tx_chunk_def
      take_drop min_def)

lemma tx_rest_eq_Nil:
  "tx_mem st s \<Longrightarrow> tx_rest st s = [] \<longleftrightarrow> \<not> m_tx_offset s < m_tx_total s"
  by (auto simp: tx_mem_def tx_rest_def)

lemma tx_mem_advance [simp]: "tx_mem st s \<Longrightarrow> tx_mem st (tx_advance s)"
  by (auto simp: tx_mem_def tx_chunk_def)

lemma tx_rest_advance [simp]: "tx_mem st s \<Longrightarrow> tx_rest st (tx_advance s) = drop 7 (tx_rest st s)"
  by (auto simp: tx_mem_def tx_rest_def tx_chunk_def add.commute)

lemma tx_frames_advance:
  assumes "tx_mem st s" "m_tx_offset s < m_tx_total s"
  shows "tx_frames st s =
    cf_frame (cfg_tx_id (m_cfg s)) (m_tx_sn s) (take 7 (tx_rest st s)) #
      tx_frames st (tx_advance s)"
  using assms tx_rest_eq_Nil [OF assms(1)]
  by (simp add: tx_frames_def cf_frames_step)

lemma tx_frames_done: "tx_mem st s \<Longrightarrow> tx_frames st s = [] \<longleftrightarrow> \<not> m_tx_offset s < m_tx_total s"
  by (simp add: tx_frames_def tx_rest_eq_Nil)

lemma tx_mem_cong:
  "m_tx_data s' = m_tx_data s \<Longrightarrow> m_tx_total s' = m_tx_total s \<Longrightarrow>
    m_tx_offset s' = m_tx_offset s \<Longrightarrow> tx_mem st s' = tx_mem st s"
  by (simp add: tx_mem_def)

lemma tx_frames_cong:
  "m_tx_data s' = m_tx_data s \<Longrightarrow> m_tx_total s' = m_tx_total s \<Longrightarrow>
    m_tx_offset s' = m_tx_offset s \<Longrightarrow> m_tx_sn s' = m_tx_sn s \<Longrightarrow> m_cfg s' = m_cfg s \<Longrightarrow>
    tx_frames st s' = tx_frames st s"
  by (simp add: tx_frames_def tx_rest_def cong: option.case_cong)

text \<open>The loop terminates without an out-of-bounds read, whatever the driver answers.\<close>

lemma send_next_cf_defined:
  "tx_mem st s \<Longrightarrow> \<exists>r s' w'. send_next_cf can st s w = Some (r, s', w')"
proof (induction "m_tx_total s - m_tx_offset s" arbitrary: s w rule: less_induct)
  case less
  consider (d) "\<not> m_tx_offset s < m_tx_total s"
    | (p) "m_tx_offset s < m_tx_total s" "tx_paused s"
    | (n) "m_tx_offset s < m_tx_total s" "\<not> tx_paused s" by blast
  then show ?case
  proof cases
    case n
    have lt: "m_tx_total (tx_advance s) - m_tx_offset (tx_advance s) <
        m_tx_total s - m_tx_offset s"
      using n(1) tx_chunk_pos [OF n(1)] by simp
    from less.hyps [OF lt] less.prems show ?thesis
      by (auto simp: send_next_cf_step [OF n] tx_read_mem [OF less.prems n(1)]
          split: prod.split)
  qed (auto simp: send_next_cf_done send_next_cf_pause)
qed

lemma send_next_cf_tx_mem:
  "send_next_cf can st s w = Some (r, s', w') \<Longrightarrow> tx_mem st s \<Longrightarrow>
    tx_mem st s' \<and> m_tx_data s' = m_tx_data s \<and> m_tx_total s' = m_tx_total s \<and>
    m_cfg s' = m_cfg s"
proof (induction rule: send_next_cf_induct)
  case (finished s w)
  then show ?case using tx_mem_cong [of "s\<lparr>m_tx_state := TxIdle\<rparr>" s] by simp
next
  case (pause s w)
  then show ?case by (simp add: tx_mem_def)
qed simp_all

text \<open>How many frames a flow control with block size \<open>bs\<close> releases after \<open>c\<close> frames of it.\<close>

definition allowance :: "isotp \<Rightarrow> nat \<Rightarrow> nat" where
  "allowance s n =
     (if m_tx_bs_rem s = 0 then n else min n (unat (m_tx_bs_rem s) - unat (m_tx_bs_count s)))"

lemma allowance_advance:
  assumes "\<not> tx_paused s"
  shows "allowance s (Suc n) = Suc (allowance (tx_advance s) n)"
proof (cases "m_tx_bs_rem s = 0")
  case True
  then show ?thesis by (simp add: allowance_def)
next
  case False
  with assms have lt: "unat (m_tx_bs_count s) < unat (m_tx_bs_rem s)"
    by (simp add: tx_paused_def word_le_nat_alt not_le)
  then have "unat (m_tx_bs_count s + 1) = unat (m_tx_bs_count s) + 1"
    using unat_u8_lt [of "m_tx_bs_rem s"] by (simp add: unat_word_ariths)
  with lt False show ?thesis by (simp add: allowance_def)
qed

context lossless_driver
begin

text \<open>
  One call of the loop sends as many of the outstanding frames as the block size allows, and
  leaves the others outstanding.
\<close>

lemma send_next_cf_sends:
  assumes "send_next_cf can st s w = Some (r, s', w')" "tx_mem st s"
  defines "n \<equiv> allowance s (length (tx_frames st s))"
  shows "sent w' = sent w @ take n (tx_frames st s) \<and> tx_frames st s' = drop n (tx_frames st s) \<and>
    (if tx_frames st s' = [] then r = Ok \<and> m_tx_state s' = TxIdle
     else r = Pending \<and> m_tx_state s' = TxWaitFC \<and> m_tx_bs_count s' = 0)"
  using assms(1,2) unfolding n_def
proof (induction rule: send_next_cf_induct)
  case (finished s w)
  then have "tx_frames st s = []" by (simp add: tx_frames_done)
  moreover have "tx_frames st (s\<lparr>m_tx_state := TxIdle\<rparr>) = tx_frames st s"
    by (rule tx_frames_cong) simp_all
  ultimately show ?case by simp
next
  case (pause s w)
  then have "allowance s (length (tx_frames st s)) = 0"
    by (simp add: allowance_def tx_paused_def word_le_nat_alt)
  moreover have "tx_frames st s \<noteq> []" using pause by (simp add: tx_frames_done)
  moreover have "tx_frames st (s\<lparr>m_tx_state := TxWaitFC,
      m_tx_deadline := can_tick can w + cfg_n_bs_ms (m_cfg s), m_tx_bs_count := 0\<rparr>) =
      tx_frames st s"
    by (rule tx_frames_cong) simp_all
  ultimately show ?case by simp
next
  case (fail s w bytes w')
  then show ?case
    using accepts [of "cf_frame (cfg_tx_id (m_cfg s)) (m_tx_sn s) bytes" w] by simp
next
  case (step s w bytes w1 r s' w')
  have f: "tx_frames st s = cf_frame (cfg_tx_id (m_cfg s)) (m_tx_sn s) bytes #
      tx_frames st (tx_advance s)"
    using step.hyps(3) tx_frames_advance [OF step.prems step.hyps(1)]
    by (simp add: tx_read_mem [OF step.prems step.hyps(1)])
  have "sent w1 = sent w @ [cf_frame (cfg_tx_id (m_cfg s)) (m_tx_sn s) bytes]"
    by (rule send_ok [OF step.hyps(4)])
  with step.IH [OF tx_mem_advance [OF step.prems]] show ?case
    by (simp add: f allowance_advance [OF step.hyps(2)])
qed

end

end
