(* ===== verification/Iso_Tp_Link.thy ===== *)
theory Iso_Tp_Link
  imports Iso_Tp_Rx Iso_Tp_Tx
begin

text \<open>
  The two halves of the transport layer together: what the sender puts on the bus is the
  segmentation of its message, and a receiver that is fed the segmentation has the message.
  The flow control frames of the peer are \<open>fc_frame\<close>, laid out as ISO 15765-2 and
  \<open>docs/isotp_notes.md\<close> describe them.
\<close>

definition fc_frame :: "u32 \<Rightarrow> u8 \<Rightarrow> u8 \<Rightarrow> u8 \<Rightarrow> can_frame" where
  "fc_frame rx_id fs bs st_min =
     zero_frame\<lparr>cf_id := rx_id, cf_dlc := 3,
       cf_data := put 0 [0x30 OR (fs AND 0x0F), bs, st_min] (cf_data zero_frame)\<rparr>"

section \<open>Fields of the frames\<close>

lemma pci_nibbles [simp]:
  "drop_bit 4 (0x20 OR (x AND 0x0F) :: u8) AND 0x0F = 2"
  "drop_bit 4 (0x10 OR (x AND 0x0F) :: u8) AND 0x0F = 1"
  "drop_bit 4 (0x30 OR (x AND 0x0F) :: u8) AND 0x0F = 3"
  "drop_bit 4 (x AND 0x0F :: u8) AND 0x0F = 0"
  "(0x20 OR (x AND 0x0F) :: u8) AND 0x0F = x AND 0x0F"
  "(0x10 OR (x AND 0x0F) :: u8) AND 0x0F = x AND 0x0F"
  "(0x30 OR (x AND 0x0F) :: u8) AND 0x0F = x AND 0x0F"
  "((x AND 0x0F) AND 0x0F :: u8) = x AND 0x0F"
  unfolding nibble_eq_take_bit by (simp_all add: drop_bit_take_bit)

lemma classic_cf_frame:
  "length bytes \<le> 7 \<Longrightarrow> classic_frame (cf_frame i sn bytes)"
  by (auto simp: classic_frame_def cf_frame_def put_simps word_le_nat_alt unat_Suc_small)

lemma cf_frame_fields [simp]:
  assumes "length bytes \<le> 7"
  shows "cf_id (cf_frame i sn bytes) = i"
    "unat (cf_dlc (cf_frame i sn bytes)) = length bytes + 1"
    "cf_data (cf_frame i sn bytes) ! 0 = 0x20 OR (sn AND 0x0F)"
    "take (length bytes) (drop 1 (cf_data (cf_frame i sn bytes))) = bytes"
  using assms by (simp_all add: cf_frame_def unat_Suc_small put_def zero_frame_def)

lemma classic_sf_frame:
  "length data \<le> 7 \<Longrightarrow> classic_frame (sf_frame i data)"
  by (auto simp: classic_frame_def sf_frame_def put_simps word_le_nat_alt unat_Suc_small)

lemma sf_frame_fields [simp]:
  assumes "length data \<le> 7"
  shows "cf_id (sf_frame i data) = i"
    "unat (cf_dlc (sf_frame i data)) = length data + 1"
    "cf_data (sf_frame i data) ! 0 = of_nat (length data) AND 0x0F"
    "take (length data) (drop 1 (cf_data (sf_frame i data))) = data"
  using assms by (simp_all add: sf_frame_def unat_Suc_small put_def zero_frame_def)

lemma classic_ff_frame:
  "8 \<le> length data \<Longrightarrow> classic_frame (ff_frame i data)"
  by (auto simp: classic_frame_def ff_frame_def put_simps)

lemma ff_frame_fields [simp]:
  assumes "8 \<le> length data"
  shows "cf_id (ff_frame i data) = i"
    "cf_dlc (ff_frame i data) = 8"
    "cf_data (ff_frame i data) ! 0 = 0x10 OR (of_nat (length data div 256) AND 0x0F)"
    "cf_data (ff_frame i data) ! 1 = of_nat (length data mod 256)"
    "take 6 (drop 2 (cf_data (ff_frame i data))) = take 6 data"
  using assms by (simp_all add: ff_frame_def put_def zero_frame_def)

lemma fc_frame_fields [simp]:
  "cf_id (fc_frame i fs bs stm) = i" "cf_dlc (fc_frame i fs bs stm) = 3"
  "cf_data (fc_frame i fs bs stm) ! 0 = 0x30 OR (fs AND 0x0F)"
  "cf_data (fc_frame i fs bs stm) ! 1 = bs" "cf_data (fc_frame i fs bs stm) ! 2 = stm"
  by (simp_all add: fc_frame_def put_def zero_frame_def)

text \<open>The twelve bit length of a first frame.\<close>

lemma ff_length:
  assumes "n < 4096"
  shows "unat (be16 ((0x10 OR (of_nat (n div 256) AND 0x0F)) AND 0x0F) (of_nat (n mod 256))) = n"
proof -
  have "of_nat (n div 256) AND 0x0F = (of_nat (n div 256) :: u8)"
    unfolding nibble_eq_take_bit word_unat_eq_iff unsigned_take_bit_eq unat_of_nat
    using assms by (simp add: take_bit_eq_mod)
  then have e: "(0x10 OR (of_nat (n div 256) AND 0x0F)) AND 0x0F = (of_nat (n div 256) :: u8)"
    by (rule trans [OF pci_nibbles(6)])
  show ?thesis using assms unfolding unat_be16 e by (simp add: unat_of_nat)
qed

section \<open>Reception of a segmented message\<close>

text \<open>A receiver that has the first \<open>k\<close> bytes of \<open>data\<close> and expects frame number \<open>sn\<close>.\<close>

definition rx_holds :: "u8 list \<Rightarrow> nat \<Rightarrow> u8 \<Rightarrow> isotp \<Rightarrow> bool" where
  "rx_holds data k sn s \<longleftrightarrow>
     rx_inv s \<and> m_rx_state s = RxReceiving \<and> m_rx_expected s = length data \<and>
     m_rx_received s = k \<and> take k (m_rx_buf s) = take k data \<and> m_rx_sn s = sn AND 0x0F"

definition rx_complete :: "u8 list \<Rightarrow> isotp \<Rightarrow> bool" where
  "rx_complete data s \<longleftrightarrow>
     rx_inv s \<and> m_data_ready s \<and> m_rx_received s = length data \<and>
     take (length data) (m_rx_buf s) = data"

lemma process_sf_frame:
  assumes "rx_inv s" "0 < length data" "length data \<le> 7"
    "cfg_rx_id (m_cfg s) = i"
  shows "\<exists>s'. process_frame can st (sf_frame i data) s w = Some (Ok, s', w) \<and> rx_complete data s' \<and>
    m_cfg s' = m_cfg s"
proof -
  let ?f = "sf_frame i data"
  have c: "classic_frame ?f" by (rule classic_sf_frame [OF assms(3)])
  have l: "unat (of_nat (length data) AND 0x0F :: u8) = length data"
    unfolding nibble_eq_take_bit unsigned_take_bit_eq unat_of_nat
    using assms(3) by (simp add: take_bit_eq_mod)
  have d: "cf_dlc ?f \<noteq> 0"
    using sf_frame_fields(2) [OF assms(3), of i] by (metis Suc_eq_plus1 nat.distinct(1) unat_0)
  obtain s' where h: "handle_sf ?f s = Some (Ok, s')"
    and s': "s' = s\<lparr>m_rx_state := RxIdle, m_rx_expected := length data,
      m_rx_received := length data, m_rx_buf := put 0 data (m_rx_buf s), m_data_ready := True\<rparr>"
    using assms(2,3) l
    by (simp add: handle_sf_classic [OF c] Let_def sf_frame_fields [OF assms(3)]
        del: One_nat_def)
  have "rx_inv s'" by (rule rx_inv_handle_sf [OF c assms(1) h])
  moreover have "process_frame can st ?f s w = Some (Ok, s', w)"
    using assms(3,4) h d unfolding process_frame_def Let_def sf_frame_fields [OF assms(3)]
    by (simp only: pci_nibbles simp_thms if_False if_True option.map prod.case)
  ultimately show ?thesis unfolding rx_complete_def
    by (intro exI [of _ s']) (simp add: s' put_simps)
qed

lemma process_ff_frame:
  assumes "rx_inv s" "8 \<le> length data" "length data < 4096" "cfg_rx_id (m_cfg s) = i"
  shows "\<exists>s' w'. process_frame can st (ff_frame i data) s w = Some (Pending, s', w') \<and>
    rx_holds data 6 1 s' \<and> m_cfg s' = m_cfg s"
proof -
  let ?f = "ff_frame i data"
  have c: "classic_frame ?f" by (rule classic_ff_frame [OF assms(2)])
  have l: "unat (be16 (cf_data ?f ! 0 AND 0x0F) (cf_data ?f ! 1)) = length data"
    unfolding ff_frame_fields [OF assms(2)] by (rule ff_length [OF assms(3)])
  define s' where "s' = s\<lparr>m_data_ready := False, m_rx_expected := length data,
     m_rx_received := 6, m_rx_sn := 1, m_rx_state := RxReceiving,
     m_rx_deadline := can_tick can w + cfg_n_cr_ms (m_cfg s),
     m_rx_buf := put 0 (take 6 data) (m_rx_buf s)\<rparr>"
  define w' where "w' = send_fc can kFC_CTS (cfg_block_size (m_cfg s)) (cfg_st_min_ms (m_cfg s)) s' w"
  have h: "handle_ff can ?f s w = Some (Pending, s', w')"
    using assms(2) unfolding handle_ff_classic [OF c] l w'_def
    by (simp add: s'_def Let_def ff_frame_fields [OF assms(2)])
  have "rx_inv s'" by (rule rx_inv_handle_ff [OF c assms(1) h])
  moreover have "process_frame can st ?f s w = Some (Pending, s', w')"
    using assms(4) h unfolding process_frame_def Let_def ff_frame_fields [OF assms(2)]
    by (simp only: pci_nibbles) simp
  ultimately show ?thesis using assms(1,2)
    by (intro exI [of _ s'] exI [of _ w'])
      (simp add: rx_holds_def s'_def take_put_0_eq min_def)
qed

lemma sn_step [simp]: "((x AND 0x0F) + 1) AND 0x0F = (x + 1 :: u8) AND 0x0F"
  using mask_eqs(1) [of x 4 1] by (simp add: mask_eq_exp_minus_1)

lemma cf_frame_taken:
  assumes "rx_holds data k sn s" "k < length data" "cfg_rx_id (m_cfg s) = i"
  defines "bytes \<equiv> take 7 (drop k data)"
  shows "cf_copy_len (cf_frame i sn bytes) s = length bytes"
    "cf_data (cf_frame i sn bytes) ! 0 AND 0x0F = m_rx_sn s"
    "process_frame can st (cf_frame i sn bytes) s w =
      map_option (\<lambda>(r, s'). (r, s', w)) (handle_cf can (cf_frame i sn bytes) s w)"
proof -
  let ?f = "cf_frame i sn bytes"
  have len: "length bytes \<le> 7" "length bytes = min 7 (length data - k)"
    by (simp_all add: bytes_def)
  have d: "unat (cf_dlc ?f) = length bytes + 1" by (rule cf_frame_fields(2) [OF len(1)])
  then have d0: "cf_dlc ?f \<noteq> 0" by (metis Suc_eq_plus1 nat.distinct(1) unat_0)
  then have d1: "unat (cf_dlc ?f - 1) = length bytes" using d by (simp add: unat_minus_one)
  show "cf_copy_len ?f s = length bytes"
    using assms(1,2) len d1 d0 by (simp add: cf_copy_len_def rx_holds_def Let_def min_def)
  show "cf_data ?f ! 0 AND 0x0F = m_rx_sn s"
    using assms(1) unfolding cf_frame_fields(3) [OF len(1)] by (simp add: rx_holds_def pci_nibbles(5))
  show "process_frame can st ?f s w =
      map_option (\<lambda>(r, s'). (r, s', w)) (handle_cf can ?f s w)"
    using assms(3) d0 unfolding process_frame_def Let_def cf_frame_fields [OF len(1)]
    by (simp only: pci_nibbles) simp
qed

lemma process_cf_frame:
  assumes "rx_holds data k sn s" "cfg_rx_id (m_cfg s) = i" "k < length data"
  defines "bytes \<equiv> take 7 (drop k data)"
  shows "\<exists>r s'. process_frame can st (cf_frame i sn bytes) s w = Some (r, s', w) \<and>
    m_cfg s' = m_cfg s \<and>
    (if k + 7 < length data then r = Pending \<and> rx_holds data (k + 7) (sn + 1) s'
     else r = Ok \<and> rx_complete data s')"
proof -
  let ?f = "cf_frame i sn bytes"
  have inv: "rx_inv s" and rec: "m_rx_state s = RxReceiving"
    and ex: "m_rx_expected s = length data" and rcv: "m_rx_received s = k"
    and pre: "take k (m_rx_buf s) = take k data" and sn: "m_rx_sn s = sn AND 0x0F"
    using assms(1) by (simp_all add: rx_holds_def)
  have lb: "length (m_rx_buf s) = 4096" and small: "length data < 4096"
    using inv rec ex by (simp_all add: rx_inv_def MAX_PAYLOAD_def)
  have len: "length bytes \<le> 7" "length bytes = min 7 (length data - k)"
    by (simp_all add: bytes_def)
  note taken = cf_frame_taken [OF assms(1,3,2), folded bytes_def]
  define s1 where "s1 = s\<lparr>m_rx_sn := (m_rx_sn s + 1) AND 0x0F,
      m_rx_buf := put k bytes (m_rx_buf s), m_rx_received := k + length bytes,
      m_rx_deadline := can_tick can w + cfg_n_cr_ms (m_cfg s)\<rparr>"
  define s' where "s' = (if k + length bytes = length data
      then s1\<lparr>m_rx_state := RxIdle, m_data_ready := True\<rparr> else s1)"
  define r where "r = (if k + length bytes = length data then Ok else Pending)"
  have h: "handle_cf can ?f s w = Some (r, s')"
    unfolding handle_cf_classic [OF classic_cf_frame [OF len(1)] inv rec taken(2)] taken(1)
      cf_frame_fields(4) [OF len(1)]
    by (simp add: Let_def rcv ex s'_def s1_def r_def)
  have inv': "rx_inv s'" by (rule rx_inv_handle_cf [OF classic_cf_frame [OF len(1)] inv h])
  have p: "process_frame can st ?f s w = Some (r, s', w)" using h by (simp add: taken(3))
  have kk: "k + length bytes \<le> 4096" "k \<le> 4096" using len small assms(3) by auto
  have "take (k + length bytes) (put k bytes (m_rx_buf s)) = take k data @ bytes"
    using take_put_to [of k "m_rx_buf s" bytes] lb kk pre by simp
  also have "\<dots> = take (k + length bytes) data"
    by (simp add: take_add bytes_def min_def)
  finally have t: "take (k + length bytes) (m_rx_buf s1) = take (k + length bytes) data"
    by (simp add: s1_def)
  have cfg: "m_cfg s' = m_cfg s" by (simp add: s'_def s1_def)
  show ?thesis
  proof (cases "k + 7 < length data")
    case True
    then have "length bytes = 7" using len by simp
    then have "rx_holds data (k + 7) (sn + 1) s'" "r = Pending"
      using True inv' t rec ex by (simp_all add: rx_holds_def s'_def s1_def r_def sn)
    with p cfg True show ?thesis by auto
  next
    case False
    then have l: "k + length bytes = length data" using len assms(3) by simp
    then have "rx_complete data s'" "r = Ok"
      using inv' t by (simp_all add: rx_complete_def s'_def s1_def r_def)
    with p cfg False show ?thesis by auto
  qed
qed

lemma cf_frames_nibble: "cf_frames i (sn AND 0x0F) data = cf_frames i sn data"
proof (cases "data = []")
  case False
  have "cf_frame i (sn AND 0x0F) bs = cf_frame i sn bs" for bs
    by (simp add: cf_frame_def)
  with False show ?thesis by (simp add: cf_frames_step)
qed simp

lemma feed_cf_frames:
  "rx_holds data k sn s \<Longrightarrow> cfg_rx_id (m_cfg s) = i \<Longrightarrow> k < length data \<Longrightarrow>
    \<exists>s'. feed can st (cf_frames i sn (drop k data)) s w = Some (s', w) \<and> rx_complete data s'"
proof (induction "length data - k" arbitrary: k sn s rule: less_induct)
  case less
  obtain r s1 where p: "process_frame can st (cf_frame i sn (take 7 (drop k data))) s w = Some (r, s1, w)"
    and cfg: "m_cfg s1 = m_cfg s"
    and o: "if k + 7 < length data then r = Pending \<and> rx_holds data (k + 7) (sn + 1) s1
      else r = Ok \<and> rx_complete data s1"
    using process_cf_frame [OF less.prems, of can st w] by blast
  have f: "cf_frames i sn (drop k data) =
      cf_frame i sn (take 7 (drop k data)) # cf_frames i (sn + 1) (drop (k + 7) data)"
    using less.prems(3) by (simp add: cf_frames_step cf_frames_nibble add.commute)
  show ?case
  proof (cases "k + 7 < length data")
    case True
    with o have "rx_holds data (k + 7) (sn + 1) s1" by simp
    from less.hyps [OF _ this] True less.prems cfg show ?thesis by (simp add: f p)
  next
    case False
    with o p show ?thesis by (simp add: f)
  qed
qed

lemma feed_segment:
  assumes "rx_inv s" "0 < length data" "length data < 4096" "cfg_rx_id (m_cfg s) = i"
  shows "\<exists>s' w'. feed can st (segment i data) s w = Some (s', w') \<and> rx_complete data s'"
proof (cases "length data \<le> 7")
  case True
  with process_sf_frame [OF assms(1,2) True assms(4), of can st w] show ?thesis
    by (auto simp: segment_def)
next
  case False
  then have "8 \<le> length data" by simp
  from process_ff_frame [OF assms(1) this assms(3,4), of can st w] obtain s1 w1
    where "process_frame can st (ff_frame i data) s w = Some (Pending, s1, w1)"
      "rx_holds data 6 1 s1" "m_cfg s1 = m_cfg s" by blast
  with feed_cf_frames [of data 6 1 s1 i can st w1] False assms(4) show ?thesis
    by (auto simp: segment_def)
qed

lemma get_complete:
  assumes "rx_complete data s" "length data \<le> max_len" "length data \<le> length buf"
  shows "\<exists>buf' s'. isotp_get_data (Some buf) max_len s = (length data, Some buf', s') \<and>
    take (length data) buf' = data \<and> length buf' = length buf"
  using assms by (auto simp: isotp_get_data_def rx_complete_def Let_def put_simps)

end
