(* ===== verification/Iso_Tp_Props.thy ===== *)
theory Iso_Tp_Props
  imports Iso_Tp_Link
begin

text \<open>
  The properties of the transport layer: delivery of messages over a link, obedience to the
  block size of the peer, memory safety, and the places where the code departs from
  ISO 15765-2.
\<close>

section \<open>The sender\<close>

context lossless_driver
begin

lemma send_short:
  assumes "0 < n" "n \<le> 7" "n \<le> length (st a)"
  shows "\<exists>w'. isotp_send can st (Some a) n s w = Some (Ok, s, w') \<and>
    sent w' = sent w @ segment (cfg_tx_id (m_cfg s)) (take n (st a))"
proof -
  let ?f = "sf_frame (cfg_tx_id (m_cfg s)) (take n (st a))"
  obtain w' where w': "can_send can ?f w = (True, w')" "sent w' = sent w @ [?f]"
    using send_lossless by blast
  have l: "length (take n (st a)) = n" using assms(3) by simp
  have f: "?f = zero_frame\<lparr>cf_id := cfg_tx_id (m_cfg s), cf_dlc := of_nat (n + 1),
      cf_data := put 1 (take n (st a)) (put 0 [of_nat n AND 0x0F] (cf_data zero_frame))\<rparr>"
    unfolding sf_frame_def l by simp
  have "tx_read st (Some a) 0 n = Some (take n (st a))"
    using assms by (simp add: tx_read_def mem_read_def)
  moreover have "segment (cfg_tx_id (m_cfg s)) (take n (st a)) = [?f]"
    using assms(2) l by (simp add: segment_def)
  ultimately show ?thesis using assms(1,2) w' unfolding f
    by (simp add: isotp_send_def MAX_PAYLOAD_def)
qed

lemma send_long:
  assumes "7 < n" "n \<le> 4096" "n \<le> length (st a)"
  shows "\<exists>s' w'. isotp_send can st (Some a) n s w = Some (Pending, s', w') \<and>
    sent w' = sent w @ [ff_frame (cfg_tx_id (m_cfg s)) (take n (st a))] \<and>
    tx_frames st s' = cf_frames (cfg_tx_id (m_cfg s)) 1 (drop 6 (take n (st a))) \<and>
    tx_mem st s' \<and> m_tx_state s' = TxWaitFC \<and> m_cfg s' = m_cfg s"
proof -
  let ?f = "ff_frame (cfg_tx_id (m_cfg s)) (take n (st a))"
  obtain w' where w': "can_send can ?f w = (True, w')" "sent w' = sent w @ [?f]"
    using send_lossless by blast
  have f: "?f = zero_frame\<lparr>cf_id := cfg_tx_id (m_cfg s), cf_dlc := 8,
      cf_data := put 2 (take 6 (st a)) (put 0 [0x10 OR (of_nat (n div 256) AND 0x0F),
        of_nat (n mod 256)] (cf_data zero_frame))\<rparr>"
    using assms by (simp add: ff_frame_def min_def)
  have "tx_read st (Some a) 0 6 = Some (take 6 (st a))"
    using assms by (simp add: tx_read_def mem_read_def)
  then show ?thesis using assms w' unfolding f
    by (simp add: isotp_send_def MAX_PAYLOAD_def tx_frames_def tx_rest_def tx_mem_def)
qed

lemma fc_continue:
  fixes bs :: u8
  assumes "m_tx_state s = TxWaitFC" "tx_mem st s" "cfg_rx_id (m_cfg s) = i"
  defines "F \<equiv> tx_frames st s"
  defines "n \<equiv> (if bs = 0 then length F else min (length F) (unat bs))"
  shows "\<exists>r s' w'. process_frame can st (fc_frame i kFC_CTS bs stm) s w = Some (r, s', w') \<and>
    sent w' = sent w @ take n F \<and> tx_frames st s' = drop n F \<and>
    (if drop n F = [] then r = Ok \<and> m_tx_state s' = TxIdle
     else r = Pending \<and> m_tx_state s' = TxWaitFC) \<and>
    tx_mem st s' \<and> m_cfg s' = m_cfg s"
proof -
  define s1 where "s1 = s\<lparr>m_tx_bs_rem := bs, m_tx_bs_count := 0,
      m_tx_st_min := (if stm \<le> 0x7F then ucast stm else 1), m_tx_state := TxSending\<rparr>"
  have m1: "tx_mem st s1" using assms(2) tx_mem_cong [of s1 s st] by (simp add: s1_def)
  have F1: "tx_frames st s1 = F" unfolding F_def by (rule tx_frames_cong) (simp_all add: s1_def)
  have n1: "allowance s1 (length F) = n" by (simp add: allowance_def s1_def n_def)
  have p: "process_frame can st (fc_frame i kFC_CTS bs stm) s w = send_next_cf can st s1 w"
    unfolding process_frame_def handle_fc_def Let_def fc_frame_fields pci_nibbles
    using assms(1,3) by (simp add: s1_def kFC_CTS_def kFC_OVFL_def kFC_WAIT_def word_less_nat_alt)
  obtain r s' w' where x: "send_next_cf can st s1 w = Some (r, s', w')"
    using send_next_cf_defined [OF m1, of can w] by blast
  have c: "m_cfg s1 = m_cfg s" by (simp add: s1_def)
  from send_next_cf_sends [OF x m1] send_next_cf_tx_mem [OF x m1] show ?thesis
    unfolding p x F1 n1 c by (auto split: if_splits)
qed

lemma fc_idle:
  assumes "m_tx_state s = TxIdle" "cfg_rx_id (m_cfg s) = i"
  shows "process_frame can st (fc_frame i fs bs stm) s w = Some (Error, s, w)"
  unfolding process_frame_def handle_fc_def Let_def fc_frame_fields pci_nibbles
  using assms by simp

lemma feed_fc_idle:
  assumes "m_tx_state s = TxIdle" "cfg_rx_id (m_cfg s) = i"
  shows "feed can st (map (\<lambda>bs. fc_frame i kFC_CTS bs stm) bss) s w = Some (s, w)"
  using assms by (induction bss) (simp_all add: fc_idle)

lemma feed_fc:
  assumes "m_tx_state s = TxWaitFC" "tx_mem st s" "cfg_rx_id (m_cfg s) = i" "0 \<notin> set bss"
    "tx_frames st s \<noteq> []"
  shows "\<exists>s' w'. feed can st (map (\<lambda>bs. fc_frame i kFC_CTS bs stm) bss) s w = Some (s', w') \<and>
    sent w' = sent w @ take (sum_list (map unat bss)) (tx_frames st s) \<and>
    (m_tx_state s' = TxIdle \<longleftrightarrow> length (tx_frames st s) \<le> sum_list (map unat bss)) \<and>
    (m_tx_state s' = TxWaitFC \<longleftrightarrow> \<not> length (tx_frames st s) \<le> sum_list (map unat bss))"
  using assms
proof (induction bss arbitrary: s w)
  case Nil
  then show ?case by simp
next
  case (Cons bs bss)
  let ?F = "tx_frames st s" and ?n = "min (length (tx_frames st s)) (unat bs)"
  from Cons.prems(4) have "bs \<noteq> 0" by auto
  then obtain r s1 w1
    where p: "process_frame can st (fc_frame i kFC_CTS bs stm) s w = Some (r, s1, w1)"
      and w1: "sent w1 = sent w @ take ?n ?F" and F1: "tx_frames st s1 = drop ?n ?F"
      and o: "if drop ?n ?F = [] then r = Ok \<and> m_tx_state s1 = TxIdle
        else r = Pending \<and> m_tx_state s1 = TxWaitFC"
      and m1: "tx_mem st s1" and c1: "m_cfg s1 = m_cfg s"
    using fc_continue [OF Cons.prems(1-3), of bs stm w] by auto
  show ?case
  proof (cases "length ?F \<le> unat bs")
    case True
    then have "m_tx_state s1 = TxIdle" using o by simp
    from feed_fc_idle [OF this] c1 Cons.prems(3) \<open>m_tx_state s1 = TxIdle\<close> True w1
    show ?thesis by (simp add: p)
  next
    case False
    then have ne: "tx_frames st s1 \<noteq> []" and s1: "m_tx_state s1 = TxWaitFC"
      using o F1 by auto
    have "cfg_rx_id (m_cfg s1) = i" "0 \<notin> set bss" using c1 Cons.prems(3,4) by auto
    from Cons.IH [OF s1 m1 this ne] obtain s' w'
      where "feed can st (map (\<lambda>bs. fc_frame i kFC_CTS bs stm) bss) s1 w1 = Some (s', w')"
        "sent w' = sent w1 @ take (sum_list (map unat bss)) (tx_frames st s1)"
        "m_tx_state s' = TxIdle \<longleftrightarrow> length (tx_frames st s1) \<le> sum_list (map unat bss)"
        "m_tx_state s' = TxWaitFC \<longleftrightarrow> \<not> length (tx_frames st s1) \<le> sum_list (map unat bss)"
      by blast
    moreover have "take (unat bs) ?F @ take (sum_list (map unat bss)) (drop (unat bs) ?F) =
        take (unat bs + sum_list (map unat bss)) ?F"
      by (simp add: take_add)
    ultimately show ?thesis using False by (simp add: p w1 F1 le_diff_conv add.commute)
  qed
qed

end

section \<open>Memory safety\<close>

lemma handle_sf_None_iff:
  assumes "length (cf_data f) = 8" "cf_dlc f \<noteq> 0"
  shows "handle_sf f s = None \<longleftrightarrow>
    8 \<le> unat (cf_data f ! 0 AND 0x0F) \<and> unat (cf_data f ! 0 AND 0x0F) < unat (cf_dlc f)"
proof -
  let ?l = "cf_data f ! 0 AND 0x0F"
  have sub: "unat (cf_dlc f - 1) = unat (cf_dlc f) - 1" using assms(2) by (rule unat_minus_one)
  have pos: "0 < unat (cf_dlc f)" using assms(2) by (simp add: unat_gt_0)
  have gt: "?l > cf_dlc f - 1 \<longleftrightarrow> unat (cf_dlc f) \<le> unat ?l"
    unfolding word_less_nat_alt sub using pos by arith
  have b: "unat ?l \<le> 15" by (rule low_nibble_le)
  have z: "?l = 0 \<longleftrightarrow> unat ?l = 0" by (simp add: unat_eq_0)
  have o: "\<not> cf_dlc f < 1" using pos by (simp add: word_less_nat_alt)
  show ?thesis
    using b unfolding handle_sf_def Let_def gt z
    by (auto simp: o MAX_PAYLOAD_def mem_read_def assms(1))
qed

lemma handle_ff_defined:
  "length (cf_data f) = 8 \<Longrightarrow> handle_ff can f s w \<noteq> None"
  by (simp add: handle_ff_def mem_read_def Let_def)

lemma handle_cf_defined:
  assumes "length (cf_data f) = 8"
  shows "handle_cf can f s w \<noteq> None"
proof -
  have "cf_copy_len f s \<le> 7" by (auto simp: cf_copy_len_def Let_def)
  with assms show ?thesis by (simp add: handle_cf_def mem_read_def Let_def)
qed

lemma handle_fc_defined:
  assumes "tx_inv st s"
  shows "handle_fc can st f s w \<noteq> None"
proof (cases "m_tx_state s = TxWaitFC")
  case True
  with assms have "tx_mem st s" by (simp add: tx_inv_def)
  then have "tx_mem st (s\<lparr>m_tx_bs_rem := bs, m_tx_bs_count := 0, m_tx_st_min := x,
      m_tx_state := TxSending\<rparr>)" for bs x
    by (subst tx_mem_cong [where s = s]) simp_all
  from send_next_cf_defined [OF this] show ?thesis
    by (auto simp: handle_fc_def Let_def)
qed (simp add: handle_fc_def)

lemma rx_handlers_tx_fields:
  "handle_sf f s = Some (r, s') \<Longrightarrow> tx_inv st s' = tx_inv st s"
  "handle_ff can f s w = Some (r, s', w') \<Longrightarrow> tx_inv st s' = tx_inv st s"
  "handle_cf can f s w = Some (r, s') \<Longrightarrow> tx_inv st s' = tx_inv st s"
  by (auto simp: handle_sf_def handle_ff_def handle_cf_def tx_inv_def tx_mem_def Let_def
      split: if_splits option.splits)

lemma tx_inv_handle_fc:
  assumes "tx_inv st s" "handle_fc can st f s w = Some (r, s', w')"
  shows "tx_inv st s'"
proof (cases "m_tx_state s = TxWaitFC")
  case True
  with assms(1) have m: "tx_mem st s" by (simp add: tx_inv_def)
  have *: "tx_mem st s'"
    if "send_next_cf can st (s\<lparr>m_tx_bs_rem := bs, m_tx_bs_count := 0, m_tx_st_min := x,
      m_tx_state := TxSending\<rparr>) w = Some (r, s', w')" for bs x
    using send_next_cf_tx_mem [OF that] m by (simp add: tx_mem_def)
  from assms(2) m show ?thesis
    by (auto simp: handle_fc_def Let_def tx_inv_def tx_mem_def dest: *
        split: if_splits)
next
  case False
  with assms show ?thesis by (simp add: handle_fc_def)
qed

lemma tx_inv_process_frame:
  assumes "tx_inv st s" "process_frame can st f s w = Some (r, s', w')"
  shows "tx_inv st s'"
  using assms(2)
proof (cases rule: process_frame_cases)
  case fc
  with assms(1) show ?thesis by (rule tx_inv_handle_fc)
next
  case rejected
  with assms(1) show ?thesis by simp
next
  case sf
  with assms(1) rx_handlers_tx_fields(1) [OF sf(1)] show ?thesis by simp
next
  case ff
  with assms(1) rx_handlers_tx_fields(2) [OF ff] show ?thesis by simp
next
  case cf
  with assms(1) rx_handlers_tx_fields(3) [OF cf(1)] show ?thesis by simp
qed

lemma process_frame_None_iff:
  assumes "length (cf_data f) = 8" "tx_inv st s"
  shows "process_frame can st f s w = None \<longleftrightarrow>
    cf_id f = cfg_rx_id (m_cfg s) \<and> drop_bit 4 (cf_data f ! 0) AND 0x0F = 0 \<and>
    8 \<le> unat (cf_data f ! 0 AND 0x0F) \<and> unat (cf_data f ! 0 AND 0x0F) < unat (cf_dlc f)"
proof (cases "cf_id f \<noteq> cfg_rx_id (m_cfg s) \<or> cf_dlc f = 0")
  case True
  then show ?thesis by (auto simp: process_frame_def)
next
  case False
  then have "cf_dlc f \<noteq> 0" by simp
  with False show ?thesis
    using handle_ff_defined [OF assms(1)] handle_cf_defined [OF assms(1)]
      handle_fc_defined [OF assms(2)] handle_sf_None_iff [OF assms(1)]
    by (auto simp: process_frame_def Let_def)
qed

section \<open>The library's own flow control frame\<close>

lemma fc_pci: "ucast (push_bit 4 (ucast kFC) OR (ucast fs AND 0x0F) :: u32) = fs AND (0x0F :: u8)"
proof -
  have "ucast (push_bit 4 (ucast kFC) :: u32) = (0 :: u8)" by (simp add: kFC_def)
  moreover have "ucast (ucast fs AND 0x0F :: u32) = fs AND (0x0F :: u8)"
    unfolding nibble_eq_take_bit by (rule bit_word_eqI) (auto simp: bit_simps)
  ultimately show ?thesis by (simp only: unsigned_or_eq or.left_neutral)
qed

definition own_fc :: "u32 \<Rightarrow> u8 \<Rightarrow> u8 \<Rightarrow> u8 \<Rightarrow> can_frame" where
  "own_fc tx_id fs bs st_min =
     zero_frame\<lparr>cf_id := tx_id, cf_dlc := 3,
       cf_data := put 0 [fs AND 0x0F, bs, st_min] (cf_data zero_frame)\<rparr>"

lemma send_fc_sends:
  "send_fc can fs bs stm s w =
    snd (can_send can (own_fc (cfg_tx_id (m_cfg s)) fs bs stm) w)"
  by (simp only: send_fc_def Let_def fc_pci own_fc_def)

lemma own_fc_cts_rejected:
  "process_frame can st (own_fc i kFC_CTS bs stm) s w = Some (Error, s, w)"
proof -
  have "cf_data (own_fc i kFC_CTS bs stm) ! 0 = 0" "cf_dlc (own_fc i kFC_CTS bs stm) = 3"
    by (simp_all add: own_fc_def kFC_CTS_def put_def zero_frame_def)
  then show ?thesis by (simp add: process_frame_def handle_sf_def Let_def)
qed

section \<open>Duplicated frames\<close>

text \<open>Processing the same consecutive frame again changes nothing.\<close>

lemma sn_next_neq: "(x + 1 :: u8) AND 0x0F \<noteq> x AND 0x0F"
proof
  assume "(x + 1) AND 0x0F = x AND 0x0F"
  then have "((x + 1) AND mask 4) - (x AND mask 4) AND mask 4 = 0"
    by (simp add: mask_eq_exp_minus_1)
  then show False unfolding mask_eqs by (simp add: mask_eq_exp_minus_1)
qed

lemma duplicate_cf_ignored:
  assumes "rx_holds data k sn s" "cfg_rx_id (m_cfg s) = i" "k < length data"
    and "process_frame can st (cf_frame i sn (take 7 (drop k data))) s w = Some (r, s', w')"
  shows "\<exists>e. process_frame can st (cf_frame i sn (take 7 (drop k data))) s' w' = Some (e, s', w')"
proof -
  let ?f = "cf_frame i sn (take 7 (drop k data))"
  have l: "length (take 7 (drop k data)) \<le> 7" by simp
  have d: "cf_dlc ?f \<noteq> 0"
    using cf_frame_fields(2) [OF l, of i sn] by (metis Suc_eq_plus1 nat.distinct(1) unat_0)
  have e: "cf_data ?f ! 0 AND 0x0F = sn AND 0x0F"
    unfolding cf_frame_fields(3) [OF l] by (rule pci_nibbles(5))
  obtain r1 s1 where p: "process_frame can st ?f s w = Some (r1, s1, w)"
    and c: "m_cfg s1 = m_cfg s"
    and o: "if k + 7 < length data then r1 = Pending \<and> rx_holds data (k + 7) (sn + 1) s1
       else r1 = Ok \<and> rx_complete data s1"
    using process_cf_frame [OF assms(1-3), of can st w] by blast
  have s': "s' = s1" "w' = w" using p assms(4) by simp_all
  have "m_rx_state s1 \<noteq> RxReceiving \<or> m_rx_sn s1 \<noteq> sn AND 0x0F"
    using o sn_next_neq [of sn]
    by (auto simp: rx_holds_def rx_complete_def rx_inv_def split: if_splits)
  then have "\<exists>e. handle_cf can ?f s1 w = Some (e, s1)"
    unfolding handle_cf_def e by auto
  then show ?thesis using assms(2) c d
    unfolding s' process_frame_def Let_def cf_frame_fields [OF l]
    by (auto simp only: pci_nibbles) auto
qed

fun twice :: "'f list \<Rightarrow> 'f list" where
  "twice [] = []"
| "twice (f # fs) = f # f # twice fs"

lemma feed_cf_frames_twice:
  "rx_holds data k sn s \<Longrightarrow> cfg_rx_id (m_cfg s) = i \<Longrightarrow> k < length data \<Longrightarrow>
    \<exists>s'. feed can st (twice (cf_frames i sn (drop k data))) s w = Some (s', w) \<and>
      rx_complete data s'"
proof (induction "length data - k" arbitrary: k sn s rule: less_induct)
  case less
  obtain r s1 where p: "process_frame can st (cf_frame i sn (take 7 (drop k data))) s w = Some (r, s1, w)"
    and cfg: "m_cfg s1 = m_cfg s"
    and o: "if k + 7 < length data then r = Pending \<and> rx_holds data (k + 7) (sn + 1) s1
      else r = Ok \<and> rx_complete data s1"
    using process_cf_frame [OF less.prems, of can st w] by blast
  obtain e where q: "process_frame can st (cf_frame i sn (take 7 (drop k data))) s1 w = Some (e, s1, w)"
    using duplicate_cf_ignored [OF less.prems p] by blast
  have f: "cf_frames i sn (drop k data) =
      cf_frame i sn (take 7 (drop k data)) # cf_frames i (sn + 1) (drop (k + 7) data)"
    using less.prems(3) by (simp add: cf_frames_step cf_frames_nibble add.commute)
  show ?case
  proof (cases "k + 7 < length data")
    case True
    with o have "rx_holds data (k + 7) (sn + 1) s1" by simp
    from less.hyps [OF _ this] True less.prems cfg show ?thesis by (simp add: f p q)
  next
    case False
    with o p q show ?thesis by (simp add: f)
  qed
qed

section \<open>Properties\<close>

text \<open>The endpoints of the witnesses: an ECU and a tester on the identifiers of the example.\<close>

abbreviation ecu_cfg :: IsoTpConfig where
  "ecu_cfg \<equiv> kDefaultIsoTpConfig\<lparr>cfg_rx_id := 0x7E0, cfg_tx_id := 0x7E8\<rparr>"

abbreviation tester_cfg :: IsoTpConfig where
  "tester_cfg \<equiv> kDefaultIsoTpConfig\<lparr>cfg_rx_id := 0x7E8, cfg_tx_id := 0x7E0\<rparr>"

abbreviation ecu_tp :: isotp where
  "ecu_tp \<equiv> isotp_new (replicate 4096 0) ecu_cfg"

abbreviation tester_tp :: isotp where
  "tester_tp \<equiv> isotp_new (replicate 4096 0) tester_cfg"

abbreviation demo_store :: store where
  "demo_store \<equiv> (\<lambda>_. replicate 4096 7)"

lemma stub_accepts [simp]: "fst (can_send stub_can f w)"
  by (simp add: stub_can_def)

lemma rx_inv_fresh [simp]: "rx_inv (isotp_new (replicate 4096 0) cfg)"
  by (rule rx_inv_new) (simp add: MAX_PAYLOAD_def)

lemma tx_inv_fresh [simp]: "tx_inv st (isotp_new g cfg)"
  by (simp add: tx_inv_def isotp_new_def)

lemma cfg_fresh [simp]: "m_cfg (isotp_new g cfg) = cfg"
  by (simp add: isotp_new_def)

text \<open>
  C6. Messages are delivered. A message of 1 to 4095 bytes is sent over a driver that accepts
  every frame; if it needs more than one frame the peer answers with one Continue-To-Send
  without block limit. Feeding the frames the sender put on the bus, in order, to any
  receiver that listens on the sender's identifier leaves exactly the message to be
  fetched with \<open>get_data\<close>.
\<close>

theorem link_delivers:
  assumes "\<And>f w. fst (can_send can f w)"
    and "0 < n" and "n < 4096" and "n \<le> length (st a)"
    and "rx_inv r" and "cfg_rx_id (m_cfg r) = cfg_tx_id (m_cfg s)"
    and "n \<le> length buf"
  shows "\<exists>res s1 w1 s2 w2 fs r1 v1 buf' r2.
    isotp_send (logged can) st (Some a) n s (w, []) = Some (res, s1, w1) \<and>
    feed (logged can) st
      (if n \<le> 7 then [] else [fc_frame (cfg_rx_id (m_cfg s)) kFC_CTS 0 stm]) s1 w1 =
        Some (s2, w2, fs) \<and>
    feed can' st' fs r v = Some (r1, v1) \<and>
    isotp_get_data (Some buf) (length buf) r1 = (n, Some buf', r2) \<and>
    take n buf' = take n (st a)"
proof -
  let ?d = "take n (st a)" and ?i = "cfg_tx_id (m_cfg s)"
  have D: "lossless_driver (logged can) snd" by (rule lossless_logged) (rule assms(1))
  have l: "length ?d = n" using assms(4) by simp
  obtain res s1 w1 s2 w2
    where send: "isotp_send (logged can) st (Some a) n s (w, []) = Some (res, s1, w1)"
      "feed (logged can) st
        (if n \<le> 7 then [] else [fc_frame (cfg_rx_id (m_cfg s)) kFC_CTS 0 stm]) s1 w1 =
        Some (s2, w2, segment ?i ?d)"
  proof (cases "n \<le> 7")
    case True
    with lossless_driver.send_short [OF D, of n st a s "(w, [])"] assms(2,4) that
    show ?thesis by auto
  next
    case False
    then have n: "7 < n" "n \<le> 4096" using assms(3) by simp_all
    obtain s1 w1 where "isotp_send (logged can) st (Some a) n s (w, []) = Some (Pending, s1, w1)"
      and w1: "snd w1 = [ff_frame ?i ?d]" and F: "tx_frames st s1 = cf_frames ?i 1 (drop 6 ?d)"
      and m: "tx_mem st s1" and t: "m_tx_state s1 = TxWaitFC" and c: "m_cfg s1 = m_cfg s"
      using lossless_driver.send_long [OF D, of n st a s "(w, [])"] n assms(4) by auto
    moreover obtain x s2 w2 where "process_frame (logged can) st
        (fc_frame (cfg_rx_id (m_cfg s)) kFC_CTS 0 stm) s1 w1 = Some (x, s2, w2)"
      "snd w2 = snd w1 @ tx_frames st s1"
      using lossless_driver.fc_continue [OF D t m, of "cfg_rx_id (m_cfg s)" 0 stm w1] c by auto
    ultimately show ?thesis using that [of Pending s1 w1 s2 "fst w2"] n l F
      by (cases w2) (simp add: segment_def)
  qed
  have "0 < length ?d" "length ?d < 4096" using assms(2,3) l by simp_all
  from feed_segment [OF assms(5) this assms(6), of can' st' v] obtain r1 v1
    where recv: "feed can' st' (segment ?i ?d) r v = Some (r1, v1)" and c: "rx_complete ?d r1"
    by blast
  have "length ?d \<le> length buf" using assms(7) l by simp
  from get_complete [OF c this this] l send recv show ?thesis by metis
qed

theorem link_delivers_witness:
  "\<exists>res s1 w1 s2 w2 fs r1 v1 buf' r2.
    isotp_send (logged stub_can) demo_store (Some 0) 20 ecu_tp (0, []) = Some (res, s1, w1) \<and>
    feed (logged stub_can) demo_store
      (if 20 \<le> (7::nat) then [] else [fc_frame (cfg_rx_id (m_cfg ecu_tp)) kFC_CTS 0 0]) s1 w1 =
        Some (s2, w2, fs) \<and>
    feed stub_can demo_store fs tester_tp 0 = Some (r1, v1) \<and>
    isotp_get_data (Some (replicate 64 0)) (length (replicate 64 (0::u8))) r1 =
      (20, Some buf', r2) \<and>
    take 20 buf' = take 20 (demo_store 0)"
  by (rule link_delivers) simp_all

text \<open>
  C34. The sender obeys the block size. After the first frame of a long message, any sequence
  of Continue-To-Send frames with non-zero block sizes \<open>bss\<close> releases exactly as many
  consecutive frames as the block sizes add up to, in order and without loss or repetition;
  the transmission is idle exactly when all \<open>n div 7\<close> of them are out, and otherwise it
  waits for the next flow control.
\<close>

theorem block_size_obeyed:
  assumes "\<And>f w. fst (can_send can f w)"
    and "7 < n" and "n \<le> 4096" and "n \<le> length (st a)" and "0 \<notin> set bss"
  shows "\<exists>s1 w1 s2 w2.
    isotp_send (logged can) st (Some a) n s (w, []) = Some (Pending, s1, w1) \<and>
    feed (logged can) st (map (\<lambda>bs. fc_frame (cfg_rx_id (m_cfg s)) kFC_CTS bs stm) bss) s1 w1 =
      Some (s2, w2, ff_frame (cfg_tx_id (m_cfg s)) (take n (st a)) #
        take (sum_list (map unat bss))
          (cf_frames (cfg_tx_id (m_cfg s)) 1 (drop 6 (take n (st a))))) \<and>
    (m_tx_state s2 = TxIdle \<longleftrightarrow> n div 7 \<le> sum_list (map unat bss)) \<and>
    (m_tx_state s2 = TxWaitFC \<longleftrightarrow> sum_list (map unat bss) < n div 7)"
proof -
  let ?F = "cf_frames (cfg_tx_id (m_cfg s)) 1 (drop 6 (take n (st a)))"
  have D: "lossless_driver (logged can) snd" by (rule lossless_logged) (rule assms(1))
  obtain s1 w1 where send: "isotp_send (logged can) st (Some a) n s (w, []) = Some (Pending, s1, w1)"
    and w1: "snd w1 = [ff_frame (cfg_tx_id (m_cfg s)) (take n (st a))]"
    and F: "tx_frames st s1 = ?F"
    and m: "tx_mem st s1" and t: "m_tx_state s1 = TxWaitFC" and c: "m_cfg s1 = m_cfg s"
    using lossless_driver.send_long [OF D, of n st a s "(w, [])"] assms(2-4) by auto
  have len: "length ?F = n div 7" using assms(2,4) by (simp add: length_cf_frames)
  have "tx_frames st s1 \<noteq> []" using assms(2,4) F by simp
  from lossless_driver.feed_fc [OF D t m _ assms(5) this, of "cfg_rx_id (m_cfg s)" stm w1] c
  obtain s2 w2 where
    "feed (logged can) st (map (\<lambda>bs. fc_frame (cfg_rx_id (m_cfg s)) kFC_CTS bs stm) bss) s1 w1 =
      Some (s2, w2)"
    "snd w2 = snd w1 @ take (sum_list (map unat bss)) ?F"
    "m_tx_state s2 = TxIdle \<longleftrightarrow> n div 7 \<le> sum_list (map unat bss)"
    "m_tx_state s2 = TxWaitFC \<longleftrightarrow> \<not> n div 7 \<le> sum_list (map unat bss)"
    unfolding F len by auto
  with send w1 show ?thesis
    by (intro exI [of _ s1] exI [of _ w1] exI [of _ s2] exI [of _ "fst w2"]) (auto simp: prod_eq_iff)
qed

theorem block_size_obeyed_witness:
  "\<exists>s1 w1 s2 w2.
    isotp_send (logged stub_can) demo_store (Some 0) 100 ecu_tp (0, []) = Some (Pending, s1, w1) \<and>
    feed (logged stub_can) demo_store
      (map (\<lambda>bs. fc_frame (cfg_rx_id (m_cfg ecu_tp)) kFC_CTS bs 0) [2, 8]) s1 w1 =
      Some (s2, w2, ff_frame (cfg_tx_id (m_cfg ecu_tp)) (take 100 (demo_store 0)) #
        take (sum_list (map unat [2, 8 :: u8]))
          (cf_frames (cfg_tx_id (m_cfg ecu_tp)) 1 (drop 6 (take 100 (demo_store 0))))) \<and>
    (m_tx_state s2 = TxIdle \<longleftrightarrow> 100 div 7 \<le> sum_list (map unat [2, 8 :: u8])) \<and>
    (m_tx_state s2 = TxWaitFC \<longleftrightarrow> sum_list (map unat [2, 8 :: u8]) < 100 div 7)"
  by (rule block_size_obeyed) simp_all

text \<open>
  C7. Memory safety on classic CAN. For a frame with eight data bytes and \<open>dlc\<close> at most 8,
  \<open>process_frame\<close> never copies outside an array, in whatever state reception and
  transmission are, and it keeps the invariants of both: the buffer bounds, the byte counts
  of a reception in progress and the presence in memory of the data still to be sent.
\<close>

theorem process_frame_safe:
  assumes "classic_frame f" and "rx_inv s" and "tx_inv st s"
  shows "\<exists>r s' w'. process_frame can st f s w = Some (r, s', w') \<and> rx_inv s' \<and> tx_inv st s'"
proof -
  have l: "length (cf_data f) = 8" and d: "unat (cf_dlc f) \<le> 8"
    using assms(1) by (auto simp: classic_frame_def word_le_nat_alt)
  have "process_frame can st f s w \<noteq> None"
    using d process_frame_None_iff [OF l assms(3), of can w] by linarith
  then obtain r s' w' where p: "process_frame can st f s w = Some (r, s', w')" by auto
  with rx_inv_process_frame [OF assms(1,2) p] tx_inv_process_frame [OF assms(3) p]
  show ?thesis by blast
qed

theorem process_frame_safe_witness:
  "\<exists>r s' w'. process_frame stub_can demo_store (fc_frame 0x7E0 0 0 0) ecu_tp 0 = Some (r, s', w') \<and>
    rx_inv s' \<and> tx_inv demo_store s'"
  by (rule process_frame_safe)
    (simp_all add: classic_frame_def fc_frame_def put_simps)

text \<open>
  The read outside the frame, exactly. For a frame with an eight byte data array and any
  \<open>dlc\<close>, \<open>process_frame\<close> reads outside the array if and only if the frame is addressed to
  this endpoint, is a single frame and announces 8 to 15 bytes within its \<open>dlc\<close>. So the
  guards of the handlers are enough for \<open>dlc\<close> at most 8 only, and a driver that passes the
  larger \<open>dlc\<close> codes of CAN FD on breaks them.
\<close>

theorem single_frame_overread_iff:
  assumes "length (cf_data f) = 8" and "tx_inv st s"
  shows "process_frame can st f s w = None \<longleftrightarrow>
    cf_id f = cfg_rx_id (m_cfg s) \<and> drop_bit 4 (cf_data f ! 0) AND 0x0F = 0 \<and>
    8 \<le> unat (cf_data f ! 0 AND 0x0F) \<and> unat (cf_data f ! 0 AND 0x0F) < unat (cf_dlc f)"
  using assms by (rule process_frame_None_iff)

theorem single_frame_overread_iff_witness:
  "process_frame stub_can demo_store
     (zero_frame\<lparr>cf_id := 0x7E0, cf_dlc := 15, cf_data := [0x0E, 0, 0, 0, 0, 0, 0, 0]\<rparr>)
     ecu_tp 0 = None"
  by (subst single_frame_overread_iff) simp_all

text \<open>
  C31. Two endpoints of this library cannot exchange a long message: the flow control byte
  is shifted out of the frame's first byte. Whatever the data, the first frame of a message
  of 8 to 4095 bytes makes the receiver answer with exactly one frame, and the sender
  rejects that frame with \<open>Error\<close> and stays as it was, waiting for flow control, with
  nothing but the first frame sent.
\<close>

theorem own_flow_control_stalls:
  assumes "\<And>f w. fst (can_send can f w)" and "\<And>f v. fst (can_send can' f v)"
    and "7 < n" and "n < 4096" and "n \<le> length (st a)"
    and "rx_inv r" and "cfg_rx_id (m_cfg r) = cfg_tx_id (m_cfg s)"
  shows "\<exists>s1 w1 ff r1 v1 fc.
    isotp_send (logged can) st (Some a) n s (w, []) = Some (Pending, s1, (w1, [ff])) \<and>
    process_frame (logged can') st' ff r (v, []) = Some (Pending, r1, (v1, [fc])) \<and>
    process_frame (logged can) st fc s1 (w1, [ff]) = Some (Error, s1, (w1, [ff])) \<and>
    m_tx_state s1 = TxWaitFC"
proof -
  let ?d = "take n (st a)" and ?i = "cfg_tx_id (m_cfg s)"
  let ?ff = "ff_frame ?i ?d"
  let ?fc = "own_fc (cfg_tx_id (m_cfg r)) kFC_CTS (cfg_block_size (m_cfg r)) (cfg_st_min_ms (m_cfg r))"
  have D: "lossless_driver (logged can) snd" by (rule lossless_logged) (rule assms(1))
  obtain s1 w1 where send: "isotp_send (logged can) st (Some a) n s (w, []) = Some (Pending, s1, w1)"
    "snd w1 = [?ff]" "m_tx_state s1 = TxWaitFC"
    using lossless_driver.send_long [OF D, of n st a s "(w, [])"] assms(3-5) by auto
  have l: "8 \<le> length ?d" "length ?d < 4096" using assms(3-5) by simp_all
  then have c: "classic_frame ?ff" by (intro classic_ff_frame)
  have len: "unat (be16 (cf_data ?ff ! 0 AND 0x0F) (cf_data ?ff ! 1)) = length ?d"
    unfolding ff_frame_fields [OF l(1)] by (rule ff_length [OF l(2)])
  have "\<exists>r1 v1. handle_ff (logged can') ?ff r (v, []) = Some (Pending, r1, (v1, [?fc]))"
    using l assms(2) unfolding handle_ff_classic [OF c] len ff_frame_fields(2) [OF l(1)] send_fc_sends
    by (simp add: Let_def logged_send del: length_take)
  then have "\<exists>r1 v1. process_frame (logged can') st' ?ff r (v, []) = Some (Pending, r1, (v1, [?fc]))"
    using assms(7) unfolding process_frame_def Let_def ff_frame_fields [OF l(1)]
    by (simp only: pci_nibbles) simp
  with send own_fc_cts_rejected [of "logged can" st _ _ _ s1 w1] show ?thesis
    by (cases w1) auto
qed

theorem own_flow_control_stalls_witness:
  "\<exists>s1 w1 ff r1 v1 fc.
    isotp_send (logged stub_can) demo_store (Some 0) 20 ecu_tp (0, []) = Some (Pending, s1, (w1, [ff])) \<and>
    process_frame (logged stub_can) demo_store ff tester_tp (0, []) = Some (Pending, r1, (v1, [fc])) \<and>
    process_frame (logged stub_can) demo_store fc s1 (w1, [ff]) = Some (Error, s1, (w1, [ff])) \<and>
    m_tx_state s1 = TxWaitFC"
  by (rule own_flow_control_stalls) simp_all

text \<open>
  A message of \<open>MAX_PAYLOAD\<close> = 4096 bytes passes the length check of \<open>send\<close>, but its
  length does not fit the twelve bits of the first frame: the frame announces 0 bytes and
  every receiver rejects it with its state unchanged.
\<close>

theorem max_payload_announced_as_zero:
  assumes "\<And>f w. fst (can_send can f w)" and "4096 \<le> length (st a)"
    and "cfg_rx_id (m_cfg r) = cfg_tx_id (m_cfg s)"
  shows "\<exists>s1 w1 ff.
    isotp_send (logged can) st (Some a) MAX_PAYLOAD s (w, []) = Some (Pending, s1, (w1, [ff])) \<and>
    be16 (cf_data ff ! 0 AND 0x0F) (cf_data ff ! 1) = 0 \<and>
    process_frame can' st' ff r v = Some (Error, r, v)"
proof -
  let ?d = "take 4096 (st a)"
  let ?ff = "ff_frame (cfg_tx_id (m_cfg s)) ?d"
  have D: "lossless_driver (logged can) snd" by (rule lossless_logged) (rule assms(1))
  have l: "length ?d = 4096" "8 \<le> length ?d" using assms(2) by simp_all
  have fields: "cf_data ?ff ! 0 = 0x10" "cf_data ?ff ! 1 = 0"
    unfolding ff_frame_fields [OF l(2)] l(1) by simp_all
  have z: "be16 (cf_data ?ff ! 0 AND 0x0F) (cf_data ?ff ! 1) = 0"
    unfolding fields by (simp add: be16_def)
  have p: "process_frame can' st' ?ff r v = Some (Error, r, v)"
    using assms(3) unfolding process_frame_def handle_ff_def Let_def z
    by (simp add: fields ff_frame_fields [OF l(2)])
  from lossless_driver.send_long [OF D, of 4096 st a s "(w, [])"] assms(2) z p
  show ?thesis by (auto simp: MAX_PAYLOAD_def)
qed

theorem max_payload_announced_as_zero_witness:
  "\<exists>s1 w1 ff.
    isotp_send (logged stub_can) demo_store (Some 0) MAX_PAYLOAD ecu_tp (0, []) =
      Some (Pending, s1, (w1, [ff])) \<and>
    be16 (cf_data ff ! 0 AND 0x0F) (cf_data ff ! 1) = 0 \<and>
    process_frame stub_can demo_store ff tester_tp 0 = Some (Error, tester_tp, 0)"
  by (rule max_payload_announced_as_zero) simp_all

text \<open>
  A repeated frame does not disturb a reception: a wrong sequence number is reported and
  otherwise ignored, so a receiver that gets the first frame of a message and then every
  consecutive frame twice in a row still has exactly the message.
\<close>

theorem duplicates_ignored:
  assumes "rx_inv r" and "8 \<le> length data" and "length data < 4096" and "length data \<le> length buf"
    and "cfg_rx_id (m_cfg r) = i"
  shows "\<exists>r1 v1 buf' r2.
    feed can st (ff_frame i data # twice (cf_frames i 1 (drop 6 data))) r v = Some (r1, v1) \<and>
    isotp_get_data (Some buf) (length buf) r1 = (length data, Some buf', r2) \<and>
    take (length data) buf' = data"
proof -
  obtain r1 v1 where f: "process_frame can st (ff_frame i data) r v = Some (Pending, r1, v1)"
    and h: "rx_holds data 6 1 r1" and c: "m_cfg r1 = m_cfg r"
    using process_ff_frame [OF assms(1-3,5), of can st v] by blast
  have "cfg_rx_id (m_cfg r1) = i" "6 < length data" using c assms(2,5) by simp_all
  from feed_cf_frames_twice [OF h this, of can st v1] obtain r2
    where "feed can st (twice (cf_frames i 1 (drop 6 data))) r1 v1 = Some (r2, v1)"
    and complete: "rx_complete data r2" by blast
  with f get_complete [OF complete assms(4,4)] show ?thesis by fastforce
qed

theorem duplicates_ignored_witness:
  "\<exists>r1 v1 buf' r2.
    feed stub_can demo_store
      (ff_frame 0x7E0 (replicate 30 5) # twice (cf_frames 0x7E0 1 (drop 6 (replicate 30 5))))
      ecu_tp 0 = Some (r1, v1) \<and>
    isotp_get_data (Some (replicate 64 0)) (length (replicate 64 (0::u8))) r1 =
      (length (replicate 30 (5::u8)), Some buf', r2) \<and>
    take (length (replicate 30 (5::u8))) buf' = replicate 30 5"
  by (rule duplicates_ignored) simp_all

text \<open>
  The overflow guards of the receive path are never taken: for a classic CAN frame
  \<open>process_frame\<close> returns \<open>Overflow\<close> only for a flow control frame in which the peer
  reports its own overflow to a waiting sender. No first frame is ever answered with an
  overflow flow control, since its twelve bit length cannot exceed \<open>MAX_PAYLOAD\<close>.
\<close>

theorem overflow_only_from_peer:
  assumes "classic_frame f" and "rx_inv s"
    and "process_frame can st f s w = Some (Overflow, s', w')"
  shows "drop_bit 4 (cf_data f ! 0) AND 0x0F = 3 \<and> cf_data f ! 0 AND 0x0F = kFC_OVFL \<and>
    m_tx_state s = TxWaitFC \<and> s' = s \<and> w' = w"
proof -
  have sf: "handle_sf f s \<noteq> Some (Overflow, x)" for x
    unfolding handle_sf_classic [OF assms(1)] by (simp add: Let_def)
  have ff: "handle_ff can f s w \<noteq> Some (Overflow, x, y)" for x y
    unfolding handle_ff_classic [OF assms(1)] by (simp add: Let_def)
  have cf: "handle_cf can f s w \<noteq> Some (Overflow, x)" for x
  proof (cases "m_rx_state s = RxReceiving \<and> cf_data f ! 0 AND 0x0F = m_rx_sn s")
    case True
    then show ?thesis
      unfolding handle_cf_classic [OF assms(1,2) conjunct1 [OF True] conjunct2 [OF True]]
      by (simp add: Let_def)
  qed (auto simp: handle_cf_def)
  have never: "send_next_cf can st x w = Some (r, y, z) \<Longrightarrow> r \<noteq> Overflow" for x r y z
    by (induction rule: send_next_cf_induct) simp_all
  have fc: "m_tx_state s = TxWaitFC \<and> cf_data f ! 0 AND 0x0F = kFC_OVFL \<and> s' = s \<and> w' = w"
    if "handle_fc can st f s w = Some (Overflow, s', w')"
    using that never by (auto simp: handle_fc_def Let_def split: if_splits)
  show ?thesis using assms(3) sf ff cf fc
    by (auto simp: process_frame_def Let_def split: if_splits)
qed

theorem overflow_only_from_peer_witness:
  "drop_bit 4 (cf_data (fc_frame 0x7E0 2 0 0) ! 0) AND 0x0F = 3 \<and>
   cf_data (fc_frame 0x7E0 2 0 0) ! 0 AND 0x0F = kFC_OVFL \<and>
   m_tx_state (ecu_tp\<lparr>m_tx_state := TxWaitFC\<rparr>) = TxWaitFC \<and>
   ecu_tp\<lparr>m_tx_state := TxWaitFC\<rparr> = ecu_tp\<lparr>m_tx_state := TxWaitFC\<rparr> \<and> (0 :: u32) = 0"
proof (rule overflow_only_from_peer)
  show "classic_frame (fc_frame 0x7E0 2 0 0)"
    by (simp add: classic_frame_def fc_frame_def put_simps)
  show "rx_inv (ecu_tp\<lparr>m_tx_state := TxWaitFC\<rparr>)"
    by (subst rx_inv_cong [where s = ecu_tp]) simp_all
  show "process_frame stub_can demo_store (fc_frame 0x7E0 2 0 0)
      (ecu_tp\<lparr>m_tx_state := TxWaitFC\<rparr>) 0 =
    Some (Overflow, ecu_tp\<lparr>m_tx_state := TxWaitFC\<rparr>, 0)"
    unfolding process_frame_def handle_fc_def Let_def fc_frame_fields pci_nibbles
    by (simp add: kFC_OVFL_def isotp_new_def word_less_nat_alt)
qed

text \<open>
  A transmission dies silently when the driver refuses a consecutive frame: the call
  returns \<open>Error\<close> and leaves the state \<open>Sending\<close>, which no later \<open>update\<close> ends and in which
  every flow control frame is rejected without effect, whatever it says.
\<close>

theorem refused_cf_sticks:
  assumes "process_frame can st (fc_frame i kFC_CTS bs stm) s w = Some (Error, s', w')"
    and "m_tx_state s = TxWaitFC" and "cfg_rx_id (m_cfg s) = i"
  shows "m_tx_state s' = TxSending \<and> m_tx_state (isotp_update can s' u) = TxSending \<and>
    process_frame can st (fc_frame i fs bs' stm') s' u = Some (Error, s', u)"
proof -
  have p: "process_frame can st (fc_frame i kFC_CTS bs stm) s w =
      send_next_cf can st (s\<lparr>m_tx_bs_rem := bs, m_tx_bs_count := 0,
        m_tx_st_min := (if stm \<le> 0x7F then ucast stm else 1), m_tx_state := TxSending\<rparr>) w"
    unfolding process_frame_def handle_fc_def Let_def fc_frame_fields pci_nibbles
    using assms(2,3) by (simp add: kFC_CTS_def kFC_OVFL_def kFC_WAIT_def word_less_nat_alt)
  have *: "m_tx_state y = m_tx_state x \<and> m_cfg y = m_cfg x"
    if "send_next_cf can st x w = Some (r, y, z)" "r = Error" for x r y z
    using that by (induction rule: send_next_cf_induct) simp_all
  from *[OF assms(1) [unfolded p]] have "m_tx_state s' = TxSending" "cfg_rx_id (m_cfg s') = i"
    using assms(3) by simp_all
  then show ?thesis
    unfolding process_frame_def handle_fc_def Let_def fc_frame_fields pci_nibbles isotp_update_def
    by simp
qed

text \<open>A driver that refuses everything.\<close>

abbreviation dead_can :: "unit can_if" where
  "dead_can \<equiv> \<lparr>can_send = (\<lambda>f w. (False, w)), can_receive = (\<lambda>w. (None, w)), can_tick = (\<lambda>w. 0)\<rparr>"

abbreviation waiting_tp :: isotp where
  "waiting_tp \<equiv> ecu_tp\<lparr>m_tx_state := TxWaitFC, m_tx_data := Some 0, m_tx_total := 20,
     m_tx_offset := 6\<rparr>"

theorem refused_cf_sticks_witness:
  "\<exists>s'. m_tx_state s' = TxSending \<and> m_tx_state (isotp_update dead_can s' ()) = TxSending \<and>
    process_frame dead_can demo_store (fc_frame 0x7E0 0 0 0) s' () = Some (Error, s', ())"
proof -
  have "process_frame dead_can demo_store (fc_frame 0x7E0 kFC_CTS 0 0) waiting_tp () =
      Some (Error, waiting_tp\<lparr>m_tx_bs_rem := 0, m_tx_bs_count := 0, m_tx_st_min := 0,
        m_tx_state := TxSending\<rparr>, ())"
    unfolding process_frame_def handle_fc_def Let_def fc_frame_fields pci_nibbles
    by (simp add: kFC_CTS_def kFC_OVFL_def kFC_WAIT_def word_less_nat_alt isotp_new_def
        send_next_cf.simps tx_read_def mem_read_def)
  moreover have "m_tx_state waiting_tp = TxWaitFC" "cfg_rx_id (m_cfg waiting_tp) = 0x7E0"
    by (simp_all add: isotp_new_def)
  ultimately show ?thesis
    using refused_cf_sticks [where can = dead_can and s = waiting_tp and i = "0x7E0" and fs = 0
      and bs' = 0 and stm' = 0 and u = "()"] by blast
qed

text \<open>
  The N_Cr supervision of a reception: if a first frame was accepted at tick \<open>t0\<close> and
  \<open>t0 + n_cr_ms\<close> does not wrap, an \<open>update\<close> at a tick \<open>t\<close> before any further frame abandons
  the reception if and only if \<open>n_cr_ms\<close> milliseconds have passed.
\<close>

theorem reception_timeout_exact:
  assumes "process_frame can st f s w0 = Some (Pending, s', w')"
    and "drop_bit 4 (cf_data f ! 0) AND 0x0F = 1"
    and "unat (can_tick can w0) + unat (cfg_n_cr_ms (m_cfg s)) < 2 ^ 32"
    and "0 < unat (can_tick can w0) + unat (cfg_n_cr_ms (m_cfg s))"
  shows "m_rx_state (isotp_update can s' w) =
    (if unat (can_tick can w0) + unat (cfg_n_cr_ms (m_cfg s)) \<le> unat (can_tick can w)
     then RxIdle else RxReceiving)"
proof -
  let ?d = "can_tick can w0 + cfg_n_cr_ms (m_cfg s)"
  from assms(1,2) have "handle_ff can f s w0 = Some (Pending, s', w')"
    by (simp add: process_frame_def Let_def split: if_splits)
  then have s': "m_rx_state s' = RxReceiving" "m_rx_deadline s' = ?d"
    by (auto simp: handle_ff_def Let_def split: if_splits option.splits)
  have d: "unat ?d = unat (can_tick can w0) + unat (cfg_n_cr_ms (m_cfg s))"
    using assms(3) by (simp add: unat_word_ariths)
  then have "0 < ?d" using assms(4) by (simp add: word_less_nat_alt)
  with s' d show ?thesis by (simp add: isotp_update_def Let_def word_le_nat_alt)
qed

theorem reception_timeout_exact_witness:
  "\<exists>s'. m_rx_state (isotp_update stub_can s' 999) = RxReceiving \<and>
     m_rx_state (isotp_update stub_can s' 1000) = RxIdle"
proof -
  have l: "8 \<le> length (replicate 30 (5::u8))" by simp
  obtain s' w' where p: "process_frame stub_can demo_store (ff_frame 0x7E0 (replicate 30 5)) ecu_tp 0 =
      Some (Pending, s', w')"
    using process_ff_frame [OF rx_inv_fresh l, of ecu_cfg "0x7E0" stub_can demo_store 0] by auto
  have t: "drop_bit 4 (cf_data (ff_frame 0x7E0 (replicate 30 5)) ! 0) AND 0x0F = 1"
    unfolding ff_frame_fields [OF l] pci_nibbles ..
  from reception_timeout_exact [OF p t, of 999] reception_timeout_exact [OF p t, of 1000]
  show ?thesis
    by (intro exI [of _ s']) (simp add: stub_can_def kDefaultIsoTpConfig_def)
qed

end
