(* ===== verification/Uds_Server.thy ===== *)
theory Uds_Server
  imports Iso_Tp_Props Services_Session Registry
begin

text \<open>
  The server (\<open>src/uds/uds_server.cpp\<close>): registration and lookup of services, the dispatch of
  a received request, and the periodic \<open>process\<close>. The environment \<open>'s\<close> holds the state of
  all service objects, of the application and of the driver. A registered \<open>IService*\<close> is the
  pair of its identifier and its handler on the session and the environment. The transport
  object the server refers to is a field of the server. Its pointer to the data under
  transmission is an address: the response buffer of the server is \<open>resp_addr\<close>, the array of
  \<open>send_nrc\<close> on the stack is \<open>stack_addr\<close>.
\<close>

section \<open>Data\<close>

definition kMaxServices :: nat where "kMaxServices = 32"

record 's service =
  service_id :: u8
  handle :: "u8 list \<Rightarrow> u8 list \<Rightarrow> 's uds_session \<times> 's \<Rightarrow> reply \<times> 's uds_session \<times> 's"

record 's uds_server =
  us_transport :: isotp
  us_session :: "'s uds_session"
  us_services :: "'s service list"
  us_tick_fn :: "('s \<Rightarrow> u32) option"
  us_req_buf :: "u8 list"
  us_resp_buf :: "u8 list"

text \<open>The constructor leaves the content of the two buffers open.\<close>

definition server_new :: "isotp \<Rightarrow> TimingConfig \<Rightarrow> u8 list \<Rightarrow> u8 list \<Rightarrow> 's uds_server" where
  "server_new transport timing garbage garbage' =
     \<lparr>us_transport = transport, us_session = session_new timing, us_services = [],
      us_tick_fn = None, us_req_buf = garbage, us_resp_buf = garbage'\<rparr>"

definition set_tick_provider :: "('s \<Rightarrow> u32) option \<Rightarrow> 's uds_server \<Rightarrow> 's uds_server" where
  "set_tick_provider fn srv = srv\<lparr>us_tick_fn := fn\<rparr>"

definition get_tick :: "'s uds_server \<Rightarrow> 's \<Rightarrow> u32" where
  "get_tick srv w = (case us_tick_fn srv of None \<Rightarrow> 0 | Some f \<Rightarrow> f w)"

text \<open>\<open>None\<close> is the null pointer.\<close>

definition register_service :: "'s service option \<Rightarrow> 's uds_server \<Rightarrow> bool \<times> 's uds_server" where
  "register_service service srv =
     (case service of
        None \<Rightarrow> (False, srv)
      | Some svc \<Rightarrow>
          if length (us_services srv) \<ge> kMaxServices then (False, srv)
          else if \<exists>x \<in> set (us_services srv). service_id x = service_id svc then (False, srv)
          else (True, srv\<lparr>us_services := us_services srv @ [svc]\<rparr>))"

definition find_service :: "u8 \<Rightarrow> 's uds_server \<Rightarrow> 's service option" where
  "find_service sid srv = find (\<lambda>x. service_id x = sid) (us_services srv)"

section \<open>Requests\<close>

definition resp_addr :: addr where "resp_addr = 0"
definition stack_addr :: addr where "stack_addr = 1"

definition server_store :: "u8 list \<Rightarrow> u8 list \<Rightarrow> store" where
  "server_store resp_buf stack =
     (\<lambda>a. if a = resp_addr then resp_buf else if a = stack_addr then stack else [])"

text \<open>\<open>None\<close> is a read outside the array that is sent.\<close>

definition send_response ::
    "'s can_if \<Rightarrow> addr \<Rightarrow> u8 list \<Rightarrow> nat \<Rightarrow> 's uds_server \<Rightarrow> 's \<Rightarrow> ('s uds_server \<times> 's) option" where
  "send_response can data stack len srv w =
     (case isotp_send can (server_store (us_resp_buf srv) stack) (Some data) len
             (us_transport srv) w of
        None \<Rightarrow> None
      | Some (r, tp, w) \<Rightarrow> Some (srv\<lparr>us_transport := tp\<rparr>, w))"

definition send_nrc ::
    "'s can_if \<Rightarrow> u8 \<Rightarrow> NrcCode \<Rightarrow> 's uds_server \<Rightarrow> 's \<Rightarrow> ('s uds_server \<times> 's) option" where
  "send_nrc can sid nrc srv w =
     send_response can stack_addr [sid_byte NegativeResponse, sid, nrc_byte nrc] 3 srv w"

definition handle_request ::
    "'s can_if \<Rightarrow> u8 list \<Rightarrow> 's uds_server \<Rightarrow> 's \<Rightarrow> ('s uds_server \<times> 's) option" where
  "handle_request can data srv w =
     (if length data = 0 then Some (srv, w)
      else
        let sid = data ! 0 in
        case find_service sid srv of
          None \<Rightarrow> send_nrc can sid ServiceNotSupported srv w
        | Some svc \<Rightarrow>
            (case handle svc data (us_resp_buf srv) (us_session srv, w) of
               (r, session, w) \<Rightarrow>
                 let srv = srv\<lparr>us_resp_buf := r_buf r, us_session := session\<rparr>
                 in if r_send r \<and> r_len r > 0
                    then send_response can resp_addr [] (r_len r) srv w
                    else Some (srv, w)))"

text \<open>The first half of \<open>process\<close>: fetch a request and handle it.\<close>

definition poll_request :: "'s can_if \<Rightarrow> u32 \<Rightarrow> 's uds_server \<Rightarrow> 's \<Rightarrow> ('s uds_server \<times> 's) option" where
  "poll_request can tick srv w =
     (if m_data_ready (us_transport srv) then
        (case isotp_get_data (Some (us_req_buf srv)) (length (us_req_buf srv)) (us_transport srv) of
           (len, buf, tp) \<Rightarrow>
             let req_buf = (case buf of None \<Rightarrow> us_req_buf srv | Some b \<Rightarrow> b);
                 srv = srv\<lparr>us_req_buf := req_buf, us_transport := tp\<rparr>
             in if len > 0 then
                  handle_request can (take len req_buf)
                    (srv\<lparr>us_session := session_keep_alive tick (us_session srv)\<rparr>) w
                else Some (srv, w))
      else Some (srv, w))"

definition server_process :: "'s can_if \<Rightarrow> 's uds_server \<Rightarrow> 's \<Rightarrow> ('s uds_server \<times> 's) option" where
  "server_process can srv w =
     (let tick = get_tick srv w in
      case poll_request can tick srv w of
        None \<Rightarrow> None
      | Some (srv, w) \<Rightarrow>
          let tp = isotp_update can (us_transport srv) w in
          (case session_update tick (us_session srv) w of
             (session, w) \<Rightarrow> Some (srv\<lparr>us_transport := tp, us_session := session\<rparr>, w)))"

text \<open>The main loop hands the received frames to the transport object.\<close>

definition server_feed ::
    "'s can_if \<Rightarrow> can_frame list \<Rightarrow> 's uds_server \<Rightarrow> 's \<Rightarrow> ('s uds_server \<times> 's) option" where
  "server_feed can fs srv w =
     (case feed can (server_store (us_resp_buf srv) []) fs (us_transport srv) w of
        None \<Rightarrow> None
      | Some (tp, w) \<Rightarrow> Some (srv\<lparr>us_transport := tp\<rparr>, w))"


section \<open>The registered services\<close>

interpretation services: unique_registry kMaxServices
  "\<lambda>c srv. find_service (service_id c) srv = None" "\<lambda>c. c" service_id us_services
  "\<lambda>c. register_service (Some c)" find_service
  by unfold_locales (auto simp: register_service_def find_service_def find_None_iff')

lemma register_lookup:
  "find_service sid (snd (register_service c srv)) =
    (case find_service sid srv of
       Some svc \<Rightarrow> Some svc
     | None \<Rightarrow> if fst (register_service c srv) \<and> map_option service_id c = Some sid then c else None)"
  by (cases c) (auto simp: services.lookup_add register_service_def [of None] split: option.split)

definition services_inv :: "'s uds_server \<Rightarrow> bool" where
  "services_inv srv \<longleftrightarrow> length (us_services srv) \<le> 32 \<and> distinct (map service_id (us_services srv))"

lemma services_inv_register: "services_inv srv \<Longrightarrow> services_inv (snd (register_service c srv))"
  using services.entries_bounded [of srv] services.distinct_add [of srv]
  by (cases c) (simp_all add: services_inv_def register_service_def [of None] kMaxServices_def)

definition register_services :: "'s service option list \<Rightarrow> 's uds_server \<Rightarrow> 's uds_server" where
  "register_services cs srv = fold (\<lambda>c srv. snd (register_service c srv)) cs srv"

lemma services_inv_register_services: "services_inv srv \<Longrightarrow> services_inv (register_services cs srv)"
  unfolding register_services_def by (induction cs arbitrary: srv) (auto intro: services_inv_register)

text \<open>
  A service identifier has at most one handler: whatever services are registered in whatever
  order, null pointers included, the server holds at most 32 with distinct identifiers. A
  further registration succeeds exactly when the pointer is not null, its identifier is free
  and there is room; it never changes what \<open>find_service\<close> returns for another identifier or
  for one that has a service.
\<close>

theorem registered_services_unique:
  "let srv = register_services cs (server_new tp timing g g'); (ok, srv') = register_service c srv in
     length (us_services srv) \<le> 32 \<and> distinct (map service_id (us_services srv)) \<and>
     (ok \<longleftrightarrow> (\<exists>svc. c = Some svc \<and> length (us_services srv) < 32 \<and>
                    find_service (service_id svc) srv = None)) \<and>
     find_service sid srv' =
       (case find_service sid srv of
          Some svc \<Rightarrow> Some svc
        | None \<Rightarrow> if ok \<and> map_option service_id c = Some sid then c else None)"
proof -
  define srv where "srv = register_services cs (server_new tp timing g g')"
  have "services_inv srv"
    unfolding srv_def by (rule services_inv_register_services) (simp add: services_inv_def server_new_def)
  moreover have "fst (register_service c srv) \<longleftrightarrow> (\<exists>svc. c = Some svc \<and>
      length (us_services srv) < 32 \<and> find_service (service_id svc) srv = None)"
    using services.add_accepted [of _ srv]
    by (cases c) (simp_all add: register_service_def [of None] kMaxServices_def)
  ultimately show ?thesis
    using register_lookup [of sid c srv]
    by (simp add: srv_def [symmetric] Let_def split_def services_inv_def)
qed

section \<open>The transport object inside the server\<close>

lemma tx_inv_store:
  "(\<And>a. length (st' a) = length (st a)) \<Longrightarrow> tx_inv st' s = tx_inv st s"
  by (simp add: tx_inv_def tx_mem_def)

lemma tx_inv_update: "tx_inv st s \<Longrightarrow> tx_inv st (isotp_update can s w)"
  by (auto simp: isotp_update_def tx_inv_def tx_mem_def Let_def)

lemma tx_inv_get_data: "tx_inv st s \<Longrightarrow> tx_inv st (snd (snd (isotp_get_data buf n s)))"
  by (simp add: isotp_get_data_def tx_inv_def tx_mem_def Let_def split: option.split)

lemma isotp_send_defined:
  assumes "len \<le> length (st a)"
  shows "isotp_send can st (Some a) len s w \<noteq> None"
  using assms by (auto simp: isotp_send_def tx_read_def mem_read_def split: prod.splits)

lemma tx_inv_send:
  assumes "isotp_send can st (Some a) len s w = Some (r, s', w')" "tx_inv st s" "len \<le> length (st a)"
  shows "tx_inv st s'"
  using assms
  by (auto simp: isotp_send_def tx_read_def mem_read_def tx_inv_def tx_mem_def Let_def
      split: if_splits prod.splits)

text \<open>A single frame leaves the transport object alone.\<close>

lemma isotp_send_single:
  "len \<le> 7 \<Longrightarrow> isotp_send can st p len s w = Some (r, s', w') \<Longrightarrow> s' = s"
  by (auto simp: isotp_send_def Let_def split: if_splits prod.splits option.splits)


section \<open>Safety of the dispatch\<close>

text \<open>
  The environment the server runs in: an invariant of the application that the CAN driver
  keeps. A service keeps it together with the reply contract of \<open>uds_service\<close>.
\<close>

definition timeout_ok :: "('s \<Rightarrow> bool) \<Rightarrow> 's uds_session \<Rightarrow> bool" where
  "timeout_ok I session \<longleftrightarrow> (\<forall>cb w. m_timeout_cb session = Some cb \<and> I w \<longrightarrow> I (cb w))"

definition service_ok :: "('s \<Rightarrow> bool) \<Rightarrow> 's service \<Rightarrow> bool" where
  "service_ok I svc \<longleftrightarrow>
     (\<exists>sid. service_id svc = sid_byte sid \<and>
        uds_service sid (\<lambda>(session, w). timeout_ok I session \<and> I w) (handle svc))"

definition server_inv :: "('s \<Rightarrow> bool) \<Rightarrow> 's uds_server \<Rightarrow> bool" where
  "server_inv I srv \<longleftrightarrow> rx_inv (us_transport srv) \<and>
     tx_inv (server_store (us_resp_buf srv) []) (us_transport srv) \<and>
     length (us_req_buf srv) = kMaxResp \<and> length (us_resp_buf srv) = kMaxResp \<and>
     timeout_ok I (us_session srv) \<and>
     (\<forall>svc \<in> set (us_services srv). service_ok I svc)"

lemma find_service_ok:
  "find_service sid srv = Some svc \<Longrightarrow> server_inv I srv \<Longrightarrow> service_ok I svc"
  using services.lookup_key by (auto simp: server_inv_def)

lemma service_ok_handle:
  assumes "service_ok I svc" "timeout_ok I session \<and> I w" "data \<noteq> []" "length resp = kMaxResp"
    and "handle svc data resp (session, w) = (r, session', w')"
  shows "length (r_buf r) = kMaxResp \<and> r_len r \<le> kMaxResp \<and>
    timeout_ok I session' \<and> I w'"
proof -
  obtain sid where u: "uds_service sid (\<lambda>(session, w). timeout_ok I session \<and> I w) (handle svc)"
    using assms(1) by (auto simp: service_ok_def)
  from uds_service.reply_ok [OF u, of "(session, w)" data resp]
    uds_service.inv_kept [OF u, of "(session, w)" data resp] assms(2-5)
  show ?thesis by (simp add: reply_wf_def)
qed

lemma tx_inv_resp_buf:
  "length b = length b' \<Longrightarrow> tx_inv (server_store b st) s = tx_inv (server_store b' st) s"
  by (rule tx_inv_store) (simp add: server_store_def)

locale ecu_environment =
  fixes can :: "'s can_if"
    and I :: "'s \<Rightarrow> bool"
  assumes send_keeps: "I w \<Longrightarrow> I (snd (can_send can f w))"
begin

lemma isotp_send_keeps: "isotp_send can st p n s w = Some (r, s', w') \<Longrightarrow> I w \<Longrightarrow> I w'"
  by (auto simp: isotp_send_def Let_def split_def send_keeps split: if_splits option.splits)

lemma send_next_cf_keeps: "send_next_cf can st s w = Some (r, s', w') \<Longrightarrow> I w \<Longrightarrow> I w'"
proof (induction rule: send_next_cf_induct)
  case (fail s w bytes w')
  then show ?case using send_keeps [of w] by (metis snd_conv)
next
  case (step s w bytes w1 r s' w')
  then show ?case using send_keeps [of w] by (metis snd_conv)
qed simp_all

lemma process_frame_keeps: "process_frame can st f s w = Some (r, s', w') \<Longrightarrow> I w \<Longrightarrow> I w'"
  by (erule process_frame_cases)
    (auto simp: handle_ff_def handle_fc_def send_fc_def Let_def send_keeps
      dest: send_next_cf_keeps split: if_splits option.splits)

lemma send_response_safe:
  assumes "server_inv I srv" "I w"
    and "data = resp_addr \<and> len \<le> kMaxResp \<or> data = stack_addr \<and> len \<le> length stack \<and> len \<le> 7"
  shows "\<exists>srv' w'. send_response can data stack len srv w = Some (srv', w') \<and>
    server_inv I srv' \<and> I w' \<and> us_session srv' = us_session srv"
proof -
  let ?st = "server_store (us_resp_buf srv) stack"
  have l: "len \<le> length (?st data)"
    using assms(1,3) by (auto simp: server_store_def server_inv_def resp_addr_def stack_addr_def)
  obtain r tp w' where s: "isotp_send can ?st (Some data) len (us_transport srv) w = Some (r, tp, w')"
    using isotp_send_defined [of len ?st data can "us_transport srv" w] l by auto
  have rx: "rx_inv tp" using assms(1) rx_inv_send [OF _ s] by (simp add: server_inv_def)
  have tx: "tx_inv (server_store (us_resp_buf srv) []) tp"
  proof (cases "data = resp_addr")
    case True
    have "isotp_send can (server_store (us_resp_buf srv) []) (Some data) len (us_transport srv) w =
        isotp_send can ?st (Some data) len (us_transport srv) w"
      unfolding isotp_send_def tx_read_def by (simp add: True server_store_def resp_addr_def)
    with s tx_inv_send [of can "server_store (us_resp_buf srv) []" data len "us_transport srv" w r tp w']
      assms(1) l True show ?thesis
      by (simp add: server_inv_def server_store_def)
  next
    case False
    with assms(3) have "tp = us_transport srv" using isotp_send_single [OF _ s] by blast
    with assms(1) show ?thesis by (simp add: server_inv_def)
  qed
  from rx tx s assms(1,2) isotp_send_keeps [OF s] show ?thesis
    by (simp add: send_response_def server_inv_def)
qed

lemma handle_request_safe:
  assumes "server_inv I srv" "I w"
  shows "\<exists>srv' w'. handle_request can data srv w = Some (srv', w') \<and> server_inv I srv' \<and> I w'"
proof (cases "data = [] \<or> find_service (data ! 0) srv = None")
  case True
  then show ?thesis
    using send_response_safe [OF assms, of stack_addr 3 "[0x7F, data ! 0, 0x11]"] assms
    by (auto simp: handle_request_def send_nrc_def)
next
  case False
  then obtain svc where svc: "find_service (data ! 0) srv = Some svc" and d: "data \<noteq> []" by auto
  have len: "length (us_resp_buf srv) = kMaxResp" using assms(1) by (simp add: server_inv_def)
  obtain r session w1 where h: "handle svc data (us_resp_buf srv) (us_session srv, w) = (r, session, w1)"
    by (metis prod_cases3)
  have "timeout_ok I (us_session srv) \<and> I w" using assms by (simp add: server_inv_def)
  from service_ok_handle [OF find_service_ok [OF svc assms(1)] this d len h]
  have r: "length (r_buf r) = kMaxResp" "r_len r \<le> kMaxResp" "I w1" "timeout_ok I session"
    by simp_all
  let ?srv = "srv\<lparr>us_resp_buf := r_buf r, us_session := session\<rparr>"
  have i: "server_inv I ?srv"
    using assms(1) r(1,4) tx_inv_resp_buf [of "r_buf r" "us_resp_buf srv" "[]"]
    by (simp add: server_inv_def)
  show ?thesis
    using send_response_safe [OF i r(3), of resp_addr "r_len r" "[]"] svc d h i r
    by (auto simp: handle_request_def Let_def)
qed

lemma poll_request_safe:
  assumes "server_inv I srv" "I w"
  shows "\<exists>srv' w'. poll_request can tick srv w = Some (srv', w') \<and> server_inv I srv' \<and> I w'"
proof (cases "m_data_ready (us_transport srv)")
  case False
  with assms show ?thesis by (simp add: poll_request_def)
next
  case True
  obtain n b tp where g: "isotp_get_data (Some (us_req_buf srv)) (length (us_req_buf srv))
      (us_transport srv) = (n, Some b, tp)" and lb: "length b = length (us_req_buf srv)"
    using assms(1) True
    by (auto simp: isotp_get_data_def Let_def length_put server_inv_def)
  let ?srv = "srv\<lparr>us_req_buf := b, us_transport := tp\<rparr>"
  have i: "server_inv I ?srv"
    using assms(1) lb rx_inv_get_data [of "us_transport srv" "Some (us_req_buf srv)" "length (us_req_buf srv)"]
      tx_inv_get_data [of _ "us_transport srv" "Some (us_req_buf srv)" "length (us_req_buf srv)"] g
    by (simp add: server_inv_def)
  then have "server_inv I (?srv\<lparr>us_session := session_keep_alive tick (us_session ?srv)\<rparr>)"
    by (simp add: server_inv_def timeout_ok_def session_keep_alive_def Let_def)
  from handle_request_safe [OF this assms(2), of "take n b"] i assms(2) g True show ?thesis
    by (auto simp: poll_request_def Let_def)
qed

lemma feed_safe:
  assumes "rx_inv s" "tx_inv st s" "I w" "\<forall>f \<in> set fs. classic_frame f"
  shows "\<exists>tp w'. feed can st fs s w = Some (tp, w') \<and> rx_inv tp \<and> tx_inv st tp \<and> I w'"
  using assms
proof (induction fs arbitrary: s w)
  case (Cons f fs)
  then have f: "length (cf_data f) = 8" "unat (cf_dlc f) \<le> 8"
    by (auto simp: classic_frame_def word_le_nat_alt)
  then have "process_frame can st f s w \<noteq> None"
    using process_frame_None_iff [OF f(1) Cons.prems(2), of can w] by linarith
  then obtain r s' w' where p: "process_frame can st f s w = Some (r, s', w')" by auto
  from rx_inv_process_frame [OF _ Cons.prems(1) p] tx_inv_process_frame [OF Cons.prems(2) p]
    process_frame_keeps [OF p] Cons.prems Cons.IH [of s' w'] p
  show ?case by auto
qed simp

lemma server_feed_safe:
  assumes "server_inv I srv" "I w" "\<forall>f \<in> set fs. classic_frame f"
  shows "\<exists>srv' w'. server_feed can fs srv w = Some (srv', w') \<and> server_inv I srv' \<and> I w' \<and>
    us_session srv' = us_session srv"
  using feed_safe [of "us_transport srv" "server_store (us_resp_buf srv) []" w fs] assms
  by (auto simp: server_feed_def server_inv_def)

lemma server_process_safe:
  assumes "server_inv I srv" "I w"
  shows "\<exists>srv' w'. server_process can srv w = Some (srv', w') \<and> server_inv I srv' \<and> I w'"
proof -
  let ?tick = "get_tick srv w"
  obtain srv1 w1 where p: "poll_request can ?tick srv w = Some (srv1, w1)"
    and i: "server_inv I srv1" "I w1"
    using poll_request_safe [OF assms] by blast
  obtain session w2 where u: "session_update ?tick (us_session srv1) w1 = (session, w2)" by fastforce
  with i have "timeout_ok I session \<and> I w2"
    by (auto simp: session_update_def timeout_ok_def server_inv_def split: if_splits option.splits)
  with p i u rx_inv_update [of "us_transport srv1"] tx_inv_update [of _ "us_transport srv1"]
  show ?thesis
    by (auto simp: server_process_def server_inv_def)
qed

end

text \<open>The driver of the example keeps everything that is said about its tick counter.\<close>

interpretation stub_env: ecu_environment stub_can "\<lambda>_. True"
  by unfold_locales simp

section \<open>Services on the session\<close>

text \<open>A registered TesterPresent object; it has no state of its own.\<close>

definition tester_present_service :: "'s service" where
  "tester_present_service =
     \<lparr>service_id = sid_byte TesterPresent,
      handle = (\<lambda>req resp (session, w).
        case tester_present_handle req resp session of (r, session) \<Rightarrow> (r, session, w))\<rparr>"

lemma tester_present_keeps_callback:
  "m_timeout_cb (snd (tester_present_handle req resp session)) = m_timeout_cb session"
  by (simp add: tester_present_handle_def session_keep_alive_def Let_def)

lemma tester_present_service_ok: "service_ok I tester_present_service"
proof -
  have "uds_service TesterPresent (\<lambda>(session, w). timeout_ok I session \<and> I w)
      (handle (tester_present_service :: 'a service))"
  proof
    fix s :: "'a uds_session \<times> 'a" and req resp :: "u8 list"
    assume *: "case s of (session, w) \<Rightarrow> timeout_ok I session \<and> I w" "req \<noteq> []" "length resp = kMaxResp"
    then show "reply_wf kMaxResp TesterPresent (fst (handle tester_present_service req resp s))"
      using tester_present.reply_ok [of req resp "fst s"]
      by (simp add: tester_present_service_def split_def)
    from * show "case snd (handle tester_present_service req resp s) of
        (session, w) \<Rightarrow> timeout_ok I session \<and> I w"
      using tester_present_keeps_callback [of req resp "fst s"]
      by (auto simp: tester_present_service_def timeout_ok_def split: prod.split)
  qed
  then show ?thesis
    unfolding service_ok_def by (intro exI [of _ TesterPresent]) (simp add: tester_present_service_def)
qed

section \<open>Properties of the dispatch\<close>

text \<open>
  C5. The server is memory safe and keeps its invariant, whatever arrives: if the registered
  services keep their contract and the driver and the timeout callback keep the invariant of
  the application, then feeding any classic frames and running \<open>process\<close> never reads or writes
  outside a buffer and leads to a state in which the same holds again.
\<close>

theorem server_safe:
  assumes "\<And>f w. I w \<Longrightarrow> I (snd (can_send can f w))"
    and "server_inv I srv" "I w" "\<forall>f \<in> set fs. classic_frame f"
  shows "\<exists>srv1 w1 srv2 w2. server_feed can fs srv w = Some (srv1, w1) \<and>
    server_process can srv1 w1 = Some (srv2, w2) \<and> server_inv I srv2 \<and> I w2"
proof -
  have E: "ecu_environment can I" by unfold_locales (rule assms(1))
  from ecu_environment.server_feed_safe [OF E assms(2-4)]
  obtain srv1 w1 where 1: "server_feed can fs srv w = Some (srv1, w1)" "server_inv I srv1" "I w1"
    by blast
  from ecu_environment.server_process_safe [OF E 1(2,3)] 1(1) show ?thesis by blast
qed


text \<open>A server with TesterPresent alone on the driver of the example.\<close>

abbreviation demo_server :: "u32 uds_server" where
  "demo_server \<equiv> register_services [Some tester_present_service]
     (server_new ecu_tp kDefaultTiming (replicate 4096 0) (replicate 4096 0))"

lemma demo_server_inv: "server_inv (\<lambda>_. True) demo_server"
proof -
  have "rx_inv ecu_tp" by (rule rx_inv_new) (simp add: MAX_PAYLOAD_def)
  then show ?thesis
    using tester_present_service_ok
    by (simp add: server_inv_def register_services_def register_service_def server_new_def
        kMaxServices_def tx_inv_def isotp_new_def kMaxResp_def timeout_ok_def session_new_def)
qed

theorem server_safe_witness:
  "\<exists>srv1 w1 srv2 w2.
    server_feed stub_can [sf_frame 0x7E0 [0x3E, 0x00], fc_frame 0x7E0 0 0 0] demo_server 0 =
      Some (srv1, w1) \<and>
    server_process stub_can srv1 w1 = Some (srv2, w2) \<and> server_inv (\<lambda>_. True) srv2 \<and> True"
  by (rule server_safe [OF _ demo_server_inv])
    (simp_all add: classic_sf_frame, simp add: classic_frame_def fc_frame_def put_simps)

end
