(* ===== verification/Service_Objects.thy ===== *)
theory Service_Objects
  imports Services_Blind Security_Props Uds_Server
begin

text \<open>
  The service classes of the library as objects (the class declarations in
  \<open>include/uds/services/\<close>): for each class what its constructor stores, the identifier it
  reports and its handler on its own members, and the ECU that registers one object of every
  class with its server. \<open>ecu_objects\<close> holds the members that change and the tables that are
  filled at start-up; the callbacks are arguments of the constructors and act on the part
  \<open>ob_env\<close>, which stands for everything the user pointers lead to.
\<close>

section \<open>An object on a part of the state\<close>

text \<open>
  A service object: its handler on the part of the application it refers to,
  read by \<open>rd\<close> and stored by \<open>wr\<close>.
\<close>

definition app_service ::
    "ServiceId \<Rightarrow> ('s \<Rightarrow> 'x) \<Rightarrow> ('x \<Rightarrow> 's \<Rightarrow> 's) \<Rightarrow>
     ('s uds_session \<Rightarrow> u8 list \<Rightarrow> u8 list \<Rightarrow> 'x \<Rightarrow> reply \<times> 'x) \<Rightarrow> 's service" where
  "app_service sid rd wr h =
     \<lparr>service_id = sid_byte sid,
      handle = (\<lambda>req resp (session, w).
        case h session req resp (rd w) of (r, x) \<Rightarrow> (r, session, wr x w))\<rparr>"

section \<open>The members\<close>

record ('d, 'w) ecu_objects =
  ob_can :: 'd
  ob_env :: 'w
  ob_dids :: "'w data_identifier list"
  ob_wdids :: "'w data_identifier list"
  ob_controls :: "'w io_control_entry list"
  ob_routines :: "'w routine_entry list"
  ob_link :: link_control
  ob_roe :: roe_service
  ob_download :: bool
  ob_upload :: bool
  ob_transfer :: transfer_data
  ob_security :: "'w security"
  ob_dtc :: dtc_manager

text \<open>The objects as their constructors leave them; the tables are those of the registrations.\<close>

definition ecu_objects_new ::
    "'d \<Rightarrow> 'w \<Rightarrow> u8 \<Rightarrow> 'w data_identifier list \<Rightarrow> 'w data_identifier list \<Rightarrow>
     'w io_control_entry list \<Rightarrow> 'w routine_entry list \<Rightarrow> 'w security_level list \<Rightarrow>
     (u32 \<times> u8) list \<Rightarrow> ('d, 'w) ecu_objects" where
  "ecu_objects_new drv env garbage dids wdids ios routines levels dtcs =
     \<lparr>ob_can = drv, ob_env = env,
      ob_dids = fold (\<lambda>e t. snd (register_did e t)) dids [],
      ob_wdids = fold (\<lambda>e t. snd (register_did e t)) wdids [],
      ob_controls = fold (\<lambda>e t. snd (register_io_control e t)) ios [],
      ob_routines = fold (\<lambda>e t. snd (register_routine e t)) routines [],
      ob_link = link_control_new, ob_roe = roe_new garbage,
      ob_download = False, ob_upload = False, ob_transfer = td_new,
      ob_security = fold (\<lambda>l s. snd (register_level l s)) levels security_new,
      ob_dtc = fold (\<lambda>(code, severity) m. snd (register_dtc code severity m)) dtcs dtc_manager_new\<rparr>"

section \<open>The classes\<close>

definition dsc_service ::
    "(SessionType \<Rightarrow> SessionType \<Rightarrow> 'w \<Rightarrow> 'w) option \<Rightarrow> ('d, 'w) ecu_objects service" where
  "dsc_service cb = \<lparr>service_id = sid_byte DiagnosticSessionControl,
     handle = dsc_handle (map_option (\<lambda>f old new. ob_env_update (f old new)) cb)\<rparr>"

definition ecu_reset_service ::
    "(ResetType \<Rightarrow> 'w \<Rightarrow> 'w) option \<Rightarrow> ('d, 'w) ecu_objects service" where
  "ecu_reset_service cb = app_service EcuReset ob_env (\<lambda>v. ob_env_update (\<lambda>_. v))
     (\<lambda>_. ecu_reset_handle cb)"

definition comm_control_service ::
    "(u8 \<Rightarrow> u8 \<Rightarrow> 'w \<Rightarrow> 'w) option \<Rightarrow> ('d, 'w) ecu_objects service" where
  "comm_control_service cb = app_service CommunicationControl ob_env (\<lambda>v. ob_env_update (\<lambda>_. v))
     (comm_control_handle cb)"

definition control_dtc_service ::
    "(u8 \<Rightarrow> u8 list option \<Rightarrow> 'w \<Rightarrow> 'w) option \<Rightarrow> ('d, 'w) ecu_objects service" where
  "control_dtc_service cb = app_service ControlDtcSetting ob_env (\<lambda>v. ob_env_update (\<lambda>_. v))
     (control_dtc_handle cb)"

definition link_control_service ::
    "(u32 \<Rightarrow> 'w \<Rightarrow> 'w) option \<Rightarrow> ('d, 'w) ecu_objects service" where
  "link_control_service cb = app_service LinkControl (\<lambda>w. (ob_link w, ob_env w))
     (\<lambda>(l, v) w. w\<lparr>ob_link := l, ob_env := v\<rparr>) (link_control_handle cb)"

definition roe_object :: "('d, 'w) ecu_objects service" where
  "roe_object = app_service ResponseOnEvent ob_roe (\<lambda>r w. w\<lparr>ob_roe := r\<rparr>) (\<lambda>_. roe_handle)"

definition rdbi_service :: "('d, 'w) ecu_objects service" where
  "rdbi_service = app_service ReadDataByIdentifier (\<lambda>w. (ob_dids w, ob_env w))
     (\<lambda>(t, v) w. w\<lparr>ob_dids := t, ob_env := v\<rparr>)
     (\<lambda>_ req resp (t, v). case rdbi_handle t req resp v of (r, v) \<Rightarrow> (r, (t, v)))"

definition wdbi_service :: "('d, 'w) ecu_objects service" where
  "wdbi_service = app_service WriteDataByIdentifier (\<lambda>w. (ob_wdids w, ob_env w))
     (\<lambda>(t, v) w. w\<lparr>ob_wdids := t, ob_env := v\<rparr>)
     (\<lambda>_ req resp (t, v). case wdbi_handle t req resp v of (r, v) \<Rightarrow> (r, (t, v)))"

definition io_service :: "('d, 'w) ecu_objects service" where
  "io_service = app_service InputOutputControlByIdentifier (\<lambda>w. (ob_controls w, ob_env w))
     (\<lambda>(t, v) w. w\<lparr>ob_controls := t, ob_env := v\<rparr>)
     (\<lambda>session req resp (t, v). case io_handle t session req resp v of (r, v) \<Rightarrow> (r, (t, v)))"

definition routine_service :: "('d, 'w) ecu_objects service" where
  "routine_service = app_service RoutineControl (\<lambda>w. (ob_routines w, ob_env w))
     (\<lambda>(t, v) w. w\<lparr>ob_routines := t, ob_env := v\<rparr>)
     (\<lambda>session req resp (t, v). case routine_handle t session req resp v of (r, v) \<Rightarrow> (r, (t, v)))"

definition read_memory_service ::
    "(u32 \<Rightarrow> u8 list \<Rightarrow> nat \<Rightarrow> 'w \<Rightarrow> nat \<times> u8 list \<times> 'w) option \<Rightarrow>
     ('d, 'w) ecu_objects service" where
  "read_memory_service cb = app_service ReadMemoryByAddress (\<lambda>w. (cb, ob_env w))
     (\<lambda>(_, v) w. w\<lparr>ob_env := v\<rparr>)
     (\<lambda>_ req resp (c, v). case read_memory_handle c req resp v of (r, v) \<Rightarrow> (r, (c, v)))"

definition write_memory_service ::
    "(u32 \<Rightarrow> u8 list \<Rightarrow> nat \<Rightarrow> 'w \<Rightarrow> bool \<times> 'w) option \<Rightarrow> ('d, 'w) ecu_objects service" where
  "write_memory_service cb = app_service WriteMemoryByAddress (\<lambda>w. (cb, ob_env w))
     (\<lambda>(_, v) w. w\<lparr>ob_env := v\<rparr>)
     (\<lambda>_ req resp (c, v). case write_memory_handle c req resp v of (r, v) \<Rightarrow> (r, (c, v)))"

definition download_service :: "'w accept_fn option \<Rightarrow> ('d, 'w) ecu_objects service" where
  "download_service cb = app_service RequestDownload (\<lambda>w. (ob_download w, ob_env w))
     (\<lambda>(a, v) w. w\<lparr>ob_download := a, ob_env := v\<rparr>) (request_download_handle cb)"

definition upload_service :: "'w accept_fn option \<Rightarrow> ('d, 'w) ecu_objects service" where
  "upload_service cb = app_service RequestUpload (\<lambda>w. (ob_upload w, ob_env w))
     (\<lambda>(a, v) w. w\<lparr>ob_upload := a, ob_env := v\<rparr>) (\<lambda>_. request_upload_handle cb)"

definition transfer_service ::
    "(u8 \<Rightarrow> u8 list \<Rightarrow> 'w \<Rightarrow> bool \<times> 'w) option \<Rightarrow> ('d, 'w) ecu_objects service" where
  "transfer_service cb = app_service TransferData (\<lambda>w. (ob_transfer w, ob_env w))
     (\<lambda>(t, v) w. w\<lparr>ob_transfer := t, ob_env := v\<rparr>) (\<lambda>_. transfer_data_handle cb)"

text \<open>RequestTransferExit refers to the objects of the download and of the transfer.\<close>

definition transfer_exit_service :: "'w exit_fn option \<Rightarrow> ('d, 'w) ecu_objects service" where
  "transfer_exit_service cb = app_service RequestTransferExit
     (\<lambda>w. (cb, (ob_download w, ob_transfer w, ob_env w)))
     (\<lambda>(_, (a, t, v)) w. w\<lparr>ob_download := a, ob_transfer := t, ob_env := v\<rparr>)
     (\<lambda>_ req resp (c, s). case transfer_exit_handle c req resp s of (r, s) \<Rightarrow> (r, (c, s)))"

definition security_service :: "('d, 'w) ecu_objects service" where
  "security_service = app_service SecurityAccess (\<lambda>w. (ob_security w, ob_env w))
     (\<lambda>(s, v) w. w\<lparr>ob_security := s, ob_env := v\<rparr>) security_handle"

definition read_dtc_service :: "('d, 'w) ecu_objects service" where
  "read_dtc_service = app_service ReadDtcInformation ob_dtc (\<lambda>m w. w\<lparr>ob_dtc := m\<rparr>)
     (\<lambda>_. read_dtc_handle)"

definition clear_dtc_service :: "('d, 'w) ecu_objects service" where
  "clear_dtc_service = app_service ClearDiagnosticInformation ob_dtc (\<lambda>m w. w\<lparr>ob_dtc := m\<rparr>)
     (\<lambda>_. clear_dtc_handle)"

section \<open>The ECU with every class\<close>

record 'w ecu_callbacks =
  on_session :: "(SessionType \<Rightarrow> SessionType \<Rightarrow> 'w \<Rightarrow> 'w) option"
  on_ecu_reset :: "(ResetType \<Rightarrow> 'w \<Rightarrow> 'w) option"
  on_comm_control :: "(u8 \<Rightarrow> u8 \<Rightarrow> 'w \<Rightarrow> 'w) option"
  on_dtc_setting :: "(u8 \<Rightarrow> u8 list option \<Rightarrow> 'w \<Rightarrow> 'w) option"
  on_link_control :: "(u32 \<Rightarrow> 'w \<Rightarrow> 'w) option"
  on_read_memory :: "(u32 \<Rightarrow> u8 list \<Rightarrow> nat \<Rightarrow> 'w \<Rightarrow> nat \<times> u8 list \<times> 'w) option"
  on_write_memory :: "(u32 \<Rightarrow> u8 list \<Rightarrow> nat \<Rightarrow> 'w \<Rightarrow> bool \<times> 'w) option"
  on_download :: "'w accept_fn option"
  on_upload :: "'w accept_fn option"
  on_transfer :: "(u8 \<Rightarrow> u8 list \<Rightarrow> 'w \<Rightarrow> bool \<times> 'w) option"
  on_transfer_exit :: "'w exit_fn option"

definition library_services :: "'w ecu_callbacks \<Rightarrow> ('d, 'w) ecu_objects service list" where
  "library_services cbs =
     [tester_present_service, dsc_service (on_session cbs), ecu_reset_service (on_ecu_reset cbs),
      comm_control_service (on_comm_control cbs), control_dtc_service (on_dtc_setting cbs),
      link_control_service (on_link_control cbs), roe_object, rdbi_service, wdbi_service,
      io_service, routine_service, read_memory_service (on_read_memory cbs),
      write_memory_service (on_write_memory cbs), download_service (on_download cbs),
      upload_service (on_upload cbs), transfer_service (on_transfer cbs),
      transfer_exit_service (on_transfer_exit cbs), security_service, read_dtc_service,
      clear_dtc_service]"

definition library_server ::
    "IsoTpConfig \<Rightarrow> 'w ecu_callbacks \<Rightarrow> u8 list \<Rightarrow> u8 list \<Rightarrow> u8 list \<Rightarrow>
     ('d, 'w) ecu_objects uds_server" where
  "library_server cfg cbs g g' g'' =
     register_services (map Some (library_services cbs))
       (server_new (isotp_new g cfg) kDefaultTiming g' g'')"

lemmas service_object_defs = tester_present_service_def dsc_service_def ecu_reset_service_def
  comm_control_service_def control_dtc_service_def link_control_service_def roe_object_def
  rdbi_service_def wdbi_service_def io_service_def routine_service_def read_memory_service_def
  write_memory_service_def download_service_def upload_service_def transfer_service_def
  transfer_exit_service_def security_service_def read_dtc_service_def clear_dtc_service_def

lemma service_id_app [simp]: "service_id (app_service sid rd wr h) = sid_byte sid"
  by (simp add: app_service_def)

lemma library_service_ids:
  "map service_id (library_services cbs) =
    [0x3E, 0x10, 0x11, 0x28, 0x85, 0x87, 0x86, 0x22, 0x2E, 0x2F, 0x31, 0x23, 0x3D, 0x34, 0x35,
     0x36, 0x37, 0x27, 0x19, 0x14]"
  by (simp add: library_services_def service_object_defs)

lemma library_services_registered [simp]:
  "us_services (library_server cfg cbs g g' g'') = library_services cbs"
  by (simp add: library_server_def register_services_def library_services_def register_service_def
      server_new_def kMaxServices_def service_object_defs)

lemma library_server_simps [simp]:
  "us_transport (library_server cfg cbs g g' g'') = isotp_new g cfg"
  "us_session (library_server cfg cbs g g' g'') = session_new kDefaultTiming"
  "us_tick_fn (library_server cfg cbs g g' g'') = None"
  "us_req_buf (library_server cfg cbs g g' g'') = g'"
  "us_resp_buf (library_server cfg cbs g g' g'') = g''"
  by (simp_all add: library_server_def register_services_def library_services_def
      register_service_def server_new_def kMaxServices_def service_object_defs)

section \<open>The contract of the objects\<close>

definition blind_ok :: "('s \<Rightarrow> bool) \<Rightarrow> 's service \<Rightarrow> bool" where
  "blind_ok I svc \<longleftrightarrow>
     (\<exists>sid. service_id svc = sid_byte sid \<and>
        blind_service sid (\<lambda>(session, w). timeout_ok I session \<and> I w) (handle svc))"

text \<open>A service on a part of the application keeps its contract when the part keeps its own.\<close>

lemma app_service_ok:
  assumes "\<And>session. uds_service sid J (h session)"
    and "\<And>w. I w \<Longrightarrow> J (rd w)" "\<And>w x. I w \<Longrightarrow> J x \<Longrightarrow> I (wr x w)"
  shows "service_ok I (app_service sid rd wr h)"
proof -
  have "uds_service sid (\<lambda>(session, w). timeout_ok I session \<and> I w)
      (handle (app_service sid rd wr h))"
  proof
    fix s :: "'a uds_session \<times> 'a" and req resp :: "u8 list"
    assume *: "case s of (session, w) \<Rightarrow> timeout_ok I session \<and> I w" "req \<noteq> []" "length resp = kMaxResp"
    obtain session w where s: "s = (session, w)" by (cases s)
    obtain r x where h: "h session req resp (rd w) = (r, x)" by fastforce
    have J: "J (rd w)" using * assms(2) by (simp add: s)
    show "reply_wf kMaxResp sid (fst (handle (app_service sid rd wr h) req resp s))"
      using uds_service.reply_ok [OF assms(1) J *(2,3), of session] by (simp add: s h app_service_def)
    show "case snd (handle (app_service sid rd wr h) req resp s) of
        (session, w) \<Rightarrow> timeout_ok I session \<and> I w"
      using uds_service.inv_kept [OF assms(1) J *(2,3), of session] * assms(3)
      by (simp add: s h app_service_def)
  qed
  then show ?thesis
    unfolding service_ok_def by (intro exI [of _ sid]) (simp add: app_service_def)
qed

lemma blind_service_ok: "blind_ok I svc \<Longrightarrow> service_ok I svc"
  by (auto simp: blind_ok_def service_ok_def intro: blind_service.axioms(1))

lemma blind_okI:
  assumes "service_ok I svc"
    and "\<And>session w req resp resp'. I w \<Longrightarrow> req \<noteq> [] \<Longrightarrow> length resp = kMaxResp \<Longrightarrow>
      length resp' = kMaxResp \<Longrightarrow>
      same_reply (fst (handle svc req resp (session, w))) (fst (handle svc req resp' (session, w))) \<and>
      snd (handle svc req resp (session, w)) = snd (handle svc req resp' (session, w))"
  shows "blind_ok I svc"
proof -
  obtain sid where sid: "service_id svc = sid_byte sid"
    and u: "uds_service sid (\<lambda>(session, w). timeout_ok I session \<and> I w) (handle svc)"
    using assms(1) by (auto simp: service_ok_def)
  have "blind_service_axioms (\<lambda>(session, w). timeout_ok I session \<and> I w) (handle svc)"
  proof
    fix s :: "'a uds_session \<times> 'a" and req resp resp' :: "u8 list"
    assume "case s of (session, w) \<Rightarrow> timeout_ok I session \<and> I w" "req \<noteq> []"
      "length resp = kMaxResp" "length resp' = kMaxResp"
    with assms(2) [of "snd s" req resp resp' "fst s"]
    show "same_reply (fst (handle svc req resp s)) (fst (handle svc req resp' s)) \<and>
        snd (handle svc req resp s) = snd (handle svc req resp' s)"
      by (cases s) simp
  qed
  with u sid show ?thesis by (auto simp: blind_ok_def intro: blind_service.intro)
qed

lemma app_service_blind:
  assumes "\<And>session. blind_service sid J (h session)"
    and "\<And>w. I w \<Longrightarrow> J (rd w)" "\<And>w x. I w \<Longrightarrow> J x \<Longrightarrow> I (wr x w)"
  shows "blind_ok I (app_service sid rd wr h)"
proof (rule blind_okI)
  show "service_ok I (app_service sid rd wr h)"
    by (rule app_service_ok [of sid J h, OF blind_service.axioms(1) [OF assms(1)]])
      (use assms(2,3) in auto)
  fix session w and req resp resp' :: "u8 list"
  assume "I w" "req \<noteq> []" "length resp = kMaxResp" "length resp' = kMaxResp"
  then show "same_reply (fst (handle (app_service sid rd wr h) req resp (session, w)))
      (fst (handle (app_service sid rd wr h) req resp' (session, w))) \<and>
    snd (handle (app_service sid rd wr h) req resp (session, w)) =
      snd (handle (app_service sid rd wr h) req resp' (session, w))"
    using blind_service.blind [OF assms(1), of "rd w" req resp resp' session] assms(2)
    by (simp add: app_service_def split_def)
qed

lemma tester_present_service_blind: "blind_ok I tester_present_service"
  using tester_present_service_ok
  by (rule blind_okI)
    (use tester_present_blind.blind in \<open>simp add: tester_present_service_def split_def\<close>)

lemma dsc_keeps_timeout:
  "m_timeout_cb (fst (snd (dsc_handle cb req resp s))) = m_timeout_cb (fst s)"
  by (cases s) (auto simp: dsc_handle_def Let_def session_transition_def session_reset_def
      split: bool.split)

lemma dsc_world:
  "snd (snd (dsc_handle cb req resp (session, w))) \<in>
    insert w (case cb of None \<Rightarrow> {} | Some f \<Rightarrow> {f old new w | old new. True})"
  by (cases cb) (auto simp: dsc_handle_def Let_def call_if_def split: bool.split prod.split)

lemma dsc_service_blind:
  assumes "\<And>f old new w. cb = Some f \<Longrightarrow> I w \<Longrightarrow> I (f old new w)"
  shows "blind_ok I \<lparr>service_id = sid_byte DiagnosticSessionControl, handle = dsc_handle cb\<rparr>"
proof (rule blind_okI)
  have "uds_service DiagnosticSessionControl (\<lambda>(session, w). timeout_ok I session \<and> I w) (dsc_handle cb)"
  proof
    fix s :: "'a uds_session \<times> 'a" and req resp :: "u8 list"
    assume *: "case s of (session, w) \<Rightarrow> timeout_ok I session \<and> I w" "req \<noteq> []" "length resp = kMaxResp"
    then show "reply_wf kMaxResp DiagnosticSessionControl (fst (dsc_handle cb req resp s))"
      by (intro dsc.reply_ok) simp_all
    from * show "case snd (dsc_handle cb req resp s) of (session, w) \<Rightarrow> timeout_ok I session \<and> I w"
      using dsc_keeps_timeout [of cb req resp s] dsc_world [of cb req resp "fst s" "snd s"] assms
      by (auto simp: timeout_ok_def split: prod.splits option.splits)
  qed
  then show "service_ok I \<lparr>service_id = sid_byte DiagnosticSessionControl, handle = dsc_handle cb\<rparr>"
    unfolding service_ok_def by (intro exI [of _ DiagnosticSessionControl]) simp
qed (simp add: dsc_blind_handle)

text \<open>The documented duties of the callbacks and of the registered entries.\<close>

definition callbacks_ok :: "'w ecu_callbacks \<Rightarrow> bool" where
  "callbacks_ok cbs \<longleftrightarrow>
     read_cb_ok (on_read_memory cbs) \<and> read_cb_blind (on_read_memory cbs) \<and>
     exit_cb_ok (on_transfer_exit cbs) \<and> exit_cb_blind (on_transfer_exit cbs)"

definition objects_inv :: "('d, 'w) ecu_objects \<Rightarrow> bool" where
  "objects_inv w \<longleftrightarrow>
     (\<forall>d \<in> set (ob_dids w). reader_ok d \<and> reader_blind (\<lambda>_. True) d) \<and>
     (\<forall>e \<in> set (ob_controls w). io_ok e \<and> io_blind e) \<and>
     (\<forall>e \<in> set (ob_routines w). routine_ok e \<and> routine_blind e) \<and>
     security_inv (ob_security w) \<and> dtc_inv (ob_dtc w)"

lemmas blind_contracts = ecu_reset_blind.blind_service_axioms comm_control_blind.blind_service_axioms
  control_dtc_blind.blind_service_axioms link_control_blind.blind_service_axioms
  roe_blind.blind_service_axioms
  io_blind.blind_service_axioms routine_blind.blind_service_axioms
  read_memory_blind.blind_service_axioms write_memory_blind.blind_service_axioms
  request_download_blind.blind_service_axioms request_upload_blind.blind_service_axioms
  transfer_data_blind.blind_service_axioms transfer_exit_blind.blind_service_axioms
  security_blind.blind_service_axioms read_dtc_blind.blind_service_axioms
  clear_dtc_blind.blind_service_axioms

lemmas did_contracts = rdbi_blind.blind_service_axioms wdbi_blind.blind_service_axioms

lemma library_services_blind:
  assumes "callbacks_ok cbs"
  shows "\<forall>svc \<in> set (library_services cbs). blind_ok objects_inv svc"
proof -
  have cbs: "read_cb_ok (on_read_memory cbs)" "read_cb_blind (on_read_memory cbs)"
    "exit_cb_ok (on_transfer_exit cbs)" "exit_cb_blind (on_transfer_exit cbs)"
    using assms by (simp_all add: callbacks_ok_def)
  show ?thesis
    unfolding library_services_def list.set ball_simps dsc_service_def ecu_reset_service_def
      comm_control_service_def control_dtc_service_def link_control_service_def roe_object_def
      rdbi_service_def wdbi_service_def io_service_def routine_service_def read_memory_service_def
      write_memory_service_def download_service_def upload_service_def transfer_service_def
      transfer_exit_service_def security_service_def read_dtc_service_def clear_dtc_service_def
    by (intro conjI tester_present_service_blind dsc_service_blind TrueI;
        (rule app_service_blind, rule blind_contracts did_contracts [where W = "\<lambda>_. True"])?)
      (auto simp: objects_inv_def cbs writer_keeps_def)
qed

lemma xor_level_generator_ok: "generator_ok (xor_level L k s)"
  by (simp add: generator_ok_def xor_level_def xor_generate_seed_def Let_def length_put)

end
