(* ===== verification/Library_Ecu.thy ===== *)
theory Library_Ecu
  imports Service_Objects
begin

text \<open>
  An ECU with one object of every service class (\<open>Service_Objects\<close>) on an arbitrary driver:
  its start, its runs over arriving frames, calls of \<open>process\<close> and the operations the
  application calls on the objects, and what holds in every run.
\<close>

section \<open>The objects at start-up\<close>

lemma registry_fold_all:
  assumes "\<And>e t. set (snd (add e t)) \<subseteq> insert e (set t)"
  shows "set (fold (\<lambda>e t. snd (add e t)) es t) \<subseteq> set es \<union> set t"
proof (induction es arbitrary: t)
  case (Cons e es)
  from Cons.IH [of "snd (add e t)"] assms [of e t] show ?case by auto
qed simp

lemma register_did_set: "set (snd (register_did e t)) \<subseteq> insert e (set t)"
  by (auto simp: register_did_def)

lemma register_io_set: "set (snd (register_io_control e t)) \<subseteq> insert e (set t)"
  by (auto simp: register_io_control_def)

lemma register_routine_set: "set (snd (register_routine e t)) \<subseteq> insert e (set t)"
  by (auto simp: register_routine_def)

lemma security_inv_fold:
  "\<forall>l \<in> set ls. generator_ok l \<Longrightarrow> security_inv s \<Longrightarrow>
    security_inv (fold (\<lambda>l s. snd (register_level l s)) ls s)"
  by (induction ls arbitrary: s) (auto intro: security_inv_register)

lemma dtc_inv_fold:
  "dtc_inv m \<Longrightarrow> dtc_inv (fold (\<lambda>(c, v) m. snd (register_dtc c v m)) ds m)"
  by (induction ds arbitrary: m) (auto intro: dtc_inv_register)

lemma objects_inv_new:
  assumes "\<forall>d \<in> set dids. reader_ok d \<and> reader_blind (\<lambda>_. True) d" "\<forall>e \<in> set ios. io_ok e \<and> io_blind e"
    "\<forall>e \<in> set routines. routine_ok e \<and> routine_blind e" "\<forall>l \<in> set levels. generator_ok l"
  shows "objects_inv (ecu_objects_new drv env garbage dids wdids ios routines levels dtcs)"
proof -
  have "set (fold (\<lambda>e t. snd (register_did e t)) dids []) \<subseteq> set dids"
    "set (fold (\<lambda>e t. snd (register_io_control e t)) ios []) \<subseteq> set ios"
    "set (fold (\<lambda>e t. snd (register_routine e t)) routines []) \<subseteq> set routines"
    using registry_fold_all [of register_did dids "[]", OF register_did_set]
      registry_fold_all [of register_io_control ios "[]", OF register_io_set]
      registry_fold_all [of register_routine routines "[]", OF register_routine_set] by simp_all
  then show ?thesis
    using assms security_inv_fold [OF assms(4), of security_new]
      dtc_inv_fold [OF dtc_inv_new, of dtcs]
    by (fastforce simp: objects_inv_def ecu_objects_new_def)
qed

section \<open>Running the ECU\<close>

definition objects_can_if :: "'d can_if \<Rightarrow> ('d, 'w) ecu_objects can_if" where
  "objects_can_if can =
     \<lparr>can_send = (\<lambda>f w. case can_send can f (ob_can w) of (ok, d) \<Rightarrow> (ok, w\<lparr>ob_can := d\<rparr>)),
      can_receive = (\<lambda>w. case can_receive can (ob_can w) of (f, d) \<Rightarrow> (f, w\<lparr>ob_can := d\<rparr>)),
      can_tick = (\<lambda>w. can_tick can (ob_can w))\<rparr>"

text \<open>
  What happens in an ECU: frames arrive and are handed to the transport layer, \<open>process\<close>
  runs, the driver and the environment of the callbacks change by themselves, and the
  application calls the operations of the security service, of the trouble code table, and of
  the transfer services (\<open>start\<close> and \<open>reset\<close> of TransferData, \<open>reset\<close> of RequestDownload and
  RequestUpload).
\<close>

datatype ('d, 'w) ecu_event =
    Frames "can_frame list" | Process | Driver "'d \<Rightarrow> 'd" | Environment "'w \<Rightarrow> 'w"
  | SecurityTick u32 | TroubleCode dtc_event
  | StartTransfer | ResetTransfer | ResetDownload | ResetUpload

fun ecu_step ::
    "'d can_if \<Rightarrow> ('d, 'w) ecu_event \<Rightarrow> ('d, 'w) ecu_objects uds_server \<times> ('d, 'w) ecu_objects \<Rightarrow>
     (('d, 'w) ecu_objects uds_server \<times> ('d, 'w) ecu_objects) option" where
  "ecu_step can (Frames fs) (srv, w) = server_feed (objects_can_if can) fs srv w"
| "ecu_step can Process (srv, w) = server_process (objects_can_if can) srv w"
| "ecu_step can (Driver f) (srv, w) = Some (srv, w\<lparr>ob_can := f (ob_can w)\<rparr>)"
| "ecu_step can (Environment f) (srv, w) = Some (srv, w\<lparr>ob_env := f (ob_env w)\<rparr>)"
| "ecu_step can (SecurityTick t) (srv, w) =
     Some (srv, w\<lparr>ob_security := security_update t (ob_security w)\<rparr>)"
| "ecu_step can (TroubleCode e) (srv, w) = Some (srv, w\<lparr>ob_dtc := dtc_apply e (ob_dtc w)\<rparr>)"
| "ecu_step can StartTransfer (srv, w) = Some (srv, w\<lparr>ob_transfer := td_start (ob_transfer w)\<rparr>)"
| "ecu_step can ResetTransfer (srv, w) = Some (srv, w\<lparr>ob_transfer := td_reset (ob_transfer w)\<rparr>)"
| "ecu_step can ResetDownload (srv, w) = Some (srv, w\<lparr>ob_download := False\<rparr>)"
| "ecu_step can ResetUpload (srv, w) = Some (srv, w\<lparr>ob_upload := False\<rparr>)"

fun ecu_run ::
    "'d can_if \<Rightarrow> ('d, 'w) ecu_event list \<Rightarrow> ('d, 'w) ecu_objects uds_server \<times> ('d, 'w) ecu_objects \<Rightarrow>
     (('d, 'w) ecu_objects uds_server \<times> ('d, 'w) ecu_objects) option" where
  "ecu_run can [] st = Some st"
| "ecu_run can (e # es) st =
     (case ecu_step can e st of None \<Rightarrow> None | Some st \<Rightarrow> ecu_run can es st)"

text \<open>
  An invariant of the objects that neither the driver nor the application can break, where the
  application may call \<open>start\<close> of the transfer service only when \<open>starts\<close> holds.
\<close>

locale ecu_invariant =
  fixes I :: "('d, 'w) ecu_objects \<Rightarrow> bool" and starts :: bool
  assumes driver_keeps: "I (w\<lparr>ob_can := d\<rparr>) \<longleftrightarrow> I w"
    and environment_keeps: "I (w\<lparr>ob_env := v\<rparr>) \<longleftrightarrow> I w"
    and tick_keeps: "I w \<Longrightarrow> I (w\<lparr>ob_security := security_update t (ob_security w)\<rparr>)"
    and code_keeps: "I w \<Longrightarrow> I (w\<lparr>ob_dtc := dtc_apply e (ob_dtc w)\<rparr>)"
    and start_keeps: "starts \<Longrightarrow> I w \<Longrightarrow> I (w\<lparr>ob_transfer := td_start (ob_transfer w)\<rparr>)"
    and reset_keeps: "I w \<Longrightarrow> I (w\<lparr>ob_transfer := td_reset (ob_transfer w)\<rparr>)"
    and request_reset_keeps: "I w \<Longrightarrow> I (w\<lparr>ob_download := False\<rparr>)" "I w \<Longrightarrow> I (w\<lparr>ob_upload := False\<rparr>)"
begin

lemma objects_environment: "ecu_environment (objects_can_if can) I"
  by unfold_locales (simp add: objects_can_if_def driver_keeps split: prod.split)

lemma ecu_step_safe:
  assumes "server_inv I srv" "I w"
    and "\<forall>fs. e = Frames fs \<longrightarrow> (\<forall>f \<in> set fs. classic_frame f)" "e = StartTransfer \<longrightarrow> starts"
  shows "\<exists>srv' w'. ecu_step can e (srv, w) = Some (srv', w') \<and> server_inv I srv' \<and> I w'"
proof (cases e)
  case (Frames fs)
  with assms(3) have "\<forall>f \<in> set fs. classic_frame f" by simp
  from ecu_environment.server_feed_safe [OF objects_environment assms(1,2) this, of can] Frames
  show ?thesis by auto
next
  case Process
  with ecu_environment.server_process_safe [OF objects_environment assms(1,2), of can]
  show ?thesis by auto
qed (use assms in \<open>auto simp: driver_keeps environment_keeps intro: tick_keeps code_keeps
    start_keeps reset_keeps request_reset_keeps\<close>)

lemma ecu_run_safe:
  assumes "server_inv I srv" "I w"
    and "\<forall>fs. Frames fs \<in> set es \<longrightarrow> (\<forall>f \<in> set fs. classic_frame f)" "StartTransfer \<in> set es \<longrightarrow> starts"
  shows "\<exists>srv' w'. ecu_run can es (srv, w) = Some (srv', w') \<and> server_inv I srv' \<and> I w'"
  using assms
proof (induction es arbitrary: srv w)
  case (Cons e es)
  obtain srv1 w1 where 1: "ecu_step can e (srv, w) = Some (srv1, w1)" "server_inv I srv1" "I w1"
    using ecu_step_safe [OF Cons.prems(1,2), of e can] Cons.prems(3,4) by auto
  from Cons.IH [OF 1(2,3)] Cons.prems(3,4) 1(1) show ?case by auto
qed simp

end

interpretation tables: ecu_invariant "objects_inv :: ('d, 'w) ecu_objects \<Rightarrow> bool" True
  by unfold_locales (simp_all add: objects_inv_def dtc_inv_apply)

text \<open>No transfer is active.\<close>

definition idle_inv :: "('d, 'w) ecu_objects \<Rightarrow> bool" where
  "idle_inv w \<longleftrightarrow> objects_inv w \<and> \<not> td_active (ob_transfer w)"

interpretation idle: ecu_invariant "idle_inv :: ('d, 'w) ecu_objects \<Rightarrow> bool" False
  by unfold_locales (simp_all add: idle_inv_def objects_inv_def dtc_inv_apply td_reset_def)

lemma library_server_inv:
  assumes "\<forall>svc \<in> set (library_services cbs). blind_ok I svc"
    and "length g = 4096" "length g' = 4096" "length g'' = 4096"
  shows "server_inv I (set_tick_provider tick (library_server cfg cbs g g' g''))"
proof -
  have "rx_inv (isotp_new g cfg)" by (rule rx_inv_new) (simp add: assms MAX_PAYLOAD_def)
  then show ?thesis
    using assms blind_service_ok
    by (auto simp: server_inv_def tx_inv_def isotp_new_def kMaxResp_def timeout_ok_def session_new_def
        set_tick_provider_def)
qed

text \<open>TransferData and RequestTransferExit leave a transfer that is not active so.\<close>

lemma transfer_data_idle:
  "blind_service TransferData (\<lambda>(td, w). \<not> td_active td) (transfer_data_handle cb)"
  by unfold_locales
    (auto simp: transfer_data_handle_def kMaxResp_def split: prod.splits)

lemma transfer_exit_keeps_idle:
  "\<not> td_active td \<Longrightarrow> \<not> td_active (fst (snd (snd (transfer_exit_handle cb req resp (a, td, w)))))"
  by (auto simp: transfer_exit_handle_def Let_def td_reset_def split: option.splits prod.splits)

lemma transfer_exit_idle:
  "blind_service RequestTransferExit
    (\<lambda>(cb, a, td, w). exit_cb_ok cb \<and> exit_cb_blind cb \<and> \<not> td_active td)
    (\<lambda>req resp (cb, s). case transfer_exit_handle cb req resp s of (r, s') \<Rightarrow> (r, (cb, s')))"
proof unfold_locales
  fix s :: "'a exit_fn option \<times> bool \<times> transfer_data \<times> 'a" and req resp resp' :: "u8 list"
  let ?h = "\<lambda>req resp (cb, s). case transfer_exit_handle cb req resp s of (r, s') \<Rightarrow> (r, (cb, s'))"
  obtain cb a td w where s: "s = (cb, a, td, w)" by (cases s)
  assume "case s of (cb, a, td, w) \<Rightarrow> exit_cb_ok cb \<and> exit_cb_blind cb \<and> \<not> td_active td"
    "req \<noteq> []" and resp: "length resp = kMaxResp"
  then have cb: "case s of (cb, _) \<Rightarrow> exit_cb_ok cb \<and> exit_cb_blind cb" "\<not> td_active td" "req \<noteq> []"
    by (simp_all add: s)
  note c = cb(1,3) resp
  show "reply_wf kMaxResp RequestTransferExit (fst (?h req resp s))"
    using transfer_exit_blind.reply_ok [OF c] by (simp add: s)
  show "case snd (?h req resp s) of (cb, a, td, w) \<Rightarrow> exit_cb_ok cb \<and> exit_cb_blind cb \<and> \<not> td_active td"
    using cb(1) transfer_exit_keeps_idle [OF cb(2), of cb req resp a w]
    by (auto simp: s split: prod.splits)
  show "same_reply (fst (?h req resp s)) (fst (?h req resp' s)) \<and> snd (?h req resp s) = snd (?h req resp' s)"
    if "length resp' = kMaxResp"
    using transfer_exit_blind.blind [OF c that] by (simp add: s)
qed

lemma library_services_idle:
  assumes "callbacks_ok cbs"
  shows "\<forall>svc \<in> set (library_services cbs). blind_ok idle_inv svc"
proof -
  have cbs: "read_cb_ok (on_read_memory cbs)" "read_cb_blind (on_read_memory cbs)"
    "exit_cb_ok (on_transfer_exit cbs)" "exit_cb_blind (on_transfer_exit cbs)"
    using assms by (simp_all add: callbacks_ok_def)
  show ?thesis
    unfolding library_services_def list.set ball_simps service_object_defs(2-)
    by (intro conjI tester_present_service_blind dsc_service_blind TrueI;
        (rule app_service_blind, rule transfer_data_idle transfer_exit_idle
          blind_contracts did_contracts [where W = "\<lambda>_. True"])?)
      (auto simp: idle_inv_def objects_inv_def cbs writer_keeps_def)
qed

text \<open>The server does not depend on what WriteMemoryByAddress's callback does beyond its data.\<close>

lemma library_server_within:
  fixes cbs :: "'w ecu_callbacks"
  assumes "on_write_memory cbs = Some f" "same_within f f'"
  shows "(library_server cfg (cbs\<lparr>on_write_memory := Some f'\<rparr>) g g' g'' :: ('d, 'w) ecu_objects uds_server) =
    library_server cfg cbs g g' g''"
proof -
  have "write_memory_service (Some f') = (write_memory_service (Some f) :: ('d, 'w) ecu_objects service)"
    by (simp add: write_memory_service_def app_service_def fun_eq_iff write_memory_within [OF assms(2)]
        split: prod.split)
  with assms(1) show ?thesis by (simp add: library_server_def library_services_def)
qed

section \<open>Properties\<close>

text \<open>
  C4. The server accepts all twenty service classes of the library, and an ECU that registers
  them keeps its memory in order: from its start, whatever classic frames arrive in whatever
  order with runs of \<open>process\<close>, whatever the driver and the environment of the callbacks do,
  and whatever test results, operation cycles, ticks, starts and resets of transfers the
  application reports, no access of the transport layer is outside its array, the buffers of the
  transport layer and of the server keep their sizes (no handler writes past the end of the
  response buffer), the indices into them stay inside, and the tables of the security levels and
  trouble codes stay well formed. What the callback of WriteMemoryByAddress would do with a
  length beyond the data of the request makes no difference to the run, unless the length is in
  the last 32 values below 2^32, where the check of the handler may have wrapped around. (The reads
  of a handler in its own request are not counted as accesses here.) The callbacks and entries
  registered keep the duties the headers document; the driver is arbitrary.
\<close>

theorem library_never_faults:
  assumes "callbacks_ok cbs"
    and "\<forall>d \<in> set dids. reader_ok d \<and> reader_blind (\<lambda>_. True) d" "\<forall>e \<in> set ios. io_ok e \<and> io_blind e"
      "\<forall>e \<in> set routines. routine_ok e \<and> routine_blind e" "\<forall>l \<in> set levels. generator_ok l"
    and "length g = 4096" "length g' = 4096" "length g'' = 4096"
    and "\<forall>fs. Frames fs \<in> set es \<longrightarrow> (\<forall>f \<in> set fs. classic_frame f)"
  shows "\<exists>srv w. ecu_run (can :: 'd can_if) es
      (set_tick_provider tick (library_server cfg cbs g g' g''),
       ecu_objects_new drv env garbage dids wdids ios routines levels dtcs) = Some (srv, w) \<and>
    (\<forall>sid. find_service (sid_byte sid) (library_server cfg cbs g g' g'' ::
        ('d, 'w) ecu_objects uds_server) = None \<longleftrightarrow>
      sid = PositiveResponseOffset \<or> sid = NegativeResponse) \<and>
    length (m_rx_buf (us_transport srv)) = 4096 \<and>
    length (us_req_buf srv) = 4096 \<and> length (us_resp_buf srv) = 4096 \<and>
    rx_inv (us_transport srv) \<and> tx_inv (server_store (us_resp_buf srv) []) (us_transport srv) \<and>
    security_inv (ob_security w) \<and> dtc_inv (ob_dtc w) \<and>
    (\<forall>f f'. on_write_memory cbs = Some f \<longrightarrow> same_within f f' \<longrightarrow>
      ecu_run can es
        (set_tick_provider tick (library_server cfg (cbs\<lparr>on_write_memory := Some f'\<rparr>) g g' g''),
         ecu_objects_new drv env garbage dids wdids ios routines levels dtcs) = Some (srv, w))"
proof -
  let ?srv = "set_tick_provider tick (library_server cfg cbs g g' g'') :: ('d, 'w) ecu_objects uds_server"
  let ?w = "ecu_objects_new drv env garbage dids wdids ios routines levels dtcs"
  have "server_inv objects_inv ?srv"
    by (rule library_server_inv [OF library_services_blind [OF assms(1)] assms(6-8)])
  then obtain srv w where "ecu_run can es (?srv, ?w) = Some (srv, w)"
    "server_inv objects_inv srv" "objects_inv w"
    using tables.ecu_run_safe [OF _ objects_inv_new [OF assms(2-5)] assms(9)] by (metis TrueI)
  moreover have "find_service (sid_byte sid) (library_server cfg cbs g g' g'' ::
      ('d, 'w) ecu_objects uds_server) = None \<longleftrightarrow>
    sid = PositiveResponseOffset \<or> sid = NegativeResponse" for sid
  proof -
    have "find_service (sid_byte sid) (library_server cfg cbs g g' g'' ::
        ('d, 'w) ecu_objects uds_server) = None \<longleftrightarrow>
      sid_byte sid \<notin> set (map service_id (library_services cbs :: ('d, 'w) ecu_objects service list))"
      by (force simp: find_service_def find_None_iff)
    then show ?thesis unfolding library_service_ids by (cases sid) simp_all
  qed
  moreover have "library_server cfg (cbs\<lparr>on_write_memory := Some f'\<rparr>) g g' g'' =
      (library_server cfg cbs g g' g'' :: ('d, 'w) ecu_objects uds_server)"
    if "on_write_memory cbs = Some f" "same_within f f'" for f f'
    by (rule library_server_within [OF that])
  ultimately show ?thesis
    by (auto simp: server_inv_def objects_inv_def kMaxResp_def rx_inv_def MAX_PAYLOAD_def)
qed

text \<open>An ECU with a memory, one identifier and one security level.\<close>

definition store_bytes :: "u32 \<Rightarrow> u8 list \<Rightarrow> nat \<Rightarrow> u32 \<Rightarrow> bool \<times> u32" where
  "store_bytes address data len w = (True, w + of_nat len)"

definition demo_callbacks :: "u32 ecu_callbacks" where
  "demo_callbacks = \<lparr>on_session = None, on_ecu_reset = Some (\<lambda>_ w. w + 1), on_comm_control = None,
     on_dtc_setting = None, on_link_control = None, on_read_memory = Some (memory_reader (\<lambda>_. 0xAA)),
     on_write_memory = Some store_bytes, on_download = None, on_upload = None, on_transfer = None,
     on_transfer_exit = None\<rparr>"

definition demo_did :: "u32 data_identifier" where
  "demo_did = \<lparr>did = 0xF186, writable = False,
     read_fn = Some (\<lambda>b m w. if m < 4 then (0, b, w) else (4, put 0 (word_bytes w) b, w)),
     write_fn = None\<rparr>"

lemma memory_reader_blind: "read_cb_blind (Some (memory_reader m))"
  by (auto simp: read_cb_blind_def same_fill_def memory_reader_def put_def)

lemma demo_callbacks_ok: "callbacks_ok demo_callbacks"
  by (simp add: read_memory_reader_ok memory_reader_blind callbacks_ok_def demo_callbacks_def exit_cb_ok_def exit_cb_blind_def)

lemma demo_did_ok: "reader_ok demo_did \<and> reader_blind (\<lambda>_. True) demo_did"
  by (auto simp: reader_ok_def reader_blind_def demo_did_def fills_buffer_def same_fill_def length_put
      put_def split: if_splits)

theorem library_never_faults_witness:
  "\<exists>srv w. ecu_run stub_can [Frames [sf_frame 0x7E0 [0x3E, 0x00]], Process, SecurityTick 5,
        TroubleCode OpCycle, StartTransfer, Driver stub_tick, Process]
      (set_tick_provider None (library_server ecu_cfg demo_callbacks (replicate 4096 0)
         (replicate 4096 0) (replicate 4096 0)),
       ecu_objects_new 0 7 0 [demo_did] [] [] [] [xor_level 1 0xDEAD1234 Extended] [(0x010101, 0)]) =
      Some (srv, w) \<and>
    (\<forall>sid. find_service (sid_byte sid) (library_server ecu_cfg demo_callbacks (replicate 4096 0)
        (replicate 4096 0) (replicate 4096 0) :: (u32, u32) ecu_objects uds_server) = None \<longleftrightarrow>
      sid = PositiveResponseOffset \<or> sid = NegativeResponse) \<and>
    length (m_rx_buf (us_transport srv)) = 4096 \<and>
    length (us_req_buf srv) = 4096 \<and> length (us_resp_buf srv) = 4096 \<and>
    rx_inv (us_transport srv) \<and> tx_inv (server_store (us_resp_buf srv) []) (us_transport srv) \<and>
    security_inv (ob_security w) \<and> dtc_inv (ob_dtc w) \<and>
    (\<forall>f'. same_within store_bytes f' \<longrightarrow> ecu_run stub_can [Frames [sf_frame 0x7E0 [0x3E, 0x00]],
        Process, SecurityTick 5, TroubleCode OpCycle, StartTransfer, Driver stub_tick, Process]
      (set_tick_provider None (library_server ecu_cfg (demo_callbacks\<lparr>on_write_memory := Some f'\<rparr>)
         (replicate 4096 0) (replicate 4096 0) (replicate 4096 0)),
       ecu_objects_new 0 7 0 [demo_did] [] [] [] [xor_level 1 0xDEAD1234 Extended] [(0x010101, 0)]) =
      Some (srv, w))"
proof -
  have w: "on_write_memory demo_callbacks = Some store_bytes" by (simp add: demo_callbacks_def)
  have c: "\<forall>fs. Frames fs \<in> set [Frames [sf_frame 0x7E0 [0x3E, 0x00]], Process, SecurityTick 5,
      TroubleCode OpCycle, StartTransfer, Driver stub_tick, Process] \<longrightarrow> (\<forall>f \<in> set fs. classic_frame f)"
    by (simp add: classic_sf_frame)
  have d: "\<forall>d \<in> set [demo_did]. reader_ok d \<and> reader_blind (\<lambda>_. True) d"
    "\<forall>l \<in> set [xor_level 1 0xDEAD1234 Extended]. generator_ok l"
    using demo_did_ok xor_level_generator_ok by simp_all
  show ?thesis
    using library_never_faults [OF demo_callbacks_ok d(1) _ _ d(2) _ _ _ c, of "[]" "[]"
        "replicate 4096 0" "replicate 4096 0" "replicate 4096 0"] w
    by simp
qed

text \<open>
  C20. No download gets beyond its first request, whatever the tester sends: \<open>start\<close>, which
  makes TransferData take blocks, is called nowhere in the library. In every run of an ECU whose
  application does not call it either, RequestDownload may have been accepted any number of
  times, and every TransferData request is still refused with requestSequenceError and
  changes nothing.
\<close>

theorem transfers_never_start:
  assumes "callbacks_ok cbs"
    and "\<forall>d \<in> set dids. reader_ok d \<and> reader_blind (\<lambda>_. True) d" "\<forall>e \<in> set ios. io_ok e \<and> io_blind e"
      "\<forall>e \<in> set routines. routine_ok e \<and> routine_blind e" "\<forall>l \<in> set levels. generator_ok l"
    and "length g = 4096" "length g' = 4096" "length g'' = 4096"
    and "\<forall>fs. Frames fs \<in> set es \<longrightarrow> (\<forall>f \<in> set fs. classic_frame f)" "StartTransfer \<notin> set es"
    and "ecu_run can es
      (set_tick_provider tick (library_server cfg cbs g g' g''),
       ecu_objects_new drv env garbage dids wdids ios routines levels dtcs) = Some (srv, w)"
    and "2 \<le> length req"
  shows "handle (transfer_service cb) req resp (session, w) =
    (nrc_reply TransferData RequestSequenceError resp, session, w)"
proof -
  let ?w = "ecu_objects_new drv env garbage dids wdids ios routines levels dtcs"
  have "idle_inv ?w"
    using objects_inv_new [OF assms(2-5), where drv = drv and env = env and garbage = garbage
        and wdids = wdids and dtcs = dtcs]
    by (simp add: idle_inv_def) (simp add: ecu_objects_new_def td_new_def)
  then have "idle_inv w"
    using idle.ecu_run_safe [OF library_server_inv [OF library_services_idle [OF assms(1)] assms(6-8)] _
        assms(9), of ?w can tick cfg] assms(10,11) by auto
  with assms(12) show ?thesis
    by (simp add: idle_inv_def transfer_service_def app_service_def transfer_data_handle_def
        split: prod.split)
qed

text \<open>
  An ECU whose application takes every download: the download is accepted, its first block
  is not.
\<close>

definition download_callbacks :: "u32 ecu_callbacks" where
  "download_callbacks = demo_callbacks\<lparr>on_download := Some (\<lambda>req w. (True, 0x80, w))\<rparr>"

lemma download_callbacks_ok: "callbacks_ok download_callbacks"
  using demo_callbacks_ok by (simp add: callbacks_ok_def download_callbacks_def)

lemma download_accepted:
  assumes "\<not> ob_download w" "m_session session = Programming"
  shows "handle (download_service (on_download download_callbacks)) [0x34, 0x00, 0x11, 0x10, 0x20]
      resp (session, w) =
    (pos_reply True RequestDownload [0x20, 0, 0x80] resp, session, w\<lparr>ob_download := True\<rparr>)"
  using assms
  by (simp add: download_service_def app_service_def request_download_handle_def
      download_callbacks_def low_nibble_def high_nibble_def byte_at_def)

theorem transfers_never_start_witness:
  "\<exists>srv w. ecu_run stub_can [Frames [sf_frame 0x7E0 [0x10, 0x02]], Process,
        Frames [sf_frame 0x7E0 [0x34, 0x00, 0x11, 0x10, 0x20]], Process]
      (set_tick_provider None (library_server ecu_cfg download_callbacks (replicate 4096 0)
         (replicate 4096 0) (replicate 4096 0)), ecu_objects_new 0 7 0 [] [] [] [] [] []) =
      Some (srv, w) \<and>
    handle (transfer_service None) [0x36, 0x01, 0xAA] (replicate 4096 0) (us_session srv, w) =
      (nrc_reply TransferData RequestSequenceError (replicate 4096 0), us_session srv, w)"
proof -
  let ?es = "[Frames [sf_frame 0x7E0 [0x10, 0x02]], Process,
        Frames [sf_frame 0x7E0 [0x34, 0x00, 0x11, 0x10, 0x20]], Process]"
  let ?srv = "set_tick_provider None (library_server ecu_cfg download_callbacks (replicate 4096 0)
         (replicate 4096 0) (replicate 4096 0))"
  let ?w = "ecu_objects_new 0 7 0 [] [] [] [] [] []"
  have f: "\<forall>fs. Frames fs \<in> set ?es \<longrightarrow> (\<forall>f \<in> set fs. classic_frame f)"
    by (auto simp: classic_sf_frame)
  have "server_inv objects_inv ?srv"
    by (rule library_server_inv [OF library_services_blind [OF download_callbacks_ok]]) simp_all
  moreover have "objects_inv ?w" by (rule objects_inv_new) simp_all
  ultimately obtain srv w where run: "ecu_run stub_can ?es (?srv, ?w) = Some (srv, w)"
    using tables.ecu_run_safe f TrueI by metis
  moreover have "handle (transfer_service None) [0x36, 0x01, 0xAA] (replicate 4096 0) (us_session srv, w) =
      (nrc_reply TransferData RequestSequenceError (replicate 4096 0), us_session srv, w)"
    by (rule transfers_never_start [OF download_callbacks_ok _ _ _ _ _ _ _ f _ run]) simp_all
  ultimately show ?thesis by blast
qed

text \<open>
  C9. No byte of an earlier reply leaks into a later one: each of the twenty services, in
  every session and state, gives a reply inside the buffer that is its positive response or
  a negative response with its identifier, and what it sends and does is the same whatever
  the shared response buffer held before.
\<close>

theorem replies_do_not_leak:
  assumes "callbacks_ok cbs" "svc \<in> set (library_services cbs)" "objects_inv w"
    and "m_timeout_cb session = None" "req \<noteq> []" "length resp = 4096" "length resp' = 4096"
    and "handle svc req resp (session, w) = (r, st)" "handle svc req resp' (session, w) = (r', st')"
  shows "length (r_buf r) = 4096 \<and> r_len r \<le> 4096 \<and>
    ((\<exists>bs. reply_bytes r = (service_id svc + 0x40) # bs) \<or>
     (\<exists>nrc. r_send r \<and> reply_bytes r = [0x7F, service_id svc, nrc_byte nrc])) \<and>
    r_send r' = r_send r \<and> reply_bytes r' = reply_bytes r \<and> st' = st"
proof -
  obtain sid where sid: "service_id svc = sid_byte sid"
    and b: "blind_service sid (\<lambda>(session, w). timeout_ok objects_inv session \<and> objects_inv w) (handle svc)"
    using library_services_blind [OF assms(1)] assms(2) by (auto simp: blind_ok_def)
  have "reply_wf kMaxResp sid r"
    using uds_service.reply_ok [OF blind_service.axioms(1) [OF b], of "(session, w)" req resp] assms
    by (simp add: timeout_ok_def kMaxResp_def)
  moreover have "same_reply r r' \<and> st = st'"
    using blind_service.blind [OF b, of "(session, w)" req resp resp'] assms
    by (simp add: timeout_ok_def kMaxResp_def)
  ultimately show ?thesis
    by (auto simp: reply_wf_def positive_reply_def negative_reply_def same_reply_def sid kMaxResp_def)
qed

theorem replies_do_not_leak_witness:
  "reply_bytes (fst (handle rdbi_service [0x22, 0xF1, 0x86] (replicate 4096 0x55)
      (session_new kDefaultTiming, ecu_objects_new () 7 0 [demo_did] [] [] [] [] []))) =
    reply_bytes (fst (handle rdbi_service [0x22, 0xF1, 0x86] (replicate 4096 0)
      (session_new kDefaultTiming, ecu_objects_new () 7 0 [demo_did] [] [] [] [] [])))"
proof -
  let ?w = "ecu_objects_new () 7 0 [demo_did] [] [] [] [] []"
  have I: "objects_inv ?w" using demo_did_ok by (intro objects_inv_new) simp_all
  have svc: "(rdbi_service :: (unit, u32) ecu_objects service) \<in> set (library_services demo_callbacks)"
    by (simp add: library_services_def)
  from replies_do_not_leak [OF demo_callbacks_ok svc I, of "session_new kDefaultTiming"
      "[0x22, 0xF1, 0x86]" "replicate 4096 0" "replicate 4096 0x55"]
  show ?thesis by (simp add: session_new_def) (metis prod.collapse)
qed

end
