(* ===== verification/Server_Props.thy ===== *)
theory Server_Props
  imports Uds_Server
begin

text \<open>
  What the server does with a request, from the completed reception to the frames of the
  reply on the bus, and the ways in which it loses a session or a reply.
\<close>

section \<open>Fetching a request\<close>

definition fetched :: "u32 \<Rightarrow> u8 list \<Rightarrow> 's uds_server \<Rightarrow> 's uds_server" where
  "fetched tick data srv = srv\<lparr>us_req_buf := put 0 data (us_req_buf srv),
     us_transport := (us_transport srv)\<lparr>m_data_ready := False, m_rx_received := 0\<rparr>,
     us_session := session_keep_alive tick (us_session srv)\<rparr>"

lemma fetched_simps [simp]:
  "us_resp_buf (fetched tick data srv) = us_resp_buf srv"
  "us_services (fetched tick data srv) = us_services srv"
  "us_session (fetched tick data srv) = session_keep_alive tick (us_session srv)"
  "us_tick_fn (fetched tick data srv) = us_tick_fn srv"
  "find_service sid (fetched tick data srv) = find_service sid srv"
  "m_cfg (us_transport (fetched tick data srv)) = m_cfg (us_transport srv)"
  "m_tx_state (us_transport (fetched tick data srv)) = m_tx_state (us_transport srv)"
  by (simp_all add: fetched_def find_service_def)

lemma us_transport_fetched: "us_transport (fetched tick data srv) =
    (us_transport srv)\<lparr>m_data_ready := False, m_rx_received := 0\<rparr>"
  by (simp add: fetched_def)

lemma poll_complete:
  assumes "rx_complete data (us_transport srv)" "data \<noteq> []" "length data \<le> length (us_req_buf srv)"
  shows "poll_request can tick srv w = handle_request can data (fetched tick data srv) w"
proof -
  have "isotp_get_data (Some (us_req_buf srv)) (length (us_req_buf srv)) (us_transport srv) =
      (length data, Some (put 0 data (us_req_buf srv)),
       (us_transport srv)\<lparr>m_data_ready := False, m_rx_received := 0\<rparr>)"
    using assms by (auto simp: isotp_get_data_def rx_complete_def Let_def)
  then show ?thesis
    using assms by (simp add: poll_request_def rx_complete_def Let_def fetched_def put_simps)
qed

lemma poll_nothing: "\<not> m_data_ready (us_transport srv) \<Longrightarrow> poll_request can tick srv w = Some (srv, w)"
  by (simp add: poll_request_def)

section \<open>The pending reply\<close>

lemma isotp_send_deadline:
  "isotp_send can st p n s w = Some (Pending, s', w') \<Longrightarrow>
    m_tx_deadline s' = can_tick can w' + cfg_n_bs_ms (m_cfg s') \<and> m_tx_data s' = p \<and>
    m_tx_total s' = n \<and> m_tx_offset s' = 6"
  by (auto simp: isotp_send_def Let_def split: if_splits option.splits prod.splits)

lemma isotp_update_tx_fields [simp]:
  "m_cfg (isotp_update can s w) = m_cfg s" "m_tx_data (isotp_update can s w) = m_tx_data s"
  "m_tx_total (isotp_update can s w) = m_tx_total s"
  "m_tx_offset (isotp_update can s w) = m_tx_offset s" "m_tx_sn (isotp_update can s w) = m_tx_sn s"
  by (simp_all add: isotp_update_def Let_def)

lemma isotp_update_waits:
  assumes "m_tx_state s = TxWaitFC" "m_tx_deadline s = can_tick can w + d"
    and "0 < d" "unat (can_tick can w) + unat d < 2 ^ 32"
  shows "m_tx_state (isotp_update can s w) = TxWaitFC"
proof -
  have "unat (can_tick can w + d) = unat (can_tick can w) + unat d"
    using assms(4) by (simp add: unat_word_ariths)
  then have "\<not> m_tx_deadline s \<le> can_tick can w"
    using assms(2,3) by (simp add: word_le_nat_alt word_less_nat_alt)
  with assms(1) show ?thesis by (simp add: isotp_update_def Let_def)
qed

lemma tx_frames_update [simp]: "tx_frames st (isotp_update can s w) = tx_frames st s"
  by (rule tx_frames_cong) simp_all

lemma tx_mem_update [simp]: "tx_mem st (isotp_update can s w) = tx_mem st s"
  by (rule tx_mem_cong) simp_all

lemma session_update_no_callback:
  "m_timeout_cb s = None \<Longrightarrow> snd (session_update tick s w) = w"
  by (simp add: session_update_def)

lemma keep_alive_callback [simp]: "m_timeout_cb (session_keep_alive t s) = m_timeout_cb s"
  by (simp add: session_keep_alive_def Let_def)

context lossless_driver
begin

text \<open>A reply goes out whole: at once, or after one Continue-To-Send without block limit.\<close>

lemma send_and_continue:
  assumes "0 < n" "n < 4096" "n \<le> length (st a)"
    and "\<And>f v. can_tick can (snd (can_send can f v)) = can_tick can v"
    and "0 < cfg_n_bs_ms (m_cfg s)" "unat (can_tick can w) + unat (cfg_n_bs_ms (m_cfg s)) < 2 ^ 32"
  shows "\<exists>r s1 w1 s2 w2. isotp_send can st (Some a) n s w = Some (r, s1, w1) \<and>
    feed can st (if n \<le> 7 then [] else [fc_frame (cfg_rx_id (m_cfg s)) kFC_CTS 0 stm])
      (isotp_update can s1 w1) w1 = Some (s2, w2) \<and>
    sent w2 = sent w @ segment (cfg_tx_id (m_cfg s)) (take n (st a))"
proof (cases "n \<le> 7")
  case True
  with send_short [of n st a s w] assms(1,3) show ?thesis by auto
next
  case False
  then have n: "7 < n" "n \<le> 4096" using assms(2) by simp_all
  obtain s1 w1 where s1: "isotp_send can st (Some a) n s w = Some (Pending, s1, w1)"
    and w1: "sent w1 = sent w @ [ff_frame (cfg_tx_id (m_cfg s)) (take n (st a))]"
    and F: "tx_frames st s1 = cf_frames (cfg_tx_id (m_cfg s)) 1 (drop 6 (take n (st a)))"
    and m: "tx_mem st s1" and t: "m_tx_state s1 = TxWaitFC" and c: "m_cfg s1 = m_cfg s"
    using send_long [of n st a s w] n assms(3) by blast
  have "can_tick can w1 = can_tick can w"
    using s1 assms(4) n
    by (auto simp: isotp_send_def Let_def split_def split: if_splits option.splits)
  then have "m_tx_state (isotp_update can s1 w1) = TxWaitFC"
    using isotp_update_waits [OF t, of can w1] isotp_send_deadline [OF s1] assms(5,6) c by simp
  then obtain r s2 w2 where "process_frame can st (fc_frame (cfg_rx_id (m_cfg s)) kFC_CTS 0 stm)
      (isotp_update can s1 w1) w1 = Some (r, s2, w2)" "sent w2 = sent w1 @ tx_frames st s1"
    using fc_continue [of "isotp_update can s1 w1" st "cfg_rx_id (m_cfg s)" 0 stm w1] m c by auto
  with s1 w1 F False assms(3) show ?thesis by (auto simp: segment_def)
qed

end


section \<open>The server of the witnesses\<close>

text \<open>A transport object that has just completed the reception of \<open>data\<close>.\<close>

definition request_waiting :: "u8 list \<Rightarrow> isotp \<Rightarrow> isotp" where
  "request_waiting data tp = tp\<lparr>m_data_ready := True, m_rx_received := length data,
     m_rx_expected := length data, m_rx_buf := put 0 data (m_rx_buf tp)\<rparr>"

lemma request_waiting_simps [simp]:
  "m_cfg (request_waiting data tp) = m_cfg tp" "m_tx_state (request_waiting data tp) = m_tx_state tp"
  by (simp_all add: request_waiting_def)

lemma rx_complete_waiting:
  assumes "rx_inv tp" "m_rx_state tp = RxIdle" "0 < length data" "length data < 4096"
  shows "rx_complete data (request_waiting data tp)"
  using assms by (simp add: rx_complete_def rx_inv_def request_waiting_def put_simps MAX_PAYLOAD_def)

text \<open>A service that answers with the given bytes.\<close>

definition constant_service :: "u8 \<Rightarrow> u8 list \<Rightarrow> 's service" where
  "constant_service sid bs = \<lparr>service_id = sid,
     handle = (\<lambda>req resp (session, w).
       (\<lparr>r_send = True, r_buf = put 0 bs resp, r_len = length bs\<rparr>, session, w))\<rparr>"

text \<open>TesterPresent and ReadDataByIdentifier with a constant answer, on the driver of the example.\<close>

definition demo_ecu :: "u8 list \<Rightarrow> u8 list \<Rightarrow> SessionType \<Rightarrow> 's uds_server" where
  "demo_ecu answer request session =
     \<lparr>us_transport = request_waiting request ecu_tp,
      us_session = (session_new kDefaultTiming)\<lparr>m_session := session\<rparr>,
      us_services = [tester_present_service, constant_service 0x22 answer],
      us_tick_fn = None, us_req_buf = replicate 4096 0, us_resp_buf = replicate 4096 0\<rparr>"

lemma demo_ecu_simps [simp]:
  "us_transport (demo_ecu a d s) = request_waiting d ecu_tp" "us_tick_fn (demo_ecu a d s) = None"
  "us_req_buf (demo_ecu a d s) = replicate 4096 0" "us_resp_buf (demo_ecu a d s) = replicate 4096 0"
  "us_session (demo_ecu a d s) = (session_new kDefaultTiming)\<lparr>m_session := s\<rparr>"
  by (simp_all add: demo_ecu_def)

lemma demo_ecu_services [simp]:
  "find_service 0x22 (demo_ecu a d s) = Some (constant_service 0x22 a)"
  "find_service 0x3E (demo_ecu a d s) = Some tester_present_service"
  "find_service 0x99 (demo_ecu a d s) = None"
  by (simp_all add: demo_ecu_def find_service_def tester_present_service_def constant_service_def)

lemma isotp_new_idle: "m_rx_state (isotp_new g cfg) = RxIdle"
  by (simp add: isotp_new_def)

lemma demo_ecu_ready:
  "0 < length d \<Longrightarrow> length d < 4096 \<Longrightarrow> rx_complete d (us_transport (demo_ecu a d s))"
  using rx_complete_waiting [OF rx_inv_fresh, of ecu_cfg d] by (simp add: isotp_new_idle)

lemma logged_stub: "lossless_driver (logged stub_can) snd"
  by (rule lossless_logged) (rule stub_accepts)

lemma logged_stub_tick [simp]:
  "can_tick (logged stub_can) (snd (can_send (logged stub_can) f v)) = can_tick (logged stub_can) v"
  by (cases v) (simp add: logged_send stub_can_def)

lemma stub_tick_value [simp]: "can_tick stub_can w = w"
  by (simp add: stub_can_def)

abbreviation vin_reply :: "u8 list" where
  "vin_reply \<equiv> 0x62 # 0xF1 # 0x90 # replicate 17 0x57"

section \<open>Answering\<close>

lemma answer_request:
  assumes "lossless_driver can sent"
    and "rx_complete data (us_transport srv)" "data \<noteq> []" "length data \<le> length (us_req_buf srv)"
    and "find_service (hd data) srv = Some svc"
    and "handle svc data (us_resp_buf srv)
      (session_keep_alive (get_tick srv w) (us_session srv), w) = (r, session, w1)"
    and "r_send r" "0 < r_len r" "r_len r < 4096" "r_len r \<le> length (r_buf r)"
      "m_timeout_cb session = None"
    and "\<And>f v. can_tick can (snd (can_send can f v)) = can_tick can v"
    and "0 < cfg_n_bs_ms (m_cfg (us_transport srv))"
      "unat (can_tick can w1) + unat (cfg_n_bs_ms (m_cfg (us_transport srv))) < 2 ^ 32"
  shows "\<exists>srv1 v1 srv2 v2. server_process can srv w = Some (srv1, v1) \<and>
    server_feed can (if r_len r \<le> 7 then []
      else [fc_frame (cfg_rx_id (m_cfg (us_transport srv))) kFC_CTS 0 stm]) srv1 v1 = Some (srv2, v2) \<and>
    sent v2 = sent w1 @ segment (cfg_tx_id (m_cfg (us_transport srv))) (reply_bytes r)"
proof -
  let ?tick = "get_tick srv w" and ?cfg = "m_cfg (us_transport srv)"
  let ?tp = "(us_transport srv)\<lparr>m_data_ready := False, m_rx_received := 0\<rparr>"
  let ?st = "server_store (r_buf r) []"
  define srv0 where
    "srv0 = (fetched ?tick data srv)\<lparr>us_resp_buf := r_buf r, us_session := session\<rparr>"
  have st: "?st resp_addr = r_buf r" by (simp add: server_store_def)
  have cfg: "m_cfg ?tp = ?cfg" by simp
  obtain res tp v1 tp2 v2 where send: "isotp_send can ?st (Some resp_addr) (r_len r) ?tp w1 = Some (res, tp, v1)"
    and feed: "feed can ?st (if r_len r \<le> 7 then [] else [fc_frame (cfg_rx_id ?cfg) kFC_CTS 0 stm])
      (isotp_update can tp v1) v1 = Some (tp2, v2)"
    and sent: "sent v2 = sent w1 @ segment (cfg_tx_id ?cfg) (take (r_len r) (r_buf r))"
    using lossless_driver.send_and_continue [OF assms(1,8,9), of ?st resp_addr ?tp w1 stm, unfolded cfg]
      assms(10,12-14) st by auto
  have data: "data ! 0 = hd data" using assms(3) by (simp add: hd_conv_nth)
  have "poll_request can ?tick srv w = Some (srv0\<lparr>us_transport := tp\<rparr>, v1)"
    unfolding poll_complete [OF assms(2-4)] handle_request_def Let_def data
    using assms(3,5-8) send
    by (simp add: send_response_def srv0_def us_transport_fetched)
  moreover obtain sess where "session_update ?tick session v1 = (sess, v1)"
    using session_update_no_callback [OF assms(11), of ?tick v1] by (metis prod.collapse)
  ultimately have "server_process can srv w =
      Some (srv0\<lparr>us_transport := isotp_update can tp v1, us_session := sess\<rparr>, v1)"
    by (simp add: server_process_def Let_def srv0_def)
  moreover have "server_feed can (if r_len r \<le> 7 then [] else [fc_frame (cfg_rx_id ?cfg) kFC_CTS 0 stm])
      (srv0\<lparr>us_transport := isotp_update can tp v1, us_session := sess\<rparr>) v1 =
      Some (srv0\<lparr>us_transport := tp2, us_session := sess\<rparr>, v2)"
    using feed by (simp add: server_feed_def srv0_def)
  ultimately show ?thesis using sent by (auto simp: reply_bytes_def)
qed

text \<open>
  C8. A request is answered by its service: when a complete request of any length is waiting,
  \<open>process\<close> hands exactly its bytes to the service registered for the first byte, on the
  session whose S3 timer was restarted, and the bytes of the reply, up to 4095, go out on the
  bus segmented according to ISO-TP, a long one after the tester's Continue-To-Send. The
  driver accepts all frames and the tick is not within N_Bs of its wrap.
\<close>

theorem request_answered:
  assumes "lossless_driver can sent"
    and "rx_complete data (us_transport srv)" "data \<noteq> []" "length data \<le> length (us_req_buf srv)"
    and "find_service (hd data) srv = Some svc"
    and "handle svc data (us_resp_buf srv)
      (session_keep_alive (get_tick srv w) (us_session srv), w) = (r, session, w1)"
    and "r_send r" "0 < r_len r" "r_len r < 4096" "r_len r \<le> length (r_buf r)"
      "m_timeout_cb session = None"
    and "\<And>f v. can_tick can (snd (can_send can f v)) = can_tick can v"
    and "0 < cfg_n_bs_ms (m_cfg (us_transport srv))"
      "unat (can_tick can w1) + unat (cfg_n_bs_ms (m_cfg (us_transport srv))) < 2 ^ 32"
  shows "\<exists>srv1 v1 srv2 v2. server_process can srv w = Some (srv1, v1) \<and>
    server_feed can (if r_len r \<le> 7 then []
      else [fc_frame (cfg_rx_id (m_cfg (us_transport srv))) kFC_CTS 0 stm]) srv1 v1 = Some (srv2, v2) \<and>
    sent v2 = sent w1 @ segment (cfg_tx_id (m_cfg (us_transport srv))) (reply_bytes r)"
  using assms by (rule answer_request)

theorem request_answered_witness:
  "\<exists>srv1 v1 srv2 v2.
    server_process (logged stub_can) (demo_ecu vin_reply [0x22, 0xF1, 0x90] Default) (0, []) =
      Some (srv1, v1) \<and>
    server_feed (logged stub_can) [fc_frame 0x7E0 kFC_CTS 0 0] srv1 v1 = Some (srv2, v2) \<and>
    snd v2 = segment 0x7E8 vin_reply"
proof -
  let ?can = "logged stub_can" and ?srv = "demo_ecu vin_reply [0x22, 0xF1, 0x90] Default :: (u32 \<times> can_frame list) uds_server"
  let ?r = "\<lparr>r_send = True, r_buf = put 0 vin_reply (replicate 4096 0), r_len = length vin_reply\<rparr>"
  have h: "handle (constant_service 0x22 vin_reply) [0x22, 0xF1, 0x90] (us_resp_buf ?srv)
      (session_keep_alive (get_tick ?srv (0, [])) (us_session ?srv), (0, [])) =
      (?r, session_keep_alive (get_tick ?srv (0, [])) (us_session ?srv), (0, []))"
    by (simp add: constant_service_def)
  have "\<exists>srv1 v1 srv2 v2. server_process ?can ?srv (0, []) = Some (srv1, v1) \<and>
    server_feed ?can (if r_len ?r \<le> 7 then []
      else [fc_frame (cfg_rx_id (m_cfg (us_transport ?srv))) kFC_CTS 0 0]) srv1 v1 = Some (srv2, v2) \<and>
    snd v2 = snd (0 :: u32, []) @ segment (cfg_tx_id (m_cfg (us_transport ?srv))) (reply_bytes ?r)"
    by (rule request_answered [OF logged_stub demo_ecu_ready _ _ _ h])
      (simp_all add: length_put session_new_def kDefaultIsoTpConfig_def)
  then show ?thesis by (simp add: reply_bytes_def put_simps)
qed

text \<open>
  A request for a service that is not registered is answered with serviceNotSupported and
  its identifier, whatever follows the identifier, in a single frame; the session, the
  services and the response buffer are left alone, up to the timers.
\<close>

theorem unknown_service_rejected:
  assumes "lossless_driver can sent"
    and "rx_complete data (us_transport srv)" "data \<noteq> []" "length data \<le> length (us_req_buf srv)"
    and "find_service (hd data) srv = None" "m_timeout_cb (us_session srv) = None"
  shows "\<exists>srv1 v1. server_process can srv w = Some (srv1, v1) \<and>
    sent v1 = sent w @ [sf_frame (cfg_tx_id (m_cfg (us_transport srv))) [0x7F, hd data, 0x11]] \<and>
    us_services srv1 = us_services srv \<and> us_resp_buf srv1 = us_resp_buf srv \<and>
    us_session srv1 =
      fst (session_update (get_tick srv w) (session_keep_alive (get_tick srv w) (us_session srv)) w)"
proof -
  let ?tick = "get_tick srv w" and ?nrc = "[0x7F, hd data, 0x11]"
  let ?srv = "fetched ?tick data srv"
  let ?st = "server_store (us_resp_buf srv) ?nrc"
  have st: "take 3 (?st stack_addr) = ?nrc" "3 \<le> length (?st stack_addr)"
    by (simp_all add: server_store_def stack_addr_def resp_addr_def)
  obtain v1 where v1: "isotp_send can ?st (Some stack_addr) 3 (us_transport ?srv) w =
      Some (Ok, us_transport ?srv, v1)"
    "sent v1 = sent w @ [sf_frame (cfg_tx_id (m_cfg (us_transport srv))) ?nrc]"
    using lossless_driver.send_short [OF assms(1), of 3 ?st stack_addr "us_transport ?srv" w] st
    by (auto simp: segment_def)
  have data: "data ! 0 = hd data" using assms(3) by (simp add: hd_conv_nth)
  have "poll_request can ?tick srv w = Some (?srv, v1)"
    unfolding poll_complete [OF assms(2-4)] handle_request_def Let_def data
    using assms(3,5) v1(1) by (simp add: send_nrc_def send_response_def)
  moreover obtain sess where "session_update ?tick (us_session ?srv) v1 = (sess, v1)"
    using session_update_no_callback [of "us_session ?srv" ?tick v1] assms(6)
    by (metis fetched_simps(3) keep_alive_callback prod.collapse)
  moreover have "fst (session_update ?tick (us_session ?srv) v1) = fst (session_update ?tick (us_session ?srv) w)"
    by (simp add: session_update_def)
  ultimately show ?thesis using v1(2) by (auto simp: server_process_def Let_def)
qed


theorem unknown_service_rejected_witness:
  "\<exists>srv1 v1.
    server_process (logged stub_can) (demo_ecu [] [0x99, 1, 2] Default) (0, []) = Some (srv1, v1) \<and>
    snd v1 = [sf_frame 0x7E8 [0x7F, 0x99, 0x11]]"
proof -
  let ?srv = "demo_ecu [] [0x99, 1, 2] Default :: (u32 \<times> can_frame list) uds_server"
  have "\<exists>srv1 v1. server_process (logged stub_can) ?srv (0, []) = Some (srv1, v1) \<and>
    snd v1 = snd (0 :: u32, []) @ [sf_frame (cfg_tx_id (m_cfg (us_transport ?srv))) [0x7F, hd [0x99, 1, 2], 0x11]] \<and>
    us_services srv1 = us_services ?srv \<and> us_resp_buf srv1 = us_resp_buf ?srv \<and>
    us_session srv1 = fst (session_update (get_tick ?srv (0, []))
      (session_keep_alive (get_tick ?srv (0, [])) (us_session ?srv)) (0, []))"
    by (rule unknown_service_rejected [OF logged_stub demo_ecu_ready])
      (simp_all add: session_new_def)
  then show ?thesis by auto
qed

section \<open>Losing a session\<close>

lemma send_response_session:
  "send_response can p st n srv w = Some (srv', w') \<Longrightarrow> us_session srv' = us_session srv"
  by (auto simp: send_response_def split: option.splits)

text \<open>
  C28. TesterPresent does not keep a session alive, it ends it: the handler restarts the S3
  timer from tick 0 instead of the current tick. In a non-default session, the very call of
  \<open>process\<close> that handles a TesterPresent request ends the session if and only if the tick of
  the server has reached the S3 time, by default 5 seconds after the ECU started.
\<close>

theorem tester_present_ends_session:
  assumes "rx_complete data (us_transport srv)" "2 \<le> length data" "length data \<le> length (us_req_buf srv)"
    and "hd data = 0x3E" "data ! 1 AND 0x7F = 0" "find_service 0x3E srv = Some tester_present_service"
    and "m_session (us_session srv) \<noteq> Default" "s3_ms (m_timing (us_session srv)) \<noteq> 0"
    and "server_process can srv w = Some (srv', w')"
  shows "m_session (us_session srv') = Default \<longleftrightarrow>
    unat (s3_ms (m_timing (us_session srv))) \<le> unat (get_tick srv w)"
proof -
  let ?tick = "get_tick srv w" and ?s3 = "ucast (s3_ms (m_timing (us_session srv))) :: u32"
  have d: "data \<noteq> []" "data ! 0 = 0x3E" using assms(2,4) by (cases data; simp)+
  obtain srv1 w1 where p: "poll_request can ?tick srv w = Some (srv1, w1)"
    using assms(9) by (auto simp: server_process_def Let_def split: option.splits)
  obtain r where th: "tester_present_handle data (us_resp_buf srv)
      (session_keep_alive ?tick (us_session srv)) =
      (r, session_keep_alive 0 (session_keep_alive ?tick (us_session srv)))"
    using assms(2,5) by (simp add: tester_present_handle_def Let_def)
  have s1: "us_session srv1 = session_keep_alive 0 (session_keep_alive ?tick (us_session srv))"
    using p d(1) assms(6) th
    unfolding poll_complete [OF assms(1) d(1) assms(3)] handle_request_def Let_def d(2)
    by (auto simp: tester_present_service_def dest!: send_response_session split: if_splits)
  have s3: "?s3 \<noteq> 0" using assms(8) by (metis unat_ucast_u16_u32 unat_eq_zero)
  have "us_session srv' = fst (session_update ?tick (us_session srv1) w1)"
    using assms(9) p by (auto simp: server_process_def Let_def split: prod.splits)
  also have "\<dots> = fst (session_update ?tick
      ((us_session srv)\<lparr>m_timed_out := False, m_s3_deadline := ?s3\<rparr>) w1)"
    using assms(7) by (simp add: s1 session_keep_alive_def Let_def)
  finally show ?thesis
    using assms(7) s3 by (simp add: session_update_def word_le_nat_alt)
qed

theorem tester_present_ends_session_witness:
  "\<exists>srv' w'.
    server_process stub_can (demo_server\<lparr>us_transport := request_waiting [0x3E, 0x00] ecu_tp,
      us_session := (session_new kDefaultTiming)\<lparr>m_session := Extended\<rparr>,
      us_tick_fn := Some (\<lambda>w. w)\<rparr>) 6000 = Some (srv', w') \<and>
    m_session (us_session srv') = Default"
proof -
  let ?srv = "demo_server\<lparr>us_transport := request_waiting [0x3E, 0x00] ecu_tp,
      us_session := (session_new kDefaultTiming)\<lparr>m_session := Extended\<rparr>,
      us_tick_fn := Some (\<lambda>w. w)\<rparr>"
  have ready: "rx_complete [0x3E, 0x00] (us_transport ?srv)"
    using rx_complete_waiting [OF rx_inv_fresh, of ecu_cfg "[0x3E, 0x00]"] by (simp add: isotp_new_idle)
  then have I: "server_inv (\<lambda>_. True) ?srv"
    using demo_server_inv
    by (simp add: server_inv_def rx_complete_def timeout_ok_def tx_inv_def isotp_new_def)
  have E: "ecu_environment stub_can (\<lambda>_. True)" by unfold_locales simp
  obtain srv' w' where p: "server_process stub_can ?srv 6000 = Some (srv', w')"
    using ecu_environment.server_process_safe [OF E I TrueI, of 6000] by blast
  have "m_session (us_session srv') = Default \<longleftrightarrow>
      unat (s3_ms (m_timing (us_session ?srv))) \<le> unat (get_tick ?srv 6000)"
  proof (rule tester_present_ends_session [OF ready _ _ _ _ _ _ _ p])
    show "length [0x3E, 0x00 :: u8] \<le> length (us_req_buf ?srv)"
      using demo_server_inv by (simp add: server_inv_def kMaxResp_def)
    show "find_service 0x3E ?srv = Some tester_present_service"
      by (simp add: find_service_def tester_present_service_def register_services_def
          register_service_def server_new_def kMaxServices_def)
  qed (simp_all add: session_new_def kDefaultTiming_def)
  with p show ?thesis by (simp add: session_new_def kDefaultTiming_def get_tick_def)
qed

text \<open>
  Without a tick provider the server passes tick 0, and no session times out: the deadline of
  a restarted timer is the S3 time, which tick 0 never reaches.
\<close>

lemma no_tick_no_timeout:
  assumes "us_tick_fn srv = None" "\<not> m_data_ready (us_transport srv)"
  shows "server_process can srv w =
    Some (srv\<lparr>us_transport := isotp_update can (us_transport srv) w,
              us_session := (if m_session (us_session srv) = Default
                then (us_session srv)\<lparr>m_s3_deadline := 0, m_timed_out := False\<rparr>
                else us_session srv)\<rparr>, w)"
  using assms
  by (simp add: server_process_def poll_nothing get_tick_def session_update_def)

section \<open>Losing a reply\<close>

lemma poll_short_reply:
  assumes "lossless_driver can sent"
    and "rx_complete data (us_transport srv)" "data \<noteq> []" "length data \<le> length (us_req_buf srv)"
    and "find_service (hd data) srv = Some svc"
    and "handle svc data (us_resp_buf srv)
      (session_keep_alive tick (us_session srv), w) = (r, session, w1)"
    and "\<not> r_send r \<or> r_len r \<le> 7" "7 \<le> length (r_buf r)"
    and "\<And>f v. can_tick can (snd (can_send can f v)) = can_tick can v"
  shows "\<exists>v1. poll_request can tick srv w =
      Some ((fetched tick data srv)\<lparr>us_resp_buf := r_buf r, us_session := session\<rparr>, v1) \<and>
    can_tick can v1 = can_tick can w1"
proof -
  let ?srv = "(fetched tick data srv)\<lparr>us_resp_buf := r_buf r, us_session := session\<rparr>"
  have data: "data ! 0 = hd data" using assms(3) by (simp add: hd_conv_nth)
  show ?thesis
  proof (cases "r_send r \<and> r_len r > 0")
    case True
    then have n: "0 < r_len r" "r_len r \<le> 7" using assms(7) by simp_all
    then obtain v where v: "isotp_send can (server_store (r_buf r) []) (Some resp_addr) (r_len r)
        (us_transport ?srv) w1 = Some (Ok, us_transport ?srv, v)"
      using lossless_driver.send_short [OF assms(1) n, of "server_store (r_buf r) []" resp_addr
          "us_transport ?srv" w1] assms(8)
      by (auto simp: server_store_def)
    then have "can_tick can v = can_tick can w1"
      using assms(9) n by (auto simp: isotp_send_def Let_def split_def split: option.splits if_splits)
    moreover have "poll_request can tick srv w = Some (?srv, v)"
      unfolding poll_complete [OF assms(2-4)] handle_request_def Let_def data
      using assms(3,5,6) True v by (simp add: send_response_def)
    ultimately show ?thesis by blast
  next
    case False
    then have "poll_request can tick srv w = Some (?srv, w1)"
      unfolding poll_complete [OF assms(2-4)] handle_request_def Let_def data
      using assms(3,5,6) by auto
    then show ?thesis by blast
  qed
qed

text \<open>
  C29. A reply under transmission is not protected from the next request. The consecutive
  frames of a long reply are read from the response buffer when the flow control arrives;
  if another request is handled before that, and its reply is short or suppressed, then
  the tester gets, as the rest of the first reply, whatever the second handler has left in
  the buffer.
\<close>

theorem pending_reply_overwritten:
  assumes "lossless_driver can sent"
    and "rx_complete data (us_transport srv)" "data \<noteq> []" "length data \<le> length (us_req_buf srv)"
    and "find_service (hd data) srv = Some svc"
    and "handle svc data (us_resp_buf srv)
      (session_keep_alive (get_tick srv w) (us_session srv), w) = (r, session, w1)"
    and "\<not> r_send r \<or> r_len r \<le> 7" "length (r_buf r) = length (us_resp_buf srv)"
      "7 \<le> length (r_buf r)" "m_timeout_cb session = None"
    and "\<And>f v. can_tick can (snd (can_send can f v)) = can_tick can v"
    and "m_tx_state (us_transport srv) = TxWaitFC" "m_tx_data (us_transport srv) = Some resp_addr"
      "tx_inv (server_store (us_resp_buf srv) []) (us_transport srv)"
      "can_tick can w1 < m_tx_deadline (us_transport srv)"
  shows "\<exists>srv1 v1 srv2 v2. server_process can srv w = Some (srv1, v1) \<and>
    server_feed can [fc_frame (cfg_rx_id (m_cfg (us_transport srv))) kFC_CTS 0 stm] srv1 v1 =
      Some (srv2, v2) \<and>
    sent v2 = sent v1 @ cf_frames (cfg_tx_id (m_cfg (us_transport srv))) (m_tx_sn (us_transport srv))
      (drop (m_tx_offset (us_transport srv)) (take (m_tx_total (us_transport srv)) (r_buf r)))"
proof -
  let ?tick = "get_tick srv w" and ?cfg = "m_cfg (us_transport srv)"
  let ?st = "server_store (r_buf r) []"
  define tp where "tp = (us_transport srv)\<lparr>m_data_ready := False, m_rx_received := 0\<rparr>"
  define srv0 where
    "srv0 = (fetched ?tick data srv)\<lparr>us_resp_buf := r_buf r, us_session := session\<rparr>"
  have data: "data ! 0 = hd data" using assms(3) by (simp add: hd_conv_nth)
  have tp0: "us_transport srv0 = tp" by (simp add: srv0_def us_transport_fetched tp_def)
  obtain v1 where poll: "poll_request can ?tick srv w = Some (srv0, v1)"
    and v1: "can_tick can v1 = can_tick can w1"
    using poll_short_reply [OF assms(1-7) _ assms(11)] assms(9) unfolding srv0_def by auto
  let ?tp = "isotp_update can tp v1"
  obtain sess where u: "session_update ?tick session v1 = (sess, v1)"
    using session_update_no_callback [OF assms(10), of ?tick v1] by (metis prod.collapse)
  have proc: "server_process can srv w = Some (srv0\<lparr>us_transport := ?tp, us_session := sess\<rparr>, v1)"
    using poll u tp0 by (simp add: server_process_def Let_def) (simp add: srv0_def)
  have "\<not> m_tx_deadline (us_transport srv) \<le> can_tick can w1" using assms(15) by simp
  then have wait: "m_tx_state ?tp = TxWaitFC"
    using assms(12) v1 by (simp add: isotp_update_def Let_def tp_def)
  have "tx_mem (server_store (us_resp_buf srv) []) (us_transport srv)"
    using assms(12,14) by (simp add: tx_inv_def)
  then have mem: "tx_mem ?st tp"
    using assms(8,13) by (simp add: tx_mem_def tp_def server_store_def)
  have F: "tx_frames ?st tp = cf_frames (cfg_tx_id ?cfg) (m_tx_sn (us_transport srv))
      (drop (m_tx_offset (us_transport srv)) (take (m_tx_total (us_transport srv)) (r_buf r)))"
    using assms(13) by (simp add: tx_frames_def tx_rest_def tp_def server_store_def)
  obtain x tp2 v2 where "process_frame can ?st (fc_frame (cfg_rx_id ?cfg) kFC_CTS 0 stm) ?tp v1 =
      Some (x, tp2, v2)" "sent v2 = sent v1 @ tx_frames ?st tp"
    using lossless_driver.fc_continue [OF assms(1) wait, of ?st "cfg_rx_id ?cfg" 0 stm v1] mem
    by (auto simp: tp_def)
  with proc F show ?thesis by (auto simp: server_feed_def srv0_def)
qed


text \<open>
  The reply with the VIN waits for its flow control when the software version is read: the
  seventh byte on the bus, the fourth of the VIN, is the last byte of the version.
\<close>

abbreviation version_reply :: "u8 list" where
  "version_reply \<equiv> [0x62, 0xF1, 0x89, 0x01, 0x00, 0x05, 0x00]"

abbreviation waiting_ecu :: "(u32 \<times> can_frame list) uds_server" where
  "waiting_ecu \<equiv> (demo_ecu version_reply [0x22, 0xF1, 0x89] Default)
     \<lparr>us_transport := (request_waiting [0x22, 0xF1, 0x89] ecu_tp)
        \<lparr>m_tx_state := TxWaitFC, m_tx_data := Some resp_addr, m_tx_total := 20, m_tx_offset := 6,
         m_tx_sn := 1, m_tx_deadline := 1000\<rparr>,
      us_resp_buf := put 0 vin_reply (replicate 4096 0)\<rparr>"

theorem pending_reply_overwritten_witness:
  "\<exists>srv1 v1 srv2 v2. server_process (logged stub_can) waiting_ecu (0, []) = Some (srv1, v1) \<and>
    server_feed (logged stub_can) [fc_frame 0x7E0 kFC_CTS 0 0] srv1 v1 = Some (srv2, v2) \<and>
    snd v2 = snd v1 @ cf_frames 0x7E8 1 (0x00 # replicate 13 0x57)"
proof -
  let ?can = "logged stub_can" and ?srv = waiting_ecu
  let ?b = "put 0 version_reply (put 0 vin_reply (replicate 4096 0))"
  let ?r = "\<lparr>r_send = True, r_buf = ?b, r_len = length version_reply\<rparr>"
  let ?sess = "session_keep_alive (get_tick ?srv (0, [])) (us_session ?srv)"
  have h: "handle (constant_service 0x22 version_reply) [0x22, 0xF1, 0x89] (us_resp_buf ?srv)
      (?sess, (0, [])) = (?r, ?sess, (0, []))"
    by (simp add: constant_service_def)
  have ready: "rx_complete [0x22, 0xF1, 0x89] (us_transport ?srv)"
  proof -
    have "rx_complete [0x22, 0xF1, 0x89] (us_transport ?srv) =
        rx_complete [0x22, 0xF1, 0x89] (request_waiting [0x22, 0xF1, 0x89] ecu_tp)"
      by (simp add: rx_complete_def rx_inv_def)
    with rx_complete_waiting [OF rx_inv_fresh, of ecu_cfg "[0x22, 0xF1, 0x89]"] show ?thesis
      by (simp add: isotp_new_idle)
  qed
  have svc: "find_service (hd [0x22, 0xF1, 0x89]) ?srv = Some (constant_service 0x22 version_reply)"
    by (simp add: find_service_def demo_ecu_def constant_service_def tester_present_service_def)
  have b: "drop 6 (take 20 ?b) = 0x00 # replicate 13 0x57"
    by (simp add: put_def)
  have "\<exists>srv1 v1 srv2 v2. server_process ?can ?srv (0, []) = Some (srv1, v1) \<and>
    server_feed ?can [fc_frame (cfg_rx_id (m_cfg (us_transport ?srv))) kFC_CTS 0 0] srv1 v1 =
      Some (srv2, v2) \<and>
    snd v2 = snd v1 @ cf_frames (cfg_tx_id (m_cfg (us_transport ?srv))) (m_tx_sn (us_transport ?srv))
      (drop (m_tx_offset (us_transport ?srv)) (take (m_tx_total (us_transport ?srv)) (r_buf ?r)))"
    by (rule pending_reply_overwritten [OF logged_stub ready _ _ svc h])
      (simp_all add: length_put session_new_def tx_inv_def tx_mem_def server_store_def)
  then show ?thesis by (simp add: b)
qed

end
