(* ===== verification/Can_Ring.thy ===== *)
theory Can_Ring
  imports Can_Interface
begin

text \<open>
  The receive ring buffer of the STM32 drivers (\<open>stm32/src/stm32_can.cpp\<close>,
  \<open>stm32f1_can.cpp\<close>, \<open>stm32h7_can.cpp\<close>): the interrupt handler stores a frame at the head
  index, the main loop takes one at the tail index, and one slot stays free to tell a full
  buffer from an empty one. The three drivers contain the same code over buffers of 16, 8
  and 16 frames; the size is the first argument here. \<open>receive\<close> runs in the main loop and
  can be interrupted between any two of its memory accesses, so it is also modelled step by
  step.
\<close>

record 'f rx_ring =
  m_rx_ring :: "'f list"
  m_rx_head :: nat
  m_rx_tail :: nat

definition ring_new :: "'f list \<Rightarrow> 'f rx_ring" where
  "ring_new garbage = \<lparr>m_rx_ring = garbage, m_rx_head = 0, m_rx_tail = 0\<rparr>"

text \<open>\<open>receive\<close>: \<open>None\<close> when it returns false, otherwise the frame it stores.\<close>

definition ring_receive :: "nat \<Rightarrow> 'f rx_ring \<Rightarrow> 'f option \<times> 'f rx_ring" where
  "ring_receive kRxBufSize r =
     (let tail = m_rx_tail r in
      if m_rx_head r = tail then (None, r)
      else (Some (m_rx_ring r ! tail), r\<lparr>m_rx_tail := (tail + 1) mod kRxBufSize\<rparr>))"

text \<open>The part of \<open>on_rx_irq\<close> that stores the frame taken from the peripheral.\<close>

definition ring_store :: "nat \<Rightarrow> 'f \<Rightarrow> 'f rx_ring \<Rightarrow> 'f rx_ring" where
  "ring_store kRxBufSize frame r =
     (let next = (m_rx_head r + 1) mod kRxBufSize in
      if next \<noteq> m_rx_tail r
      then r\<lparr>m_rx_ring := (m_rx_ring r)[m_rx_head r := frame], m_rx_head := next\<rparr>
      else r)"

section \<open>The ring as a bounded queue\<close>

definition ring_inv :: "nat \<Rightarrow> 'f rx_ring \<Rightarrow> bool" where
  "ring_inv n r \<longleftrightarrow> length (m_rx_ring r) = n \<and> m_rx_head r < n \<and> m_rx_tail r < n"

definition ring_count :: "nat \<Rightarrow> 'f rx_ring \<Rightarrow> nat" where
  "ring_count n r = (m_rx_head r + n - m_rx_tail r) mod n"

definition ring_content :: "nat \<Rightarrow> 'f rx_ring \<Rightarrow> 'f list" where
  "ring_content n r =
     map (\<lambda>i. m_rx_ring r ! ((m_rx_tail r + i) mod n)) [0..<ring_count n r]"

lemma ring_count_cases:
  assumes "ring_inv n r"
  shows "ring_count n r =
    (if m_rx_tail r \<le> m_rx_head r then m_rx_head r - m_rx_tail r
     else m_rx_head r + n - m_rx_tail r)"
  using assms by (auto simp: ring_count_def ring_inv_def mod_if)

lemma length_ring_content [simp]: "length (ring_content n r) = ring_count n r"
  by (simp add: ring_content_def)

lemma mod_once: "a < 2 * n \<Longrightarrow> a mod n = (if a < n then a else a - n)" for a n :: nat
  by (simp add: mod_if)

lemma ring_inv_new: "length garbage = n \<Longrightarrow> 0 < n \<Longrightarrow> ring_inv n (ring_new garbage)"
  by (simp add: ring_inv_def ring_new_def)

lemma ring_content_new: "ring_content n (ring_new garbage) = []"
  by (simp add: ring_content_def ring_count_def ring_new_def)

lemma ring_inv_store: "ring_inv n r \<Longrightarrow> ring_inv n (ring_store n f r)"
  by (auto simp: ring_inv_def ring_store_def Let_def)

lemma ring_inv_receive: "ring_inv n r \<Longrightarrow> ring_inv n (snd (ring_receive n r))"
  by (auto simp: ring_inv_def ring_receive_def Let_def)

lemma ring_full_iff:
  assumes "ring_inv n r"
  shows "(m_rx_head r + 1) mod n = m_rx_tail r \<longleftrightarrow> ring_count n r = n - 1"
  using assms by (auto simp: ring_count_cases ring_inv_def mod_once split: if_splits)

lemma ring_count_lt: "ring_inv n r \<Longrightarrow> ring_count n r < n"
  by (auto simp: ring_count_def ring_inv_def)

lemma ring_content_store:
  assumes inv: "ring_inv n r"
  shows "ring_content n (ring_store n f r) =
    (if ring_count n r < n - 1 then ring_content n r @ [f] else ring_content n r)"
proof (cases "ring_count n r < n - 1")
  case False
  then have "ring_count n r = n - 1" using ring_count_lt [OF inv] by simp
  then show ?thesis using ring_full_iff [OF inv] by (simp add: ring_store_def)
next
  case True
  then have free: "(m_rx_head r + 1) mod n \<noteq> m_rx_tail r" using ring_full_iff [OF inv] by simp
  let ?r = "ring_store n f r"
  have r: "?r = r\<lparr>m_rx_ring := (m_rx_ring r)[m_rx_head r := f], m_rx_head := (m_rx_head r + 1) mod n\<rparr>"
    using free by (simp add: ring_store_def)
  have b: "m_rx_head r < n" "m_rx_tail r < n" "length (m_rx_ring r) = n"
    using inv by (simp_all add: ring_inv_def)
  have cnt: "ring_count n ?r = Suc (ring_count n r)"
    using ring_count_cases [OF ring_inv_store [OF inv, of f]] ring_count_cases [OF inv] free b
    by (auto simp: r mod_once split: if_splits)
  have pos: "(m_rx_tail r + ring_count n r) mod n = m_rx_head r"
    using b by (auto simp: ring_count_cases [OF inv] mod_once)
  have other: "(m_rx_tail r + i) mod n \<noteq> m_rx_head r" if "i < ring_count n r" for i
    using that b ring_count_lt [OF inv]
    by (auto simp: ring_count_cases [OF inv] mod_once split: if_splits)
  have "ring_content n ?r = map (\<lambda>i. m_rx_ring ?r ! ((m_rx_tail ?r + i) mod n))
      [0..<ring_count n r] @ [m_rx_ring ?r ! ((m_rx_tail ?r + ring_count n r) mod n)]"
    unfolding ring_content_def cnt by simp
  moreover have "map (\<lambda>i. m_rx_ring ?r ! ((m_rx_tail ?r + i) mod n)) [0..<ring_count n r]
      = ring_content n r"
    unfolding ring_content_def
    by (rule map_cong) (auto simp: r nth_list_update_neq dest: other)
  ultimately show ?thesis using True pos b by (simp add: r)
qed

lemma ring_receive_content:
  assumes inv: "ring_inv n r"
  shows "case ring_receive n r of
      (None, r') \<Rightarrow> ring_content n r = [] \<and> r' = r
    | (Some f, r') \<Rightarrow> ring_content n r = f # ring_content n r'"
proof (cases "m_rx_head r = m_rx_tail r")
  case True
  then show ?thesis
    by (simp add: ring_receive_def ring_content_def ring_count_def)
next
  case False
  let ?r = "r\<lparr>m_rx_tail := (m_rx_tail r + 1) mod n\<rparr>"
  have b: "m_rx_head r < n" "m_rx_tail r < n"
    using inv by (simp_all add: ring_inv_def)
  have inv': "ring_inv n ?r" using inv by (auto simp: ring_inv_def)
  have cnt: "ring_count n r = Suc (ring_count n ?r)"
    using ring_count_cases [OF inv'] ring_count_cases [OF inv] False b
    by (auto simp: mod_once split: if_splits)
  have shift: "(m_rx_tail r + Suc i) mod n = ((m_rx_tail r + 1) mod n + i) mod n" for i
    by (simp add: mod_simps)
  have "ring_content n r = m_rx_ring r ! m_rx_tail r # ring_content n ?r"
    unfolding ring_content_def cnt upt_conv_Cons [OF zero_less_Suc] map_Suc_upt [symmetric]
    using b by (simp add: shift [simplified] comp_def del: upt_Suc)
  with False show ?thesis by (simp add: ring_receive_def Let_def)
qed

text \<open>The main loop polling \<open>receive\<close>, at most k times, until it returns false.\<close>

primrec drain :: "('r \<Rightarrow> 'f option \<times> 'r) \<Rightarrow> nat \<Rightarrow> 'r \<Rightarrow> 'f list \<times> 'r" where
  "drain fetch 0 r = ([], r)"
| "drain fetch (Suc k) r =
     (case fetch r of
        (None, r') \<Rightarrow> ([], r')
      | (Some f, r') \<Rightarrow> (case drain fetch k r' of (fs, r'') \<Rightarrow> (f # fs, r'')))"

text \<open>The contract between the interrupt handler and the main loop.\<close>

locale bounded_fifo =
  fixes cap :: nat
    and inv :: "'r \<Rightarrow> bool"
    and content :: "'r \<Rightarrow> 'f list"
    and store :: "'f \<Rightarrow> 'r \<Rightarrow> 'r"
    and fetch :: "'r \<Rightarrow> 'f option \<times> 'r"
  assumes inv_store: "inv r \<Longrightarrow> inv (store f r)"
    and inv_fetch: "inv r \<Longrightarrow> inv (snd (fetch r))"
    and content_store: "inv r \<Longrightarrow> content (store f r) =
      (if length (content r) < cap then content r @ [f] else content r)"
    and content_fetch: "inv r \<Longrightarrow> case fetch r of
        (None, r') \<Rightarrow> content r = [] \<and> r' = r
      | (Some f, r') \<Rightarrow> content r = f # content r'"
begin

lemma drain_content:
  "inv r \<Longrightarrow> fst (drain fetch k r) = take k (content r) \<and>
    content (snd (drain fetch k r)) = drop k (content r) \<and> inv (snd (drain fetch k r))"
proof (induction k arbitrary: r)
  case 0
  then show ?case by simp
next
  case (Suc k)
  show ?case
  proof (cases "fetch r")
    case (Pair o' r')
    have i: "inv r'" using inv_fetch [OF Suc.prems] Pair by simp
    show ?thesis
      using content_fetch [OF Suc.prems] Suc.IH [OF i] Pair Suc.prems
      by (cases o') (auto split: prod.splits)
  qed
qed

lemma store_all_content:
  "inv r \<Longrightarrow> inv (fold store fs r) \<and>
    content (fold store fs r) = content r @ take (cap - length (content r)) fs"
proof (induction fs arbitrary: r)
  case Nil
  then show ?case by simp
next
  case (Cons f fs)
  have "take (cap - length (content r)) (f # fs) =
      (if length (content r) < cap then f # take (cap - Suc (length (content r))) fs else [])"
    by (auto simp: take_Cons' )
  with Cons.IH [OF inv_store [OF Cons.prems, of f]] content_store [OF Cons.prems, of f]
  show ?case by auto
qed

end

lemma ring_bounded_fifo:
  "0 < n \<Longrightarrow> bounded_fifo (n - 1) (ring_inv n) (ring_content n) (ring_store n) (ring_receive n)"
  using ring_receive_content
  by unfold_locales (simp_all add: ring_inv_store ring_inv_receive ring_content_store)

definition kRxBufSize_f4 :: nat where "kRxBufSize_f4 = 16"
definition kRxBufSize_f1 :: nat where "kRxBufSize_f1 = 8"
definition kRxBufSize_h7 :: nat where "kRxBufSize_h7 = 16"

interpretation f4_ring: bounded_fifo 15 "ring_inv kRxBufSize_f4" "ring_content kRxBufSize_f4"
  "ring_store kRxBufSize_f4" "ring_receive kRxBufSize_f4"
  using ring_bounded_fifo [of kRxBufSize_f4] by (simp add: kRxBufSize_f4_def)

interpretation f1_ring: bounded_fifo 7 "ring_inv kRxBufSize_f1" "ring_content kRxBufSize_f1"
  "ring_store kRxBufSize_f1" "ring_receive kRxBufSize_f1"
  using ring_bounded_fifo [of kRxBufSize_f1] by (simp add: kRxBufSize_f1_def)

interpretation h7_ring: bounded_fifo 15 "ring_inv kRxBufSize_h7" "ring_content kRxBufSize_h7"
  "ring_store kRxBufSize_h7" "ring_receive kRxBufSize_h7"
  using ring_bounded_fifo [of kRxBufSize_h7] by (simp add: kRxBufSize_h7_def)

text \<open>
  A burst of frames that arrives while the main loop is busy: polling afterwards yields
  the frames in order of arrival, and the buffer of the F4 driver holds 15 of them, that of
  the F1 driver 7; the later ones are lost.
\<close>

theorem burst_received:
  assumes "length g4 = kRxBufSize_f4" "length g1 = kRxBufSize_f1"
  shows "fst (drain (ring_receive kRxBufSize_f4) (Suc (length fs))
           (fold (ring_store kRxBufSize_f4) fs (ring_new g4))) = take 15 fs \<and>
    fst (drain (ring_receive kRxBufSize_f1) (Suc (length fs))
           (fold (ring_store kRxBufSize_f1) fs (ring_new g1))) = take 7 fs"
proof -
  have i4: "ring_inv kRxBufSize_f4 (ring_new g4)" and i1: "ring_inv kRxBufSize_f1 (ring_new g1)"
    using assms by (simp_all add: ring_inv_new kRxBufSize_f4_def kRxBufSize_f1_def)
  show ?thesis
    using f4_ring.drain_content [OF conjunct1 [OF f4_ring.store_all_content [OF i4]]]
      f4_ring.store_all_content [OF i4]
      f1_ring.drain_content [OF conjunct1 [OF f1_ring.store_all_content [OF i1]]]
      f1_ring.store_all_content [OF i1]
    by (simp add: ring_content_new min_def del: drain.simps)
qed

theorem burst_received_witness:
  "fst (drain (ring_receive kRxBufSize_f1) (Suc (length [1,2,3,4,5,6,7,8,9::nat]))
          (fold (ring_store kRxBufSize_f1) [1,2,3,4,5,6,7,8,9::nat] (ring_new (replicate 8 0)))) =
     take 7 [1,2,3,4,5,6,7,8,9]"
  by (rule burst_received [of "replicate 16 0" "replicate 8 0", THEN conjunct2])
    (simp_all add: kRxBufSize_f4_def kRxBufSize_f1_def)

section \<open>Interrupts between the memory accesses of receive\<close>

text \<open>
  \<open>receive\<close> loads the tail, compares the (volatile) head with it, copies the slot and stores
  the new tail. The interrupt handler runs to completion between any two of these steps: it
  cannot itself be interrupted by the main loop. The program counter holds the local
  variables that are live. \<open>rs_accepted\<close> and \<open>rs_delivered\<close> are ghosts: the frames the
  handler put into the buffer and the ones \<open>receive\<close> returned, in order.
\<close>

datatype 'f recv_pc = Idle | Loaded_tail nat | Nonempty nat | Copied nat 'f

record 'f ring_state =
  rs_ring :: "'f rx_ring"
  rs_pc :: "'f recv_pc"
  rs_accepted :: "'f list"
  rs_delivered :: "'f list"

definition irq_store :: "nat \<Rightarrow> 'f \<Rightarrow> 'f ring_state \<Rightarrow> 'f ring_state" where
  "irq_store n f s =
     s\<lparr>rs_ring := ring_store n f (rs_ring s),
       rs_accepted := (if (m_rx_head (rs_ring s) + 1) mod n \<noteq> m_rx_tail (rs_ring s)
                       then rs_accepted s @ [f] else rs_accepted s)\<rparr>"

definition recv_step :: "nat \<Rightarrow> 'f ring_state \<Rightarrow> 'f ring_state" where
  "recv_step n s =
     (case rs_pc s of
        Idle \<Rightarrow> s\<lparr>rs_pc := Loaded_tail (m_rx_tail (rs_ring s))\<rparr>
      | Loaded_tail tail \<Rightarrow>
          (if m_rx_head (rs_ring s) = tail then s\<lparr>rs_pc := Idle\<rparr>
           else s\<lparr>rs_pc := Nonempty tail\<rparr>)
      | Nonempty tail \<Rightarrow> s\<lparr>rs_pc := Copied tail (m_rx_ring (rs_ring s) ! tail)\<rparr>
      | Copied tail f \<Rightarrow>
          s\<lparr>rs_ring := (rs_ring s)\<lparr>m_rx_tail := (tail + 1) mod n\<rparr>, rs_pc := Idle,
            rs_delivered := rs_delivered s @ [f]\<rparr>)"

inductive ring_step :: "nat \<Rightarrow> 'f ring_state \<Rightarrow> 'f ring_state \<Rightarrow> bool" for n where
  irq: "ring_step n s (irq_store n f s)"
| recv: "ring_step n s (recv_step n s)"

definition ring_start :: "'f list \<Rightarrow> 'f ring_state" where
  "ring_start garbage =
     \<lparr>rs_ring = ring_new garbage, rs_pc = Idle, rs_accepted = [], rs_delivered = []\<rparr>"

inductive_simps ring_step_iff: "ring_step n s t"

fun pc_ok :: "nat \<Rightarrow> 'f rx_ring \<Rightarrow> 'f recv_pc \<Rightarrow> bool" where
  "pc_ok n r Idle = True"
| "pc_ok n r (Loaded_tail tail) = (tail = m_rx_tail r)"
| "pc_ok n r (Nonempty tail) = (tail = m_rx_tail r \<and> m_rx_head r \<noteq> tail)"
| "pc_ok n r (Copied tail f) =
     (tail = m_rx_tail r \<and> m_rx_head r \<noteq> tail \<and> m_rx_ring r ! tail = f)"

definition ring_state_inv :: "nat \<Rightarrow> 'f ring_state \<Rightarrow> bool" where
  "ring_state_inv n s \<longleftrightarrow> ring_inv n (rs_ring s) \<and> pc_ok n (rs_ring s) (rs_pc s) \<and>
     rs_delivered s @ ring_content n (rs_ring s) = rs_accepted s"

text \<open>The handler never writes the slot at the tail while there is a frame in it.\<close>

lemma irq_keeps_pc_ok: "pc_ok n r pc \<Longrightarrow> pc_ok n (ring_store n f r) pc"
  by (cases pc) (auto simp: ring_store_def Let_def nth_list_update_neq)

lemma irq_keeps_state_inv:
  assumes "ring_state_inv n s"
  shows "ring_state_inv n (irq_store n f s)"
  using assms ring_full_iff [of n "rs_ring s"] ring_count_lt [of n "rs_ring s"]
  by (auto simp: ring_state_inv_def irq_store_def ring_inv_store ring_content_store
      irq_keeps_pc_ok)

lemma recv_keeps_state_inv:
  assumes "ring_state_inv n s"
  shows "ring_state_inv n (recv_step n s)"
proof (cases "rs_pc s")
  case (Copied tail f)
  have "ring_receive n (rs_ring s) = (Some f, (rs_ring s)\<lparr>m_rx_tail := (tail + 1) mod n\<rparr>)"
    using assms Copied by (auto simp: ring_state_inv_def ring_receive_def Let_def)
  with assms Copied ring_receive_content [of n "rs_ring s"] ring_inv_receive [of n "rs_ring s"]
  show ?thesis by (auto simp: ring_state_inv_def recv_step_def)
qed (use assms in \<open>auto simp: ring_state_inv_def recv_step_def\<close>)

lemma ring_step_inv: "ring_step n s t \<Longrightarrow> ring_state_inv n s \<Longrightarrow> ring_state_inv n t"
  by (auto simp: ring_step_iff irq_keeps_state_inv recv_keeps_state_inv)

lemma ring_start_inv: "length garbage = n \<Longrightarrow> 0 < n \<Longrightarrow> ring_state_inv n (ring_start garbage)"
  by (simp add: ring_state_inv_def ring_start_def ring_inv_new ring_content_new)

lemma ring_reachable_inv:
  "(ring_step n)\<^sup>*\<^sup>* s t \<Longrightarrow> ring_state_inv n s \<Longrightarrow> ring_state_inv n t"
  by (induction rule: rtranclp_induct) (auto intro: ring_step_inv)

text \<open>
  C14. Whatever the interleaving of the interrupt handler with the steps of \<open>receive\<close>, the
  main loop has received a prefix of the accepted frames, in order, none twice and none
  torn, and the rest is in the buffer; a frame is dropped only when n - 1 frames wait.
\<close>

theorem receive_interleaved_with_irq:
  assumes "length garbage = n" "0 < n"
    and "(ring_step n)\<^sup>*\<^sup>* (ring_start garbage) s"
  shows "rs_accepted s = rs_delivered s @ ring_content n (rs_ring s) \<and>
    ring_count n (rs_ring s) < n \<and>
    (\<forall>f. rs_accepted (irq_store n f s) =
       (if ring_count n (rs_ring s) = n - 1 then rs_accepted s else rs_accepted s @ [f]))"
  using ring_reachable_inv [OF assms(3) ring_start_inv [OF assms(1,2)]]
    ring_full_iff [of n "rs_ring s"] ring_count_lt [of n "rs_ring s"]
  by (auto simp: ring_state_inv_def irq_store_def)

theorem receive_interleaved_with_irq_witness:
  "let s = recv_step 8 (irq_store 8 False (recv_step 8 (recv_step 8 (recv_step 8
             (irq_store 8 True (ring_start (replicate 8 False)))))))
   in rs_accepted s = rs_delivered s @ ring_content 8 (rs_ring s) \<and> rs_accepted s = [True, False]
     \<and> rs_delivered s = [True]"
proof -
  let ?s = "recv_step 8 (irq_store 8 False (recv_step 8 (recv_step 8 (recv_step 8
             (irq_store 8 True (ring_start (replicate 8 False)))))))"
  have "(ring_step 8)\<^sup>*\<^sup>* (ring_start (replicate 8 False)) ?s"
    by (meson ring_step.intros rtranclp.rtrancl_into_rtrancl rtranclp.rtrancl_refl)
  from receive_interleaved_with_irq [OF _ _ this]
  have "rs_accepted ?s = rs_delivered ?s @ ring_content 8 (rs_ring ?s)" by simp
  moreover have "rs_accepted ?s = [True, False]" "rs_delivered ?s = [True]" by code_simp+
  ultimately show ?thesis by (simp only: Let_def)
qed

end
