(* ===== verification/Stm32_Can.thy ===== *)
theory Stm32_Can
  imports Can_Ring
begin

text \<open>
  The three STM32 CAN drivers (\<open>stm32/src/stm32_can.cpp\<close>, \<open>stm32f1_can.cpp\<close>,
  \<open>stm32h7_can.cpp\<close>) built with the vendor HAL, as implementations of \<open>ICanInterface\<close>. The
  HAL is not part of the repository: its functions and constants are the fields of the
  records \<open>bx_hal\<close> and \<open>fd_hal\<close>, on an environment \<open>'h\<close>. A null HAL handle is the flag
  \<open>hal_can = False\<close>. A HAL function that fills a structure returns it when it reports
  \<open>HAL_OK\<close>; the fields of its structures the drivers fill with one fixed constant (RTR,
  FilterMode, FilterScale and the like) are left out. Built without the HAL module, \<open>send\<close>
  returns false, the tick is 0, and the interrupt handler does nothing.
\<close>

section \<open>bxCAN: the F4 and F1 drivers\<close>

record bx_tx_header =
  StdId :: u32
  ExtId :: u32
  IDE :: u32
  DLC :: u32

record bx_filter =
  FilterBank :: u32
  FilterFIFOAssignment :: u32
  FilterIdHigh :: u32
  FilterIdLow :: u32
  FilterMaskIdHigh :: u32
  FilterMaskIdLow :: u32

record 'h bx_hal =
  CAN_ID_EXT :: u32
  CAN_ID_STD :: u32
  CAN_FILTER_FIFO0 :: u32
  CAN_FILTER_FIFO1 :: u32
  HAL_CAN_AddTxMessage :: "bx_tx_header \<Rightarrow> u8 list \<Rightarrow> 'h \<Rightarrow> bool \<times> 'h"
  HAL_CAN_GetRxMessage :: "u32 \<Rightarrow> 'h \<Rightarrow> (bx_tx_header \<times> u8 list) option \<times> 'h"
  HAL_GetTick :: "'h \<Rightarrow> u32"
  HAL_CAN_ConfigFilter :: "bx_filter \<Rightarrow> 'h \<Rightarrow> bool \<times> 'h"

text \<open>\<open>m_silent_mode\<close> exists in the F1 driver only; the F4 driver never reads it.\<close>

record stm32_can =
  m_hal_can :: bool
  m_rx_fifo :: u32
  m_rx_buf :: "can_frame rx_ring"
  m_silent_mode :: bool

definition stm32_can_new :: "can_frame list \<Rightarrow> bool \<Rightarrow> u32 \<Rightarrow> stm32_can" where
  "stm32_can_new garbage hal_can rx_fifo =
     \<lparr>m_hal_can = hal_can, m_rx_fifo = rx_fifo, m_rx_buf = ring_new garbage,
      m_silent_mode = False\<rparr>"

definition bx_header :: "'h bx_hal \<Rightarrow> can_frame \<Rightarrow> bx_tx_header" where
  "bx_header hal frame =
     \<lparr>StdId = cf_id frame AND 0x7FF, ExtId = cf_id frame,
      IDE = (if cf_extended frame then CAN_ID_EXT hal else CAN_ID_STD hal),
      DLC = ucast (cf_dlc frame)\<rparr>"

definition stm32_send :: "'h bx_hal \<Rightarrow> stm32_can \<Rightarrow> can_frame \<Rightarrow> 'h \<Rightarrow> bool \<times> 'h" where
  "stm32_send hal d frame h =
     (if \<not> m_hal_can d then (False, h)
      else HAL_CAN_AddTxMessage hal (bx_header hal frame) (cf_data frame) h)"

definition stm32f1_send :: "'h bx_hal \<Rightarrow> stm32_can \<Rightarrow> can_frame \<Rightarrow> 'h \<Rightarrow> bool \<times> 'h" where
  "stm32f1_send hal d frame h =
     (if \<not> m_hal_can d then (False, h)
      else if m_silent_mode d then (False, h)
      else HAL_CAN_AddTxMessage hal (bx_header hal frame) (cf_data frame) h)"

definition set_silent_mode :: "bool \<Rightarrow> stm32_can \<Rightarrow> stm32_can" where
  "set_silent_mode enable d = d\<lparr>m_silent_mode := enable\<rparr>"

definition bx_receive :: "nat \<Rightarrow> stm32_can \<Rightarrow> can_frame option \<times> stm32_can" where
  "bx_receive kRxBufSize d =
     (case ring_receive kRxBufSize (m_rx_buf d) of (fr, r) \<Rightarrow> (fr, d\<lparr>m_rx_buf := r\<rparr>))"

definition bx_frame :: "'h bx_hal \<Rightarrow> bx_tx_header \<Rightarrow> u8 list \<Rightarrow> can_frame" where
  "bx_frame hal hdr data =
     \<lparr>cf_id = (if IDE hdr = CAN_ID_EXT hal then ExtId hdr else StdId hdr),
      cf_data = data, cf_dlc = ucast (DLC hdr), cf_extended = (IDE hdr = CAN_ID_EXT hal)\<rparr>"

definition bx_on_rx_irq :: "nat \<Rightarrow> 'h bx_hal \<Rightarrow> stm32_can \<Rightarrow> 'h \<Rightarrow> stm32_can \<times> 'h" where
  "bx_on_rx_irq kRxBufSize hal d h =
     (case HAL_CAN_GetRxMessage hal (m_rx_fifo d) h of
        (None, h') \<Rightarrow> (d, h')
      | (Some (hdr, data), h') \<Rightarrow>
          (d\<lparr>m_rx_buf := ring_store kRxBufSize (bx_frame hal hdr data) (m_rx_buf d)\<rparr>, h'))"

text \<open>The filter registers: 16 bits each, packed from the identifier and the mask.\<close>

definition f4_filter :: "'h bx_hal \<Rightarrow> stm32_can \<Rightarrow> u32 \<Rightarrow> u32 \<Rightarrow> bool \<Rightarrow> bx_filter" where
  "f4_filter hal d ident msk extended =
     (let fifo = (if m_rx_fifo d = 0 then CAN_FILTER_FIFO0 hal else CAN_FILTER_FIFO1 hal) in
      if \<not> extended then
        \<lparr>FilterBank = 0, FilterFIFOAssignment = fifo,
         FilterIdHigh = push_bit 5 (ident AND 0x7FF) AND 0xFFFF, FilterIdLow = 0,
         FilterMaskIdHigh = push_bit 5 (msk AND 0x7FF) AND 0xFFFF, FilterMaskIdLow = 0x0002\<rparr>
      else
        \<lparr>FilterBank = 0, FilterFIFOAssignment = fifo,
         FilterIdHigh = drop_bit 13 ident AND 0xFFFF,
         FilterIdLow = (push_bit 3 ident OR 0x04) AND 0xFFFF,
         FilterMaskIdHigh = drop_bit 13 msk AND 0xFFFF,
         FilterMaskIdLow = (push_bit 3 msk OR 0x04) AND 0xFFFF\<rparr>)"

definition f4_configure_filter ::
    "'h bx_hal \<Rightarrow> stm32_can \<Rightarrow> u32 \<Rightarrow> u32 \<Rightarrow> bool \<Rightarrow> 'h \<Rightarrow> bool \<times> 'h" where
  "f4_configure_filter hal d ident msk extended h =
     HAL_CAN_ConfigFilter hal (f4_filter hal d ident msk extended) h"

definition f1_configure_filter ::
    "'h bx_hal \<Rightarrow> stm32_can \<Rightarrow> u32 \<Rightarrow> u32 \<Rightarrow> u8 \<Rightarrow> 'h \<Rightarrow> bool \<times> 'h" where
  "f1_configure_filter hal d ident msk filter_bank h =
     HAL_CAN_ConfigFilter hal
       ((f4_filter hal d ident msk False)\<lparr>FilterBank := ucast filter_bank\<rparr>) h"

text \<open>A driver object and its HAL are the environment of the transport layer.\<close>

definition f4_can :: "'h bx_hal \<Rightarrow> (stm32_can \<times> 'h) can_if" where
  "f4_can hal =
     \<lparr>can_send = (\<lambda>fr (d, h). case stm32_send hal d fr h of (ok, h') \<Rightarrow> (ok, (d, h'))),
      can_receive = (\<lambda>(d, h). case bx_receive kRxBufSize_f4 d of (fr, d') \<Rightarrow> (fr, (d', h))),
      can_tick = (\<lambda>(d, h). HAL_GetTick hal h)\<rparr>"

definition f1_can :: "'h bx_hal \<Rightarrow> (stm32_can \<times> 'h) can_if" where
  "f1_can hal =
     \<lparr>can_send = (\<lambda>fr (d, h). case stm32f1_send hal d fr h of (ok, h') \<Rightarrow> (ok, (d, h'))),
      can_receive = (\<lambda>(d, h). case bx_receive kRxBufSize_f1 d of (fr, d') \<Rightarrow> (fr, (d', h))),
      can_tick = (\<lambda>(d, h). HAL_GetTick hal h)\<rparr>"

section \<open>FDCAN: the H7 driver\<close>

record fd_header =
  Identifier :: u32
  IdType :: u32
  DataLength :: u32
  BitRateSwitch :: u32
  FDFormat :: u32

record fd_filter =
  fdf_IdType :: u32
  fdf_FilterConfig :: u32
  fdf_FilterID1 :: u32
  fdf_FilterID2 :: u32

record 'h fd_hal =
  FDCAN_EXTENDED_ID :: u32
  FDCAN_STANDARD_ID :: u32
  FDCAN_DLC_BYTES_8 :: u32
  FDCAN_BRS_ON :: u32
  FDCAN_BRS_OFF :: u32
  FDCAN_FD_CAN :: u32
  FDCAN_CLASSIC_CAN :: u32
  FDCAN_RX_FIFO0 :: u32
  FDCAN_RX_FIFO1 :: u32
  FDCAN_FILTER_TO_RXFIFO0 :: u32
  FDCAN_FILTER_TO_RXFIFO1 :: u32
  HAL_FDCAN_AddMessageToTxFifoQ :: "fd_header \<Rightarrow> u8 list \<Rightarrow> 'h \<Rightarrow> bool \<times> 'h"
  HAL_FDCAN_GetRxMessage :: "u32 \<Rightarrow> 'h \<Rightarrow> (fd_header \<times> u8 list) option \<times> 'h"
  HAL_FDCAN_ConfigFilter :: "fd_filter \<Rightarrow> 'h \<Rightarrow> bool \<times> 'h"
  HAL_GetTick_h7 :: "'h \<Rightarrow> u32"

record stm32h7_can =
  m_hal_fdcan :: bool
  h7_rx_fifo :: u32
  m_fd_mode :: bool
  h7_rx_buf :: "can_frame rx_ring"

definition stm32h7_can_new :: "can_frame list \<Rightarrow> bool \<Rightarrow> u32 \<Rightarrow> stm32h7_can" where
  "stm32h7_can_new garbage hal_fdcan rx_fifo =
     \<lparr>m_hal_fdcan = hal_fdcan, h7_rx_fifo = rx_fifo, m_fd_mode = False,
      h7_rx_buf = ring_new garbage\<rparr>"

definition enable_fd_mode :: "bool \<Rightarrow> stm32h7_can \<Rightarrow> stm32h7_can" where
  "enable_fd_mode enable d = d\<lparr>m_fd_mode := enable\<rparr>"

definition fd_tx_header :: "'h fd_hal \<Rightarrow> bool \<Rightarrow> can_frame \<Rightarrow> fd_header" where
  "fd_tx_header hal fd_mode frame =
     \<lparr>Identifier = cf_id frame AND (if cf_extended frame then 0x1FFFFFFF else 0x7FF),
      IdType = (if cf_extended frame then FDCAN_EXTENDED_ID hal else FDCAN_STANDARD_ID hal),
      DataLength = (if cf_dlc frame \<le> 8 then push_bit 16 (ucast (cf_dlc frame))
                    else FDCAN_DLC_BYTES_8 hal),
      BitRateSwitch = (if fd_mode then FDCAN_BRS_ON hal else FDCAN_BRS_OFF hal),
      FDFormat = (if fd_mode then FDCAN_FD_CAN hal else FDCAN_CLASSIC_CAN hal)\<rparr>"

definition stm32h7_send :: "'h fd_hal \<Rightarrow> stm32h7_can \<Rightarrow> can_frame \<Rightarrow> 'h \<Rightarrow> bool \<times> 'h" where
  "stm32h7_send hal d frame h =
     (if \<not> m_hal_fdcan d then (False, h)
      else HAL_FDCAN_AddMessageToTxFifoQ hal (fd_tx_header hal (m_fd_mode d) frame)
             (cf_data frame) h)"

definition h7_receive :: "stm32h7_can \<Rightarrow> can_frame option \<times> stm32h7_can" where
  "h7_receive d =
     (case ring_receive kRxBufSize_h7 (h7_rx_buf d) of (fr, r) \<Rightarrow> (fr, d\<lparr>h7_rx_buf := r\<rparr>))"

definition fd_rx_frame :: "'h fd_hal \<Rightarrow> fd_header \<Rightarrow> u8 list \<Rightarrow> can_frame" where
  "fd_rx_frame hal hdr data =
     \<lparr>cf_id = Identifier hdr, cf_data = data,
      cf_dlc = ucast (drop_bit 16 (DataLength hdr) AND 0xF),
      cf_extended = (IdType hdr = FDCAN_EXTENDED_ID hal)\<rparr>"

definition h7_on_rx_irq :: "'h fd_hal \<Rightarrow> stm32h7_can \<Rightarrow> 'h \<Rightarrow> stm32h7_can \<times> 'h" where
  "h7_on_rx_irq hal d h =
     (let fifo = (if h7_rx_fifo d = 0 then FDCAN_RX_FIFO0 hal else FDCAN_RX_FIFO1 hal) in
      case HAL_FDCAN_GetRxMessage hal fifo h of
        (None, h') \<Rightarrow> (d, h')
      | (Some (hdr, data), h') \<Rightarrow>
          (d\<lparr>h7_rx_buf := ring_store kRxBufSize_h7 (fd_rx_frame hal hdr data) (h7_rx_buf d)\<rparr>,
           h'))"

definition h7_configure_filter ::
    "'h fd_hal \<Rightarrow> stm32h7_can \<Rightarrow> u32 \<Rightarrow> u32 \<Rightarrow> bool \<Rightarrow> 'h \<Rightarrow> bool \<times> 'h" where
  "h7_configure_filter hal d ident msk extended h =
     HAL_FDCAN_ConfigFilter hal
       \<lparr>fdf_IdType = (if extended then FDCAN_EXTENDED_ID hal else FDCAN_STANDARD_ID hal),
        fdf_FilterConfig = (if h7_rx_fifo d = 0 then FDCAN_FILTER_TO_RXFIFO0 hal
                            else FDCAN_FILTER_TO_RXFIFO1 hal),
        fdf_FilterID1 = ident, fdf_FilterID2 = msk\<rparr> h"

definition h7_can :: "'h fd_hal \<Rightarrow> (stm32h7_can \<times> 'h) can_if" where
  "h7_can hal =
     \<lparr>can_send = (\<lambda>fr (d, h). case stm32h7_send hal d fr h of (ok, h') \<Rightarrow> (ok, (d, h'))),
      can_receive = (\<lambda>(d, h). case h7_receive d of (fr, d') \<Rightarrow> (fr, (d', h))),
      can_tick = (\<lambda>(d, h). HAL_GetTick_h7 hal h)\<rparr>"

section \<open>What a driver preserves of a frame\<close>

lemma mask_id_small: "unat x < 2 ^ n \<Longrightarrow> x AND mask n = x" for x :: u32
  by (simp add: take_bit_eq_mask [symmetric] take_bit_small)

lemma bx_frame_header:
  assumes "CAN_ID_EXT hal \<noteq> CAN_ID_STD hal" "\<not> cf_extended f \<Longrightarrow> cf_id f < 0x800"
  shows "bx_frame hal (bx_header hal f) (cf_data f) = f"
  using assms mask_id_small [of "cf_id f" 11]
  by (cases f) (auto simp: bx_frame_def bx_header_def mask_eq_exp_minus_1 word_less_nat_alt)

lemma fd_dlc_field: "ucast (drop_bit 16 (push_bit 16 (ucast d)) AND 0xF :: u32) = d"
  if "d \<le> (8 :: u8)"
proof -
  have "unat d < 2 ^ 4" using that by (simp add: word_le_nat_alt)
  then have "take_bit 4 d = d" by (simp add: take_bit_small)
  then have d: "bit d n \<longleftrightarrow> bit d n \<and> n < 4" for n by (metis bit_take_bit_iff)
  show ?thesis
    unfolding nibble_eq_take_bit
    by (rule bit_word_eqI) (use d in \<open>auto simp: bit_simps\<close>)
qed

lemma fd_frame_header:
  assumes "FDCAN_EXTENDED_ID hal \<noteq> FDCAN_STANDARD_ID hal"
    "cf_id f < (if cf_extended f then 0x20000000 else 0x800)" "cf_dlc f \<le> 8"
  shows "fd_rx_frame hal (fd_tx_header hal fd f) (cf_data f) = f"
  using assms mask_id_small [of "cf_id f" 11] mask_id_small [of "cf_id f" 29]
  by (cases f) (auto simp: fd_rx_frame_def fd_tx_header_def mask_eq_exp_minus_1 fd_dlc_field
      word_less_nat_alt split: if_splits)

text \<open>
  C40. A frame with an identifier of its format and at most eight bytes crosses the bus
  unchanged: what the receiving driver rebuilds from the header the sending driver wrote is
  the frame that was sent, for bxCAN and for FDCAN.
\<close>

theorem drivers_preserve_frames:
  assumes "CAN_ID_EXT bx \<noteq> CAN_ID_STD bx" "FDCAN_EXTENDED_ID fd \<noteq> FDCAN_STANDARD_ID fd"
    and "cf_id f < (if cf_extended f then 0x20000000 else 0x800)" "cf_dlc f \<le> 8"
  shows "bx_frame bx (bx_header bx f) (cf_data f) = f \<and>
    fd_rx_frame fd (fd_tx_header fd mode f) (cf_data f) = f"
  using assms bx_frame_header [of bx f] fd_frame_header [of fd f mode] by (auto split: if_splits)

definition test_bx_hal :: "(bx_tx_header \<times> u8 list) list bx_hal" where
  "test_bx_hal =
     \<lparr>CAN_ID_EXT = 4, CAN_ID_STD = 0, CAN_FILTER_FIFO0 = 0, CAN_FILTER_FIFO1 = 1,
      HAL_CAN_AddTxMessage = (\<lambda>hdr data q. (True, q @ [(hdr, data)])),
      HAL_CAN_GetRxMessage = (\<lambda>fifo q. case q of [] \<Rightarrow> (None, q) | x # q' \<Rightarrow> (Some x, q')),
      HAL_GetTick = (\<lambda>q. 0), HAL_CAN_ConfigFilter = (\<lambda>f q. (True, q))\<rparr>"

definition test_fd_hal :: "unit fd_hal" where
  "test_fd_hal =
     \<lparr>FDCAN_EXTENDED_ID = 0x40000000, FDCAN_STANDARD_ID = 0, FDCAN_DLC_BYTES_8 = 0x80000,
      FDCAN_BRS_ON = 1, FDCAN_BRS_OFF = 0, FDCAN_FD_CAN = 2, FDCAN_CLASSIC_CAN = 0,
      FDCAN_RX_FIFO0 = 0, FDCAN_RX_FIFO1 = 1, FDCAN_FILTER_TO_RXFIFO0 = 1,
      FDCAN_FILTER_TO_RXFIFO1 = 2, HAL_FDCAN_AddMessageToTxFifoQ = (\<lambda>hdr data h. (True, h)),
      HAL_FDCAN_GetRxMessage = (\<lambda>fifo h. (None, h)),
      HAL_FDCAN_ConfigFilter = (\<lambda>f h. (True, h)), HAL_GetTick_h7 = (\<lambda>h. 0)\<rparr>"

theorem drivers_preserve_frames_witness:
  "bx_frame test_bx_hal (bx_header test_bx_hal (zero_frame\<lparr>cf_id := 0x7E0, cf_dlc := 8\<rparr>))
     (replicate 8 0) = zero_frame\<lparr>cf_id := 0x7E0, cf_dlc := 8\<rparr>"
  using drivers_preserve_frames [of test_bx_hal test_fd_hal
      "zero_frame\<lparr>cf_id := 0x7E0, cf_dlc := 8\<rparr>" True]
  by (simp add: test_bx_hal_def test_fd_hal_def zero_frame_def)

text \<open>
  The frame length field of FDCAN has four bits and \<open>on_rx_irq\<close> keeps them all: a frame of an
  FD bus with more than eight bytes is not a classic frame, although its data array has
  eight bytes.
\<close>

lemma h7_long_frame_not_classic:
  "classic_frame (fd_rx_frame test_fd_hal
     \<lparr>Identifier = 0x7E0, IdType = 0, DataLength = 0xF0000, BitRateSwitch = 0, FDFormat = 2\<rparr>
     (replicate 8 0)) = False"
  by (simp add: classic_frame_def fd_rx_frame_def)

end
