(* ===== verification/Example_Main.thy ===== *)
theory Example_Main
  imports Service_Objects Server_Props Stm32_Can
begin

text \<open>
  The example program (\<open>examples/stm32f4/main.cpp\<close>): the objects \<open>main\<close> creates, what it
  registers, and its endless loop. The record \<open>ecu_app\<close> is everything the program owns
  besides the server: the CAN driver, the static variables and the service objects with a
  state of their own. The driver is a parameter, so that the loop is also the one of an ECU
  on a real driver; the program as it is written runs on \<open>stub_can\<close>.
\<close>

section \<open>Data of the application\<close>

record 'd ecu_app =
  app_can :: 'd
  kSwVer :: "u8 list"
  app_lfsr :: u32
  app_sec :: "u32 security"
  app_dtc :: dtc_manager
  app_rdbi :: "u8 list data_identifier list"
  app_wdbi :: "u8 list data_identifier list"
  app_routines :: "unit routine_entry list"

definition kVin :: "u8 list" where
  "kVin = [0x57, 0x56, 0x57, 0x5A, 0x5A, 0x5A, 0x31, 0x4A, 0x5A, 0x33, 0x57, 0x33, 0x38, 0x36,
           0x37, 0x35, 0x32]"

text \<open>The callbacks of the data identifiers work on the array \<open>kSwVer\<close>.\<close>

definition did_vin :: "u8 list \<Rightarrow> nat \<Rightarrow> u8 list \<Rightarrow> nat \<times> u8 list \<times> u8 list" where
  "did_vin b m sw =
     (let l = length kVin in if l > m then (0, b, sw) else (l, put 0 kVin b, sw))"

definition did_sw :: "u8 list \<Rightarrow> nat \<Rightarrow> u8 list \<Rightarrow> nat \<times> u8 list \<times> u8 list" where
  "did_sw b m sw = (if m < 4 then (0, b, sw) else (4, put 0 (take 4 sw) b, sw))"

definition did_sw_wr :: "u8 list \<Rightarrow> u8 list \<Rightarrow> bool \<times> u8 list" where
  "did_sw_wr d sw = (if length d \<noteq> 4 then (False, sw) else (True, put 0 d sw))"

definition on_reset :: "ResetType \<Rightarrow> 'w \<Rightarrow> 'w" where
  "on_reset t w = w"

definition routine_erase :: "'w routine_fn" where
  "routine_erase opt r w = (True, put 0 [0x10] r, 1, w)"

section \<open>Registration\<close>

definition vin_entry :: "u8 list data_identifier" where
  "vin_entry = \<lparr>did = 0xF190, writable = False, read_fn = Some did_vin, write_fn = None\<rparr>"

definition sw_entry :: "u8 list data_identifier" where
  "sw_entry = \<lparr>did = 0xF189, writable = True, read_fn = Some did_sw, write_fn = Some did_sw_wr\<rparr>"

definition erase_entry :: "unit routine_entry" where
  "erase_entry = \<lparr>routine_id = 0x0301, routine_start = Some routine_erase, routine_stop = None,
     routine_results = None, routine_required_session = Programming\<rparr>"

definition main_app :: "'d \<Rightarrow> 'd ecu_app" where
  "main_app drv =
     \<lparr>app_can = drv,
      kSwVer = [0x01, 0x00, 0x05, 0x00],
      app_lfsr = lfsr_static_init,
      app_sec = snd (register_level (xor_level 1 0xDEAD1234 Extended) security_new),
      app_dtc = snd (register_dtc 0x020202 0x40 (snd (register_dtc 0x010101 0x00 dtc_manager_new))),
      app_rdbi = snd (register_did sw_entry (snd (register_did vin_entry []))),
      app_wdbi = snd (register_did sw_entry []),
      app_routines = snd (register_routine erase_entry [])\<rparr>"

definition main_services :: "'d ecu_app service list" where
  "main_services =
     [tester_present_service,
      \<lparr>service_id = sid_byte DiagnosticSessionControl, handle = dsc_handle None\<rparr>,
      app_service EcuReset (\<lambda>_. ()) (\<lambda>_ w. w) (\<lambda>_. ecu_reset_handle (Some on_reset)),
      app_service ReadDataByIdentifier (\<lambda>w. (app_rdbi w, kSwVer w))
        (\<lambda>(t, sw) w. w\<lparr>app_rdbi := t, kSwVer := sw\<rparr>)
        (\<lambda>_ req resp (t, sw). case rdbi_handle t req resp sw of (r, sw) \<Rightarrow> (r, (t, sw))),
      app_service WriteDataByIdentifier (\<lambda>w. (app_wdbi w, kSwVer w))
        (\<lambda>(t, sw) w. w\<lparr>app_wdbi := t, kSwVer := sw\<rparr>)
        (\<lambda>_ req resp (t, sw). case wdbi_handle t req resp sw of (r, sw) \<Rightarrow> (r, (t, sw))),
      app_service SecurityAccess (\<lambda>w. (app_sec w, app_lfsr w))
        (\<lambda>(s, lfsr) w. w\<lparr>app_sec := s, app_lfsr := lfsr\<rparr>) security_handle,
      app_service RoutineControl (\<lambda>w. (app_routines w, ()))
        (\<lambda>(t, _) w. w\<lparr>app_routines := t\<rparr>)
        (\<lambda>session req resp (t, u). case routine_handle t session req resp u of (r, u) \<Rightarrow> (r, (t, u))),
      app_service ReadDtcInformation app_dtc (\<lambda>m w. w\<lparr>app_dtc := m\<rparr>) (\<lambda>_. read_dtc_handle),
      app_service ClearDiagnosticInformation app_dtc (\<lambda>m w. w\<lparr>app_dtc := m\<rparr>) (\<lambda>_. clear_dtc_handle),
      app_service ControlDtcSetting (\<lambda>_. ()) (\<lambda>_ w. w) (control_dtc_handle None)]"

definition main_server :: "u8 list \<Rightarrow> u8 list \<Rightarrow> u8 list \<Rightarrow> 'd ecu_app uds_server" where
  "main_server g g' g'' =
     register_services (map Some main_services)
       (server_new (isotp_new g (kDefaultIsoTpConfig\<lparr>cfg_rx_id := 0x7E0, cfg_tx_id := 0x7E8\<rparr>))
          kDefaultTiming g' g'')"

section \<open>The loop\<close>

text \<open>The driver as a part of the application.\<close>

definition app_can_if :: "'d can_if \<Rightarrow> 'd ecu_app can_if" where
  "app_can_if can =
     \<lparr>can_send = (\<lambda>f w. case can_send can f (app_can w) of (ok, d) \<Rightarrow> (ok, w\<lparr>app_can := d\<rparr>)),
      can_receive = (\<lambda>w. case can_receive can (app_can w) of (f, d) \<Rightarrow> (f, w\<lparr>app_can := d\<rparr>)),
      can_tick = (\<lambda>w. can_tick can (app_can w))\<rparr>"

text \<open>
  \<open>while (can.receive(f)) isotp.process_frame(f);\<close> The value is \<open>None\<close> when the loop does
  not end or when \<open>process_frame\<close> reads outside an array.
\<close>

partial_function (option) receive_loop ::
    "'s can_if \<Rightarrow> 's uds_server \<Rightarrow> 's \<Rightarrow> ('s uds_server \<times> 's) option" where
  "receive_loop can srv w =
     (case can_receive can w of
        (None, w) \<Rightarrow> Some (srv, w)
      | (Some f, w) \<Rightarrow>
          (case server_feed can [f] srv w of
             None \<Rightarrow> None
           | Some (srv, w) \<Rightarrow> receive_loop can srv w))"

text \<open>
  One pass of the loop. \<open>tick\<close> is what happens to the driver at its end: \<open>can.tick()\<close> of the
  stub, time and interrupts for a real driver.
\<close>

definition main_iteration ::
    "'d can_if \<Rightarrow> ('d \<Rightarrow> 'd) \<Rightarrow> 'd ecu_app uds_server \<times> 'd ecu_app \<Rightarrow>
     ('d ecu_app uds_server \<times> 'd ecu_app) option" where
  "main_iteration can tick = (\<lambda>(srv, w).
     case receive_loop (app_can_if can) srv w of
       None \<Rightarrow> None
     | Some (srv, w) \<Rightarrow>
         let w = w\<lparr>app_sec := security_update (can_tick can (app_can w)) (app_sec w)\<rparr> in
         (case server_process (app_can_if can) srv w of
            None \<Rightarrow> None
          | Some (srv, w) \<Rightarrow> Some (srv, w\<lparr>app_can := tick (app_can w)\<rparr>)))"

text \<open>As many passes as there are elements in the list.\<close>

fun main_loop ::
    "'d can_if \<Rightarrow> ('d \<Rightarrow> 'd) list \<Rightarrow> 'd ecu_app uds_server \<times> 'd ecu_app \<Rightarrow>
     ('d ecu_app uds_server \<times> 'd ecu_app) option" where
  "main_loop can [] st = Some st"
| "main_loop can (tick # ticks) st =
     (case main_iteration can tick st of None \<Rightarrow> None | Some st \<Rightarrow> main_loop can ticks st)"

end
