(* ===== verification/Example_Props.thy ===== *)
theory Example_Props
  imports Example_Main
begin

text \<open>
  The program as a whole: its receive loop ends on a driver that hands out finitely many
  frames, no pass of the loop of \<open>main\<close> faults, its sessions never time out, and what a
  tester can read and write in it.
\<close>

section \<open>The registered services\<close>

lemma main_services_registered [simp]: "us_services (main_server g g' g'') = main_services"
  by (simp add: main_server_def register_services_def main_services_def register_service_def
      server_new_def kMaxServices_def app_service_def tester_present_service_def)

lemma main_server_simps [simp]:
  "us_transport (main_server g g' g'') = isotp_new g ecu_cfg"
  "us_session (main_server g g' g'') = session_new kDefaultTiming"
  "us_tick_fn (main_server g g' g'') = None"
  "us_req_buf (main_server g g' g'') = g'" "us_resp_buf (main_server g g' g'') = g''"
  by (simp_all add: main_server_def register_services_def main_services_def register_service_def
      server_new_def kMaxServices_def app_service_def tester_present_service_def)

section \<open>The invariant of the application\<close>

definition app_inv :: "('d \<Rightarrow> bool) \<Rightarrow> 'd ecu_app \<Rightarrow> bool" where
  "app_inv D w \<longleftrightarrow> D (app_can w) \<and> security_inv (app_sec w) \<and> dtc_inv (app_dtc w) \<and>
     length (kSwVer w) = 4 \<and>
     (\<forall>d \<in> set (app_rdbi w). reader_ok d \<and> reader_blind (\<lambda>sw. length sw = 4) d) \<and>
     (\<forall>d \<in> set (app_wdbi w). writer_keeps (\<lambda>sw. length sw = 4) d) \<and>
     (\<forall>e \<in> set (app_routines w). routine_ok e \<and> routine_blind e)"

lemma did_callbacks_ok: "reader_ok vin_entry" "reader_ok sw_entry"
  by (auto simp: reader_ok_def vin_entry_def sw_entry_def did_vin_def did_sw_def kVin_def
      fills_buffer_def Let_def length_put split: if_splits)

lemma did_callbacks_blind:
  "reader_blind (\<lambda>sw. length sw = 4) vin_entry" "reader_blind (\<lambda>sw. length sw = 4) sw_entry"
  "writer_keeps (\<lambda>sw. length sw = 4) sw_entry"
  by (auto simp: reader_blind_def writer_keeps_def did_sw_wr_def vin_entry_def sw_entry_def did_vin_def did_sw_def
      same_fill_def put_def Let_def)

lemma erase_entry_ok: "routine_ok erase_entry" "routine_blind erase_entry"
  by (auto simp: routine_ok_def routine_blind_def erase_entry_def routine_erase_def routine_fn_ok_def
      routine_fn_blind_def same_try_def kMaxResp_def put_def)

lemma app_inv_main: "D drv \<Longrightarrow> app_inv D (main_app drv)"
  using did_callbacks_ok did_callbacks_blind erase_entry_ok xor_level_generator_ok [of 1 "0xDEAD1234" Extended]
  by (simp add: app_inv_def main_app_def register_did_def register_routine_def
      kMaxDataIdentifiers_def kMaxRoutines_def security_inv_register dtc_inv_register dtc_inv_new)

lemma main_services_blind: "\<forall>svc \<in> set main_services. blind_ok (app_inv D) svc"
  unfolding main_services_def list.set ball_simps
  by (intro conjI tester_present_service_blind dsc_service_blind TrueI;
      (rule app_service_blind, rule blind_contracts did_contracts [where W = "\<lambda>sw. length sw = 4"])?)
    (auto simp: app_inv_def)

lemma main_services_ok: "\<forall>svc \<in> set main_services. service_ok (app_inv D) svc"
  using main_services_blind blind_service_ok by blast

lemma main_server_inv:
  assumes "length g = 4096" "length g' = 4096" "length g'' = 4096"
  shows "server_inv (app_inv D) (main_server g g' g'')"
proof -
  have "rx_inv (isotp_new g ecu_cfg)" by (rule rx_inv_new) (simp add: assms MAX_PAYLOAD_def)
  then show ?thesis
    using assms main_services_ok
    by (simp add: server_inv_def tx_inv_def isotp_new_def kMaxResp_def timeout_ok_def session_new_def)
qed

section \<open>The receive loop\<close>

text \<open>
  A driver that hands out the frames it holds, one per call of \<open>receive\<close>, and then reports
  that there is none; transmissions do not disturb them.
\<close>

locale draining_driver = ecu_environment +
  fixes pending :: "'s \<Rightarrow> can_frame list"
  assumes receive_none: "I w \<Longrightarrow> pending w = [] \<Longrightarrow>
      fst (can_receive can w) = None \<and> pending (snd (can_receive can w)) = []"
    and receive_some: "I w \<Longrightarrow> pending w = f # fs \<Longrightarrow>
      fst (can_receive can w) = Some f \<and> pending (snd (can_receive can w)) = fs"
    and receive_keeps: "I w \<Longrightarrow> I (snd (can_receive can w))"
    and send_pending: "I w \<Longrightarrow> pending (snd (can_send can f w)) = pending w"
    and pending_classic: "I w \<Longrightarrow> f \<in> set (pending w) \<Longrightarrow> classic_frame f"
begin

lemma feed_pending:
  assumes "server_inv J srv" "I w" "classic_frame f"
  shows "\<exists>srv' w'. server_feed can [f] srv w = Some (srv', w') \<and> server_inv J srv' \<and> I w' \<and>
    pending w' = pending w"
proof -
  have "ecu_environment can (\<lambda>v. I v \<and> pending v = pending w)"
    by unfold_locales (simp add: send_keeps send_pending)
  from ecu_environment.feed_safe [OF this, of "us_transport srv" "server_store (us_resp_buf srv) []" w "[f]"]
  show ?thesis using assms by (auto simp: server_feed_def server_inv_def)
qed

lemma receive_loop_ends:
  assumes "server_inv J srv" "I w"
  shows "\<exists>srv' w'. receive_loop can srv w = Some (srv', w') \<and> server_inv J srv' \<and> I w' \<and>
    pending w' = []"
  using assms
proof (induction "pending w" arbitrary: srv w)
  case Nil
  then show ?case
    using receive_none [of w] receive_keeps [of w]
    by (subst receive_loop.simps) (cases "can_receive can w"; simp)
next
  case (Cons f fs)
  obtain w1 where w1: "can_receive can w = (Some f, w1)" "I w1" "pending w1 = fs"
    using receive_some [OF Cons.prems(2), of f fs] receive_keeps [OF Cons.prems(2)] Cons.hyps(2)
    by (cases "can_receive can w") auto
  have "classic_frame f" using pending_classic [OF Cons.prems(2), of f] Cons.hyps(2)
    by (metis list.set_intros(1))
  then obtain srv2 w2 where 2: "server_feed can [f] srv w1 = Some (srv2, w2)" "server_inv J srv2"
    "I w2" "pending w2 = fs"
    using feed_pending [OF Cons.prems(1) w1(2)] w1(3) by blast
  from Cons.hyps(1) [of w2 srv2] 2 w1 show ?case by (subst receive_loop.simps) simp
qed

end

lemma app_can_if_simps [simp]:
  "can_send (app_can_if can) f w =
    (fst (can_send can f (app_can w)), w\<lparr>app_can := snd (can_send can f (app_can w))\<rparr>)"
  "can_receive (app_can_if can) w =
    (fst (can_receive can (app_can w)), w\<lparr>app_can := snd (can_receive can (app_can w))\<rparr>)"
  "can_tick (app_can_if can) w = can_tick can (app_can w)"
  by (simp_all add: app_can_if_def split_def)

lemma app_inv_can [simp]: "app_inv D (w\<lparr>app_can := d\<rparr>) \<longleftrightarrow> app_inv (\<lambda>_. D d) w"
  by (simp add: app_inv_def)

lemma app_inv_driver: "app_inv D w \<longleftrightarrow> D (app_can w) \<and> app_inv (\<lambda>_. True) w"
  by (auto simp: app_inv_def)

text \<open>The driver inside the application.\<close>

lemma app_draining:
  assumes "draining_driver can D pending"
  shows "draining_driver (app_can_if can) (app_inv D) (\<lambda>w. pending (app_can w))"
proof -
  note laws = draining_driver.receive_none [OF assms] draining_driver.receive_some [OF assms]
    draining_driver.receive_keeps [OF assms] draining_driver.send_pending [OF assms]
    draining_driver.pending_classic [OF assms]
    ecu_environment.send_keeps [OF draining_driver.axioms(1) [OF assms]]
  show ?thesis
    by unfold_locales (auto simp: app_inv_driver [of D] app_inv_driver [of "\<lambda>_. D _"] laws)
qed

context draining_driver
begin

text \<open>One pass of the loop of \<open>main\<close>, and any number of them.\<close>

lemma main_iteration_safe:
  assumes "server_inv (app_inv I) srv" "app_inv I w" "\<And>d. I d \<Longrightarrow> I (tick d)"
  shows "\<exists>srv' w'. main_iteration can tick (srv, w) = Some (srv', w') \<and>
    server_inv (app_inv I) srv' \<and> app_inv I w'"
proof -
  note D = app_draining [OF draining_driver_axioms]
  obtain srv1 w1 where 1: "receive_loop (app_can_if can) srv w = Some (srv1, w1)"
    "server_inv (app_inv I) srv1" "app_inv I w1"
    using draining_driver.receive_loop_ends [OF D assms(1,2)] by blast
  let ?w = "w1\<lparr>app_sec := security_update (can_tick can (app_can w1)) (app_sec w1)\<rparr>"
  have "app_inv I ?w" using 1(3) by (simp add: app_inv_def)
  then obtain srv2 w2 where 2: "server_process (app_can_if can) srv1 ?w = Some (srv2, w2)"
    "server_inv (app_inv I) srv2" "app_inv I w2"
    using ecu_environment.server_process_safe [OF draining_driver.axioms(1) [OF D] 1(2)] by blast
  with 1 assms(3) show ?thesis
    by (auto simp: main_iteration_def app_inv_driver [of I] app_inv_driver [of "\<lambda>_. I _"])
qed

lemma main_loop_safe:
  assumes "\<forall>tick \<in> set ticks. \<forall>d. I d \<longrightarrow> I (tick d)" "server_inv (app_inv I) srv" "app_inv I w"
  shows "\<exists>srv' w'. main_loop can ticks (srv, w) = Some (srv', w') \<and>
    server_inv (app_inv I) srv' \<and> app_inv I w'"
  using assms
proof (induction ticks arbitrary: srv w)
  case (Cons tick ticks)
  then obtain srv1 w1 where "main_iteration can tick (srv, w) = Some (srv1, w1)"
    "server_inv (app_inv I) srv1" "app_inv I w1"
    using main_iteration_safe [of srv w tick] by auto
  with Cons show ?case by simp
qed simp

end

section \<open>The drivers\<close>

interpretation stub_main: draining_driver stub_can "\<lambda>_. True" "\<lambda>_. []"
  by unfold_locales (simp_all add: stub_can_def)

text \<open>
  C17. Every service of the program answers in form: whatever a request contains, in whatever
  session and state, the reply of the service stays inside the response buffer and is either
  the positive response of the service, which may be suppressed, or a negative response with
  its identifier, which is sent.
\<close>

theorem main_replies_well_formed:
  assumes "svc \<in> set main_services" "app_inv (\<lambda>_. True) w" "m_timeout_cb session = None"
    and "req \<noteq> []" "length resp = 4096"
  shows "case handle svc req resp (session, w) of (r, session', w') \<Rightarrow>
    length (r_buf r) = 4096 \<and> r_len r \<le> 4096 \<and>
    ((\<exists>bs. reply_bytes r = (service_id svc + 0x40) # bs) \<or>
     (\<exists>nrc. r_send r \<and> reply_bytes r = [0x7F, service_id svc, nrc_byte nrc])) \<and>
    app_inv (\<lambda>_. True) w'"
proof -
  obtain r session' w' where h: "handle svc req resp (session, w) = (r, session', w')"
    by (metis prod_cases3)
  have ok: "service_ok (app_inv (\<lambda>_. True)) svc" using main_services_ok assms(1) by blast
  have I: "timeout_ok (app_inv (\<lambda>_. True)) session \<and> app_inv (\<lambda>_. True) w"
    using assms(2,3) by (simp add: timeout_ok_def)
  obtain sid where sid: "service_id svc = sid_byte sid" and
    u: "uds_service sid (\<lambda>(session, w). timeout_ok (app_inv (\<lambda>_. True)) session \<and>
      app_inv (\<lambda>_. True) w) (handle svc)"
    using ok by (auto simp: service_ok_def)
  have "reply_wf 4096 sid r"
    using uds_service.reply_ok [OF u, of "(session, w)" req resp] I assms(4,5) h
    by (simp add: kMaxResp_def)
  moreover have "app_inv (\<lambda>_. True) w'"
    using service_ok_handle [OF ok I assms(4) _ h] assms(5) by (simp add: kMaxResp_def)
  ultimately show ?thesis
    by (auto simp: h reply_wf_def positive_reply_def negative_reply_def sid)
qed

theorem main_replies_well_formed_witness:
  "case handle (hd main_services) [0x3E] (replicate 4096 0) (session_new kDefaultTiming, main_app ()) of
    (r, session', w') \<Rightarrow> length (r_buf r) = 4096 \<and> r_len r \<le> 4096 \<and>
    ((\<exists>bs. reply_bytes r = (service_id (hd main_services :: unit ecu_app service) + 0x40) # bs) \<or>
     (\<exists>nrc. r_send r \<and>
        reply_bytes r = [0x7F, service_id (hd main_services :: unit ecu_app service), nrc_byte nrc])) \<and>
    app_inv (\<lambda>_. True) w'"
  by (rule main_replies_well_formed)
    (simp_all add: app_inv_main session_new_def, simp add: main_services_def)

section \<open>Sessions of the program\<close>

lemma receive_loop_stub: "receive_loop (app_can_if stub_can) srv w = Some (srv, w)"
  by (subst receive_loop.simps) (simp add: stub_can_def)

lemma silent_iteration:
  assumes "us_tick_fn srv = None" "\<not> m_data_ready (us_transport srv)"
  shows "\<exists>srv' w'. main_iteration stub_can stub_tick (srv, w) = Some (srv', w') \<and>
    us_tick_fn srv' = None \<and> \<not> m_data_ready (us_transport srv') \<and>
    m_session (us_session srv') = m_session (us_session srv) \<and> app_can w' = app_can w + 1"
  using assms
  by (simp add: main_iteration_def receive_loop_stub no_tick_no_timeout isotp_update_def Let_def
      stub_tick_def)

text \<open>
  C30. In the program of \<open>main\<close> a session never times out. No tick provider is set, so the
  server compares the S3 deadline with tick 0: however many milliseconds pass without a
  request, a session other than the default one is still active afterwards.
\<close>

theorem main_sessions_never_expire:
  assumes "us_tick_fn srv = None" "\<not> m_data_ready (us_transport srv)"
  shows "\<exists>srv' w'. main_loop stub_can (replicate n stub_tick) (srv, w) = Some (srv', w') \<and>
    app_can w' = app_can w + of_nat n \<and> m_session (us_session srv') = m_session (us_session srv)"
  using assms
proof (induction n arbitrary: srv w)
  case (Suc n)
  from silent_iteration [OF Suc.prems, of w] obtain srv1 w1 where
    1: "main_iteration stub_can stub_tick (srv, w) = Some (srv1, w1)"
      "us_tick_fn srv1 = None" "\<not> m_data_ready (us_transport srv1)"
      "m_session (us_session srv1) = m_session (us_session srv)" "app_can w1 = app_can w + 1"
    by blast
  from Suc.IH [OF 1(2,3), of w1] 1 show ?case by (auto simp: algebra_simps)
qed simp

theorem main_sessions_never_expire_witness:
  "\<exists>srv' w'. main_loop stub_can (replicate 1000000 stub_tick)
      ((main_server [] [] [])\<lparr>us_session := (session_new kDefaultTiming)\<lparr>m_session := Extended\<rparr>\<rparr>,
       main_app 0) = Some (srv', w') \<and>
    app_can w' = 1000000 \<and> m_session (us_session srv') = Extended"
  using main_sessions_never_expire [of
      "(main_server [] [] [])\<lparr>us_session := (session_new kDefaultTiming)\<lparr>m_session := Extended\<rparr>\<rparr>"
      1000000 "main_app 0"]
  by (simp add: isotp_new_def main_app_def)

section \<open>The software version\<close>

interpretation sw_version: did_cell did_sw did_sw_wr
  by unfold_locales (auto simp: did_sw_def did_sw_wr_def put_simps split: if_splits)

lemma app_lossless:
  assumes "lossless_driver can sent"
  shows "lossless_driver (app_can_if can) (\<lambda>w. sent (app_can w))"
proof -
  have laws: "fst (can_send can f w) \<and> sent (snd (can_send can f w)) = sent w @ [f]" for f w
    using lossless_driver.send_lossless [OF assms, of f w] by auto
  show ?thesis by unfold_locales (auto simp: laws)
qed

text \<open>A request whose answer fits a single frame; only the driver sees the answer.\<close>

lemma handle_request_short:
  assumes "lossless_driver can sent"
    and "find_service (hd data) srv = Some svc" "data \<noteq> []"
    and "handle svc data (us_resp_buf srv) (us_session srv, w) = (r, session, w1)"
    and "r_send r" "0 < r_len r" "r_len r \<le> 7" "r_len r \<le> length (r_buf r)"
  shows "\<exists>d. handle_request (app_can_if can) data srv w =
      Some (srv\<lparr>us_resp_buf := r_buf r, us_session := session\<rparr>, w1\<lparr>app_can := d\<rparr>) \<and>
    sent d = sent (app_can w1) @ [sf_frame (cfg_tx_id (m_cfg (us_transport srv))) (reply_bytes r)]"
proof -
  let ?srv = "srv\<lparr>us_resp_buf := r_buf r, us_session := session\<rparr>"
  let ?st = "server_store (r_buf r) []"
  have st: "?st resp_addr = r_buf r" by (simp add: server_store_def)
  obtain v where v: "isotp_send (app_can_if can) ?st (Some resp_addr) (r_len r) (us_transport srv) w1 =
      Some (Ok, us_transport srv, v)"
    "sent (app_can v) = sent (app_can w1) @
      segment (cfg_tx_id (m_cfg (us_transport srv))) (take (r_len r) (r_buf r))"
    using lossless_driver.send_short [OF app_lossless [OF assms(1)] assms(6,7), of ?st resp_addr
        "us_transport srv" w1] assms(8) st by auto
  have "ecu_environment (app_can_if can) (\<lambda>v. \<exists>d. v = w1\<lparr>app_can := d\<rparr>)"
    by unfold_locales auto
  from ecu_environment.isotp_send_keeps [OF this v(1)] obtain d where d: "v = w1\<lparr>app_can := d\<rparr>"
    by (metis ecu_app.surjective ecu_app.update_convs(1))
  have data: "data ! 0 = hd data" using assms(3) by (simp add: hd_conv_nth)
  have "handle_request (app_can_if can) data srv w = Some (?srv, v)"
    unfolding handle_request_def Let_def data
    using assms(2-6) v(1) by (simp add: send_response_def)
  with v(2) d assms(7) show ?thesis by (auto simp: segment_def reply_bytes_def)
qed

lemma main_services_find [simp]:
  assumes "us_services srv = main_services"
  shows "find_service 0x2E srv = Some (app_service WriteDataByIdentifier (\<lambda>w. (app_wdbi w, kSwVer w))
        (\<lambda>(t, sw) w. w\<lparr>app_wdbi := t, kSwVer := sw\<rparr>)
        (\<lambda>_ req resp (t, sw). case wdbi_handle t req resp sw of (r, sw) \<Rightarrow> (r, (t, sw))))"
    "find_service 0x22 srv = Some (app_service ReadDataByIdentifier (\<lambda>w. (app_rdbi w, kSwVer w))
        (\<lambda>(t, sw) w. w\<lparr>app_rdbi := t, kSwVer := sw\<rparr>)
        (\<lambda>_ req resp (t, sw). case rdbi_handle t req resp sw of (r, sw) \<Rightarrow> (r, (t, sw))))"
  by (simp_all add: find_service_def assms main_services_def app_service_def
      tester_present_service_def)

lemma main_tables:
  "app_wdbi (main_app drv) = [sw_entry]" "app_rdbi (main_app drv) = [vin_entry, sw_entry]"
  by (simp_all add: main_app_def register_did_def kMaxDataIdentifiers_def)

lemma sw_write:
  "length bs = 4 \<Longrightarrow> wdbi_handle [sw_entry] (0x2E # 0xF1 # 0x89 # bs) resp sw =
    (pos_reply True WriteDataByIdentifier [0xF1, 0x89] resp, put 0 bs sw)"
  by (simp add: wdbi_handle_def be16_def find_did_def sw_entry_def did_sw_wr_def hi8_def lo8_def)

lemma did_read_reply:
  assumes "serves t sw d bs" "3 + length bs \<le> length resp"
  shows "rdbi_handle t [0x22, hi8 d, lo8 d] resp sw =
    (\<lparr>r_send = True, r_buf = put 0 (0x62 # hi8 d # lo8 d # bs) resp, r_len = 3 + length bs\<rparr>, sw)"
proof -
  have "rdbi_loop t (did_bytes (map fst [(d, bs)]) @ []) (put 0 [0x62] resp) 1 sw =
      rdbi_loop t [] (put 1 (did_record [(d, bs)]) (put 0 [0x62] resp))
        (1 + length (did_record [(d, bs)])) sw"
    by (rule rdbi_loop_serves) (use assms in \<open>simp_all add: length_put\<close>)
  also have "\<dots> = (\<lparr>r_send = True, r_buf = put 0 (0x62 # hi8 d # lo8 d # bs) resp,
      r_len = 3 + length bs\<rparr>, sw)"
    using assms(2) by (simp add: put_put_at)
  finally show ?thesis
    using rdbi_handle_start [of "[d]" t resp sw] by (simp only: append_Nil2 list.map fst_conv) simp
qed

text \<open>
  Anyone on the bus can change the software version of the example: in every session and
  without any security level unlocked, four bytes written to F189 are accepted, and reading
  F189 afterwards returns them; both answers go out in a single frame.
\<close>

theorem sw_version_rewritable:
  assumes "lossless_driver can sent"
    and "us_services srv = main_services" "6 < length (us_resp_buf srv)"
    and "app_wdbi w = app_wdbi (main_app ())" "app_rdbi w = app_rdbi (main_app ())"
    and "length (kSwVer w) = 4" "length bs = 4"
  shows "\<exists>srv1 w1 srv2 w2.
    handle_request (app_can_if can) (0x2E # 0xF1 # 0x89 # bs) srv w = Some (srv1, w1) \<and>
    handle_request (app_can_if can) [0x22, 0xF1, 0x89] srv1 w1 = Some (srv2, w2) \<and>
    kSwVer w2 = bs \<and>
    sent (app_can w2) = sent (app_can w) @
      map (sf_frame (cfg_tx_id (m_cfg (us_transport srv))))
        [[0x6E, 0xF1, 0x89], 0x62 # 0xF1 # 0x89 # bs]"
proof -
  let ?resp = "us_resp_buf srv" and ?id = "cfg_tx_id (m_cfg (us_transport srv))"
  let ?r1 = "pos_reply True WriteDataByIdentifier [0xF1, 0x89] ?resp"
  have t: "app_wdbi w = [sw_entry]" "app_rdbi w = [vin_entry, sw_entry]"
    using assms(4,5) by (simp_all add: main_tables)
  have ver: "put 0 bs (kSwVer w) = bs" using assms(6,7) by (simp add: put_def)
  have len: "length (r_buf ?r1) = length ?resp" using assms(3) by (simp add: pos_reply_def length_put)
  obtain svc where svc: "find_service 0x2E srv = Some svc"
    "handle svc (0x2E # 0xF1 # 0x89 # bs) ?resp (us_session srv, w) =
      (?r1, us_session srv, w\<lparr>app_wdbi := [sw_entry], kSwVer := bs\<rparr>)"
    using sw_write [OF assms(7), of ?resp "kSwVer w"]
    by (simp add: assms(2) app_service_def t ver)
  let ?srv = "srv\<lparr>us_resp_buf := r_buf ?r1, us_session := us_session srv\<rparr>"
  let ?w = "w\<lparr>app_wdbi := [sw_entry], kSwVer := bs\<rparr>"
  from handle_request_short [OF assms(1) _ _ svc(2)] svc(1) assms(3) len
  obtain d where 1: "handle_request (app_can_if can) (0x2E # 0xF1 # 0x89 # bs) srv w =
      Some (?srv, ?w\<lparr>app_can := d\<rparr>)"
    "sent d = sent (app_can w) @ [sf_frame ?id [0x6E, 0xF1, 0x89]]"
    by (auto simp: pos_reply_def reply_bytes_def put_simps)
  have "did_sw_wr bs (kSwVer w) = (True, bs)" using assms(7) ver by (simp add: did_sw_wr_def)
  then have "serves [vin_entry, sw_entry] bs 0xF189 bs"
    by (intro sw_version.write_serves [of _ _ sw_entry]) (simp_all add: find_did_def vin_entry_def sw_entry_def)
  from did_read_reply [OF this, of "r_buf ?r1"] assms(3,7) len
  have read: "rdbi_handle [vin_entry, sw_entry] [0x22, 0xF1, 0x89] (r_buf ?r1) bs =
      (\<lparr>r_send = True, r_buf = put 0 (0x62 # 0xF1 # 0x89 # bs) (r_buf ?r1), r_len = 7\<rparr>, bs)"
    by (simp add: hi8_def lo8_def)
  let ?r2 = "\<lparr>r_send = True, r_buf = put 0 (0x62 # 0xF1 # 0x89 # bs) (r_buf ?r1), r_len = 7\<rparr>"
  obtain svc' where svc': "find_service 0x22 ?srv = Some svc'"
    "handle svc' [0x22, 0xF1, 0x89] (us_resp_buf ?srv) (us_session ?srv, ?w\<lparr>app_can := d\<rparr>) =
      (?r2, us_session ?srv, ?w\<lparr>app_can := d\<rparr>)"
    using read by (simp add: assms(2) app_service_def t)
  from handle_request_short [OF assms(1) _ _ svc'(2)] svc'(1) assms(3,7) len
  obtain d' where "handle_request (app_can_if can) [0x22, 0xF1, 0x89] ?srv (?w\<lparr>app_can := d\<rparr>) =
      Some (?srv\<lparr>us_resp_buf := r_buf ?r2, us_session := us_session ?srv\<rparr>,
        ?w\<lparr>app_can := d\<rparr>\<lparr>app_can := d'\<rparr>)"
    "sent d' = sent d @ [sf_frame ?id (reply_bytes ?r2)]"
    by (auto simp: length_put)
  moreover have "reply_bytes ?r2 = 0x62 # 0xF1 # 0x89 # bs"
    using assms(7) by (simp add: reply_bytes_def put_simps)
  ultimately show ?thesis using 1 by auto
qed

theorem sw_version_rewritable_witness:
  "\<exists>srv1 w1 srv2 w2.
    handle_request (app_can_if (logged stub_can)) [0x2E, 0xF1, 0x89, 9, 8, 7, 6]
      (main_server (replicate 4096 0) (replicate 4096 0) (replicate 4096 0)) (main_app (0, [])) =
      Some (srv1, w1) \<and>
    handle_request (app_can_if (logged stub_can)) [0x22, 0xF1, 0x89] srv1 w1 = Some (srv2, w2) \<and>
    kSwVer w2 = [9, 8, 7, 6] \<and>
    snd (app_can w2) = map (sf_frame 0x7E8) [[0x6E, 0xF1, 0x89], [0x62, 0xF1, 0x89, 9, 8, 7, 6]]"
  using sw_version_rewritable [OF logged_stub, of
      "main_server (replicate 4096 0) (replicate 4096 0) (replicate 4096 0)" "main_app (0, [])"
      "[9, 8, 7, 6]"]
  by (simp add: main_tables) (simp add: main_app_def)

section \<open>The vehicle identification number\<close>

lemma vin_serves: "serves [vin_entry, sw_entry] sw 0xF190 kVin"
  by (auto simp: serves_def find_did_def vin_entry_def did_vin_def kVin_def)

text \<open>
  A tester reads the vehicle identification number from the bus: in any session, the
  single frame with the request to identifier F190, one pass of the server and the tester's
  Continue-To-Send put exactly the 20 bytes of the answer, the 17 characters of the number
  last, on the bus as a first frame and two consecutive frames.
\<close>

theorem main_reports_vin:
  assumes "lossless_driver can sent"
    and "\<And>f v. can_tick can (snd (can_send can f v)) = can_tick can v"
    and "unat (can_tick can (app_can w)) + 1000 < 2 ^ 32"
    and "length g = 4096" "length g' = 4096" "length g'' = 4096"
    and "m_timeout_cb session = None" "app_rdbi w = app_rdbi (main_app ())"
  shows "\<exists>srv1 w1 srv2 w2 srv3 w3.
    server_feed (app_can_if can) [sf_frame 0x7E0 [0x22, 0xF1, 0x90]]
      ((main_server g g' g'')\<lparr>us_session := session\<rparr>) w = Some (srv1, w1) \<and>
    server_process (app_can_if can) srv1 w1 = Some (srv2, w2) \<and>
    server_feed (app_can_if can) [fc_frame 0x7E0 kFC_CTS 0 stm] srv2 w2 = Some (srv3, w3) \<and>
    sent (app_can w3) = sent (app_can w) @ segment 0x7E8 (0x62 # 0xF1 # 0x90 # kVin)"
proof -
  let ?can = "app_can_if can" and ?data = "[0x22, 0xF1, 0x90]"
  let ?srv = "(main_server g g' g'')\<lparr>us_session := session\<rparr>"
  let ?cfg = "ecu_cfg"
  have rx: "rx_inv (isotp_new g ecu_cfg)" by (rule rx_inv_new) (simp add: assms(4) MAX_PAYLOAD_def)
  from process_sf_frame [of "isotp_new g ecu_cfg" ?data "0x7E0" ?can "server_store g'' []" w]
  obtain tp where tp: "process_frame ?can (server_store g'' []) (sf_frame 0x7E0 ?data)
      (isotp_new g ecu_cfg) w = Some (Ok, tp, w)" "rx_complete ?data tp" "m_cfg tp = ecu_cfg"
    using rx by auto
  define srv1 where "srv1 = ?srv\<lparr>us_transport := tp\<rparr>"
  have feed: "server_feed ?can [sf_frame 0x7E0 ?data] ?srv w = Some (srv1, w)"
    using tp(1) by (simp add: server_feed_def srv1_def)
  let ?sess = "session_keep_alive (get_tick srv1 w) (us_session srv1)"
  let ?r = "\<lparr>r_send = True, r_buf = put 0 (0x62 # 0xF1 # 0x90 # kVin) g'', r_len = 20\<rparr>"
  have kv: "length kVin = 17" by (simp add: kVin_def)
  have "rdbi_handle [vin_entry, sw_entry] ?data g'' (kSwVer w) = (?r, kSwVer w)"
    using did_read_reply [OF vin_serves, of g''] assms(6) kv by (simp add: hi8_def lo8_def)
  then obtain svc where svc: "find_service (hd ?data) srv1 = Some svc"
    "handle svc ?data (us_resp_buf srv1) (?sess, w) = (?r, ?sess, w)"
    using assms(8) by (simp add: srv1_def app_service_def main_tables)
  have "\<exists>srv2 w2 srv3 w3. server_process ?can srv1 w = Some (srv2, w2) \<and>
    server_feed ?can (if r_len ?r \<le> 7 then []
      else [fc_frame (cfg_rx_id (m_cfg (us_transport srv1))) kFC_CTS 0 stm]) srv2 w2 = Some (srv3, w3) \<and>
    sent (app_can w3) = sent (app_can w) @
      segment (cfg_tx_id (m_cfg (us_transport srv1))) (reply_bytes ?r)"
    by (rule answer_request [OF app_lossless [OF assms(1)] _ _ _ svc])
      (use tp assms kv in \<open>simp_all add: srv1_def length_put keep_alive_callback
        kDefaultIsoTpConfig_def\<close>)
  moreover have "reply_bytes ?r = 0x62 # 0xF1 # 0x90 # kVin"
    by (simp add: reply_bytes_def put_simps kv)
  ultimately show ?thesis using feed tp(3) by (auto simp: srv1_def)
qed

theorem main_reports_vin_witness:
  "\<exists>srv1 w1 srv2 w2 srv3 w3.
    server_feed (app_can_if (logged stub_can)) [sf_frame 0x7E0 [0x22, 0xF1, 0x90]]
      ((main_server (replicate 4096 0) (replicate 4096 0) (replicate 4096 0))
         \<lparr>us_session := session_new kDefaultTiming\<rparr>) (main_app (0, [])) = Some (srv1, w1) \<and>
    server_process (app_can_if (logged stub_can)) srv1 w1 = Some (srv2, w2) \<and>
    server_feed (app_can_if (logged stub_can)) [fc_frame 0x7E0 kFC_CTS 0 0] srv2 w2 =
      Some (srv3, w3) \<and>
    snd (app_can w3) = snd (app_can (main_app (0 :: u32, []))) @
      segment 0x7E8 (0x62 # 0xF1 # 0x90 # kVin)"
  by (rule main_reports_vin [OF logged_stub])
    (simp_all add: main_tables, simp add: main_app_def, simp add: session_new_def)

end
