(* ===== verification/Ring_Drivers.thy ===== *)
theory Ring_Drivers
  imports Example_Props
begin

text \<open>
  Drivers whose receive side is a ring buffer: the locale \<open>ring_driver\<close>, which makes a
  \<open>draining_driver\<close> of each of them, interpreted on the drivers of the F4, the F1 and the H7
  with their interrupt handlers, and the program of \<open>main\<close> on the three.
\<close>

section \<open>Drivers with a ring\<close>

definition ring_ok :: "nat \<Rightarrow> can_frame rx_ring \<Rightarrow> bool" where
  "ring_ok n r \<longleftrightarrow> ring_inv n r \<and> (\<forall>f \<in> set (ring_content n r). classic_frame f)"

lemma ring_ok_new: "length q = n \<Longrightarrow> 0 < n \<Longrightarrow> ring_ok n (ring_new q)"
  using ring_inv_new [of q n] by (simp add: ring_ok_def ring_content_new)

lemma ring_ok_store: "ring_ok n r \<Longrightarrow> classic_frame f \<Longrightarrow> ring_ok n (ring_store n f r)"
  using ring_inv_store [of n r] ring_content_store [of n r f] by (auto simp: ring_ok_def)

lemma ring_ok_receive:
  assumes "ring_ok n r"
  shows "ring_ok n (snd (ring_receive n r))"
    "ring_content n r = [] \<Longrightarrow> fst (ring_receive n r) = None \<and> ring_content n (snd (ring_receive n r)) = []"
    "ring_content n r = f # fs \<Longrightarrow>
      fst (ring_receive n r) = Some f \<and> ring_content n (snd (ring_receive n r)) = fs"
  using assms ring_receive_content [of n r] ring_inv_receive [of n r]
  by (auto simp: ring_ok_def split: prod.splits option.splits)

locale ring_driver =
  fixes can :: "'s can_if" and n :: nat and ring :: "'s \<Rightarrow> can_frame rx_ring"
  assumes receive_frame: "fst (can_receive can w) = fst (ring_receive n (ring w))"
    and receive_ring: "ring (snd (can_receive can w)) = snd (ring_receive n (ring w))"
    and send_ring: "ring (snd (can_send can f w)) = ring w"

sublocale ring_driver \<subseteq> draining_driver can "\<lambda>w. ring_ok n (ring w)" "\<lambda>w. ring_content n (ring w)"
  by unfold_locales
    (auto simp: receive_frame receive_ring send_ring ring_ok_receive, auto simp: ring_ok_def)

text \<open>
  What every pass of the program of \<open>main\<close> leaves: the arrays of the transport layer, of the
  server and of the program have the sizes they are declared with, the counters of the transport
  layer lie inside its arrays, and the tables are well formed.
\<close>

definition main_ok :: "'d ecu_app uds_server \<times> 'd ecu_app \<Rightarrow> bool" where
  "main_ok = (\<lambda>(srv, w).
     length (isotp.m_rx_buf (us_transport srv)) = 4096 \<and>
     length (us_req_buf srv) = 4096 \<and> length (us_resp_buf srv) = 4096 \<and> length (kSwVer w) = 4 \<and>
     rx_inv (us_transport srv) \<and> tx_inv (server_store (us_resp_buf srv) []) (us_transport srv) \<and>
     security_inv (app_sec w) \<and> dtc_inv (app_dtc w))"

context ring_driver
begin

lemma main_on_ring:
  assumes "ring_ok n (ring drv)" "\<forall>tick \<in> set ticks. \<forall>d. ring_ok n (ring d) \<longrightarrow> ring_ok n (ring (tick d))"
    and "length g = 4096" "length g' = 4096" "length g'' = 4096"
  shows "\<exists>srv w. main_loop can ticks (main_server g g' g'', main_app drv) = Some (srv, w) \<and>
    main_ok (srv, w) \<and> ring_inv n (ring (app_can w))"
proof -
  obtain srv w where "main_loop can ticks (main_server g g' g'', main_app drv) = Some (srv, w)"
    and "app_inv (\<lambda>w. ring_ok n (ring w)) w" "server_inv (app_inv (\<lambda>w. ring_ok n (ring w))) srv"
    using main_loop_safe [OF assms(2), of "main_server g g' g''" "main_app drv"]
      main_server_inv [OF assms(3-5)] app_inv_main [of "\<lambda>w. ring_ok n (ring w)", OF assms(1)] by auto
  then show ?thesis
    by (auto simp: app_inv_def ring_ok_def main_ok_def server_inv_def kMaxResp_def rx_inv_def MAX_PAYLOAD_def)
qed

end

section \<open>The three drivers\<close>

interpretation f4_main: ring_driver "f4_can hal" kRxBufSize_f4 "\<lambda>w. m_rx_buf (fst w)" for hal :: "'h bx_hal"
  by unfold_locales (simp_all add: f4_can_def bx_receive_def split_def)

interpretation f1_main: ring_driver "f1_can hal" kRxBufSize_f1 "\<lambda>w. m_rx_buf (fst w)" for hal :: "'h bx_hal"
  by unfold_locales (simp_all add: f1_can_def bx_receive_def split_def)

interpretation h7_main: ring_driver "h7_can hal" kRxBufSize_h7 "\<lambda>w. h7_rx_buf (fst w)" for hal :: "'h fd_hal"
  by unfold_locales (simp_all add: h7_can_def h7_receive_def split_def)

text \<open>
  Interrupts between two passes: each runs the handler of the driver once. The HAL delivers
  frames of a classic bus; on an FD bus that is a condition on the length code.
\<close>

definition hal_classic :: "'h bx_hal \<Rightarrow> bool" where
  "hal_classic hal \<longleftrightarrow> (\<forall>fifo h hdr data h'.
     HAL_CAN_GetRxMessage hal fifo h = (Some (hdr, data), h') \<longrightarrow>
       length data = 8 \<and> DLC hdr \<le> 8)"

definition fd_hal_classic :: "'h fd_hal \<Rightarrow> bool" where
  "fd_hal_classic hal \<longleftrightarrow> (\<forall>fifo h hdr data h'.
     HAL_FDCAN_GetRxMessage hal fifo h = (Some (hdr, data), h') \<longrightarrow>
       length data = 8 \<and> drop_bit 16 (DataLength hdr) AND 0xF \<le> 8)"

definition bx_irqs :: "nat \<Rightarrow> 'h bx_hal \<Rightarrow> nat \<Rightarrow> stm32_can \<times> 'h \<Rightarrow> stm32_can \<times> 'h" where
  "bx_irqs kRxBufSize hal k = ((\<lambda>(d, h). bx_on_rx_irq kRxBufSize hal d h) ^^ k)"

definition h7_irqs :: "'h fd_hal \<Rightarrow> nat \<Rightarrow> stm32h7_can \<times> 'h \<Rightarrow> stm32h7_can \<times> 'h" where
  "h7_irqs hal k = ((\<lambda>(d, h). h7_on_rx_irq hal d h) ^^ k)"

lemma dlc_byte: "x \<le> (8 :: u32) \<Longrightarrow> (ucast x :: u8) \<le> 8"
  by (simp add: word_le_nat_alt unsigned_ucast_eq take_bit_nat_eq_self)

lemma bx_irq_ok:
  assumes "hal_classic hal" "ring_ok n (m_rx_buf (fst d))"
  shows "ring_ok n (m_rx_buf (fst (case d of (d, h) \<Rightarrow> bx_on_rx_irq n hal d h)))"
proof -
  have "classic_frame (bx_frame hal hdr data)"
    if "HAL_CAN_GetRxMessage hal fifo h = (Some (hdr, data), h')" for fifo h hdr data h'
  proof -
    have "length data = 8" "DLC hdr \<le> 8" using assms(1) that unfolding hal_classic_def by blast+
    then show ?thesis by (simp add: classic_frame_def bx_frame_def dlc_byte)
  qed
  with assms(2) show ?thesis
    by (auto simp: bx_on_rx_irq_def intro: ring_ok_store split: prod.splits option.splits)
qed

lemma h7_irq_ok:
  assumes "fd_hal_classic hal" "ring_ok kRxBufSize_h7 (h7_rx_buf (fst d))"
  shows "ring_ok kRxBufSize_h7 (h7_rx_buf (fst (case d of (d, h) \<Rightarrow> h7_on_rx_irq hal d h)))"
proof -
  have "classic_frame (fd_rx_frame hal hdr data)"
    if "HAL_FDCAN_GetRxMessage hal fifo h = (Some (hdr, data), h')" for fifo h hdr data h'
  proof -
    have "length data = 8" "drop_bit 16 (DataLength hdr) AND 0xF \<le> 8"
      using assms(1) that unfolding fd_hal_classic_def by blast+
    then show ?thesis by (simp add: classic_frame_def fd_rx_frame_def dlc_byte)
  qed
  with assms(2) show ?thesis
    by (auto simp: h7_on_rx_irq_def Let_def intro: ring_ok_store split: prod.splits option.splits)
qed

lemma bx_irqs_ok: "hal_classic hal \<Longrightarrow> ring_ok n (m_rx_buf (fst d)) \<Longrightarrow> ring_ok n (m_rx_buf (fst (bx_irqs n hal k d)))"
  unfolding bx_irqs_def by (induction k) (simp_all add: bx_irq_ok)

lemma h7_irqs_ok: "fd_hal_classic hal \<Longrightarrow> ring_ok kRxBufSize_h7 (h7_rx_buf (fst d)) \<Longrightarrow>
    ring_ok kRxBufSize_h7 (h7_rx_buf (fst (h7_irqs hal k d)))"
  unfolding h7_irqs_def by (induction k) (simp_all add: h7_irq_ok)

section \<open>The program runs\<close>

text \<open>
  C3. The program of \<open>main\<close> never faults and never hangs, on the driver of the F4, of the F1 and
  of the H7: from its start, for any number of passes with any number of receive interrupts
  between them, whatever classic frames the HAL delivers and whatever it does with the frames it
  is given, every pass ends and no access of the transport layer is outside its array. Every array
  that is written keeps its size, where a write past the end would have made the list longer: the
  reception buffer of the transport layer, the request and the response buffer of the server, the
  four bytes of \<open>kSwVer\<close>, the seeds of the security levels, the snapshots of the trouble codes and
  the ring of the driver. The indices into them stay inside, and the tables of the security levels
  and of the trouble codes stay well formed.
\<close>

theorem main_never_faults:
  assumes "length ring4 = 16" "length ring1 = 8" "length ring7 = 16"
    and "length g = 4096" "length g' = 4096" "length g'' = 4096"
    and "hal_classic hal" "fd_hal_classic fd"
  shows "(\<exists>srv w. main_loop (f4_can hal) (map (bx_irqs 16 hal) irqs)
      (main_server g g' g'', main_app (stm32_can_new ring4 True fifo, h)) = Some (srv, w) \<and>
      main_ok (srv, w) \<and> ring_inv 16 (m_rx_buf (fst (app_can w)))) \<and>
    (\<exists>srv w. main_loop (f1_can hal) (map (bx_irqs 8 hal) irqs)
      (main_server g g' g'', main_app (stm32_can_new ring1 True fifo, h)) = Some (srv, w) \<and>
      main_ok (srv, w) \<and> ring_inv 8 (m_rx_buf (fst (app_can w)))) \<and>
    (\<exists>srv w. main_loop (h7_can fd) (map (h7_irqs fd) irqs)
      (main_server g g' g'', main_app (stm32h7_can_new ring7 True fifo, h7)) = Some (srv, w) \<and>
      main_ok (srv, w) \<and> ring_inv 16 (h7_rx_buf (fst (app_can w))))"
proof (intro conjI)
  note rings = kRxBufSize_f4_def kRxBufSize_f1_def kRxBufSize_h7_def
  note new = ring_ok_new [OF assms(1)] ring_ok_new [OF assms(2)] ring_ok_new [OF assms(3)]
  show "\<exists>srv w. main_loop (f4_can hal) (map (bx_irqs 16 hal) irqs)
      (main_server g g' g'', main_app (stm32_can_new ring4 True fifo, h)) = Some (srv, w) \<and>
      main_ok (srv, w) \<and> ring_inv 16 (m_rx_buf (fst (app_can w)))"
    by (rule f4_main.main_on_ring [unfolded rings])
      (use assms(4-7) new bx_irqs_ok [where n = 16] in \<open>auto simp: stm32_can_new_def\<close>)
  show "\<exists>srv w. main_loop (f1_can hal) (map (bx_irqs 8 hal) irqs)
      (main_server g g' g'', main_app (stm32_can_new ring1 True fifo, h)) = Some (srv, w) \<and>
      main_ok (srv, w) \<and> ring_inv 8 (m_rx_buf (fst (app_can w)))"
    by (rule f1_main.main_on_ring [unfolded rings])
      (use assms(4-7) new bx_irqs_ok [where n = 8] in \<open>auto simp: stm32_can_new_def\<close>)
  show "\<exists>srv w. main_loop (h7_can fd) (map (h7_irqs fd) irqs)
      (main_server g g' g'', main_app (stm32h7_can_new ring7 True fifo, h7)) = Some (srv, w) \<and>
      main_ok (srv, w) \<and> ring_inv 16 (h7_rx_buf (fst (app_can w)))"
    by (rule h7_main.main_on_ring [unfolded rings])
      (use assms(4-8) new h7_irqs_ok [unfolded rings] in \<open>auto simp: stm32h7_can_new_def\<close>)
qed

text \<open>HALs that receive TesterPresent requests forever.\<close>

definition demo_hal :: "unit bx_hal" where
  "demo_hal = \<lparr>CAN_ID_EXT = 4, CAN_ID_STD = 0, CAN_FILTER_FIFO0 = 0, CAN_FILTER_FIFO1 = 1,
     HAL_CAN_AddTxMessage = (\<lambda>hdr data h. (True, h)),
     HAL_CAN_GetRxMessage = (\<lambda>fifo h. (Some (\<lparr>StdId = 0x7E0, ExtId = 0, IDE = 0, DLC = 3\<rparr>,
        [0x02, 0x3E, 0x00, 0, 0, 0, 0, 0]), h)),
     HAL_GetTick = (\<lambda>h. 0), HAL_CAN_ConfigFilter = (\<lambda>flt h. (True, h))\<rparr>"

definition demo_fd_hal :: "unit fd_hal" where
  "demo_fd_hal = test_fd_hal\<lparr>HAL_FDCAN_GetRxMessage := (\<lambda>fifo h. (Some (\<lparr>Identifier = 0x7E0,
     IdType = 0, DataLength = 0x30000, BitRateSwitch = 0, FDFormat = 0\<rparr>,
     [0x02, 0x3E, 0x00, 0, 0, 0, 0, 0]), h))\<rparr>"

theorem main_never_faults_witness:
  "(\<exists>srv w. main_loop (f4_can demo_hal) (map (bx_irqs 16 demo_hal) [3, 0, 20])
      (main_server (replicate 4096 0) (replicate 4096 0) (replicate 4096 0),
       main_app (stm32_can_new (replicate 16 zero_frame) True 0, ())) = Some (srv, w) \<and>
    main_ok (srv, w)) \<and>
   (\<exists>srv w. main_loop (h7_can demo_fd_hal) (map (h7_irqs demo_fd_hal) [3, 0, 20])
      (main_server (replicate 4096 0) (replicate 4096 0) (replicate 4096 0),
       main_app (stm32h7_can_new (replicate 16 zero_frame) True 0, ())) = Some (srv, w) \<and>
    main_ok (srv, w))"
proof -
  have "hal_classic demo_hal" "fd_hal_classic demo_fd_hal"
    by (auto simp: hal_classic_def fd_hal_classic_def demo_hal_def demo_fd_hal_def)
  from main_never_faults [OF _ _ _ _ _ _ this, of "replicate 16 zero_frame" "replicate 8 zero_frame"
      "replicate 16 zero_frame" "replicate 4096 0" "replicate 4096 0" "replicate 4096 0"
      "[3, 0, 20]" 0 "()" "()"]
  show ?thesis by auto
qed

end
