(* ===== verification/Test_Can.thy ===== *)
theory Test_Can
  imports Can_Ring
begin

text \<open>
  \<open>TestCan\<close>, the CAN driver of the unit tests (\<open>tests/test_isotp.cpp\<close>): the frames sent, up to
  the 32 its array holds, a queue of 32 received frames and a clock. The queue works like the
  ring of the hardware drivers, but \<open>inject\<close> does not look whether it is full.
\<close>

record test_can =
  tc_sent :: "can_frame list"
  tc_sent_count :: nat
  tc_rx :: "can_frame rx_ring"
  tc_tick :: u32

definition test_can_new :: "can_frame list \<Rightarrow> can_frame list \<Rightarrow> test_can" where
  "test_can_new sent queue =
     \<lparr>tc_sent = sent, tc_sent_count = 0, tc_rx = ring_new queue, tc_tick = 0\<rparr>"

definition test_can_send :: "can_frame \<Rightarrow> test_can \<Rightarrow> bool \<times> test_can" where
  "test_can_send f c =
     (True, if tc_sent_count c < 32
            then c\<lparr>tc_sent := (tc_sent c)[tc_sent_count c := f], tc_sent_count := tc_sent_count c + 1\<rparr>
            else c)"

definition test_can_receive :: "test_can \<Rightarrow> can_frame option \<times> test_can" where
  "test_can_receive c = (case ring_receive 32 (tc_rx c) of (f, r) \<Rightarrow> (f, c\<lparr>tc_rx := r\<rparr>))"

definition test_can_inject :: "can_frame \<Rightarrow> test_can \<Rightarrow> test_can" where
  "test_can_inject f c =
     c\<lparr>tc_rx := (tc_rx c)\<lparr>m_rx_ring := (m_rx_ring (tc_rx c))[m_rx_head (tc_rx c) := f],
         m_rx_head := (m_rx_head (tc_rx c) + 1) mod 32\<rparr>\<rparr>"

definition test_can_if :: "test_can can_if" where
  "test_can_if = \<lparr>can_send = test_can_send, can_receive = test_can_receive, can_tick = tc_tick\<rparr>"

section \<open>The queue\<close>

lemma inject_store:
  assumes "ring_inv 32 (tc_rx c)" "length (ring_content 32 (tc_rx c)) < 31"
  shows "test_can_inject f c = c\<lparr>tc_rx := ring_store 32 f (tc_rx c)\<rparr>"
  using ring_full_iff [OF assms(1)] assms(2)
  by (auto simp: test_can_inject_def ring_store_def Let_def)

lemma inject_content:
  assumes "ring_inv 32 (tc_rx c)" "length (ring_content 32 (tc_rx c)) + length fs \<le> 31"
  shows "ring_inv 32 (tc_rx (fold test_can_inject fs c)) \<and>
    ring_content 32 (tc_rx (fold test_can_inject fs c)) = ring_content 32 (tc_rx c) @ fs"
  using assms
proof (induction fs arbitrary: c)
  case (Cons f fs)
  have c: "length (ring_content 32 (tc_rx c)) < 31" using Cons.prems(2) by simp
  from Cons.IH [of "c\<lparr>tc_rx := ring_store 32 f (tc_rx c)\<rparr>"] show ?case
    using Cons.prems c ring_inv_store [OF Cons.prems(1)]
      ring_content_store [OF Cons.prems(1), of f] inject_store [OF Cons.prems(1) c]
    by (simp del: length_ring_content add: length_ring_content [symmetric])
qed simp

lemma inject_others [simp]: "tc_tick (fold test_can_inject fs c) = tc_tick c"
  by (induction fs arbitrary: c) (simp_all add: test_can_inject_def)

end
