(* ===== verification/Bus_Driver.thy ===== *)
theory Bus_Driver
  imports Ring_Drivers Test_Can
begin

text \<open>
  The receive loop of the program on a bus it shares with one tester: a driver that delivers
  the frames of the tester, takes all frames of the ECU and has a clock. What the loop does
  with the frames of one message: the message is complete afterwards, whatever its length, and
  nothing else has changed but the flow control frame on the bus.
\<close>

text \<open>
  \<open>deliver fs t\<close> is what happens to the driver between two passes: the frames of the tester
  arrive, at most \<open>cap\<close> of them, and the clock shows \<open>t\<close>.
\<close>

locale bus_driver = draining_driver can I pending + lossless_driver can sent
  for can :: "'s can_if" and I pending sent +
  fixes cap :: nat
    and deliver :: "can_frame list \<Rightarrow> u32 \<Rightarrow> 's \<Rightarrow> 's"
  assumes deliver_pending: "I w \<Longrightarrow> pending w = [] \<Longrightarrow> length fs \<le> cap \<Longrightarrow>
      \<forall>f \<in> set fs. classic_frame f \<Longrightarrow> I (deliver fs t w) \<and> pending (deliver fs t w) = fs"
    and deliver_sent: "sent (deliver fs t w) = sent w"
    and deliver_tick: "can_tick can (deliver fs t w) = t"
    and send_tick: "can_tick can (snd (can_send can f w)) = can_tick can w"
    and receive_tick: "can_tick can (snd (can_receive can w)) = can_tick can w"
    and receive_sent: "sent (snd (can_receive can w)) = sent w"

section \<open>One frame of a message\<close>

lemma process_tx_kept:
  assumes "process_frame can st f s w = Some (r, s', w')" "drop_bit 4 (cf_data f ! 0) AND 0x0F \<noteq> 3"
  shows "m_tx_state s' = m_tx_state s"
  using assms
  by (auto simp: process_frame_def handle_sf_def handle_ff_def handle_cf_def Let_def
      split: if_splits option.splits)

lemma cf_frame_tx_kept:
  assumes "process_frame can st (cf_frame i sn bytes) s w = Some (r, s', w')" "length bytes \<le> 7"
  shows "m_tx_state s' = m_tx_state s"
  using assms by (intro process_tx_kept [OF assms(1)]) (simp add: cf_frame_fields)

lemma sf_frame_tx_kept:
  assumes "process_frame can st (sf_frame i data) s w = Some (r, s', w')" "length data \<le> 7"
  shows "m_tx_state s' = m_tx_state s"
  using assms by (intro process_tx_kept [OF assms(1)]) (simp add: sf_frame_fields)

lemma ff_frame_effects:
  assumes "process_frame can st (ff_frame i data) s w = Some (Pending, s', w')" "8 \<le> length data"
  shows "m_tx_state s' = m_tx_state s \<and>
    w' = snd (can_send can (own_fc (cfg_tx_id (m_cfg s)) kFC_CTS
      (cfg_block_size (m_cfg s)) (cfg_st_min_ms (m_cfg s))) w)"
proof -
  let ?f = "ff_frame i data"
  have pci: "drop_bit 4 (cf_data ?f ! 0) AND 0x0F = 1" using assms(2) by (simp add: ff_frame_fields)
  then have "handle_ff can ?f s w = Some (Pending, s', w')"
    using assms(1) unfolding process_frame_def Let_def by (simp split: if_splits)
  then have "w' = send_fc can kFC_CTS (cfg_block_size (m_cfg s)) (cfg_st_min_ms (m_cfg s)) s' w \<and>
      m_cfg s' = m_cfg s"
    by (auto simp: handle_ff_def Let_def split: if_splits option.splits)
  moreover have "m_tx_state s' = m_tx_state s" by (rule process_tx_kept [OF assms(1)]) (simp add: pci)
  ultimately show ?thesis by (simp add: send_fc_sends)
qed

lemma fc_frame_ready:
  assumes "process_frame can st (fc_frame i fs bs stm) s w = Some (r, s', w')"
  shows "m_data_ready s' = m_data_ready s"
proof -
  have pci: "drop_bit 4 (cf_data (fc_frame i fs bs stm) ! 0) AND 0x0F = 3" by simp
  have "handle_fc can st (fc_frame i fs bs stm) s w = Some (r, s', w') \<or> s' = s"
    using assms unfolding process_frame_def Let_def pci by (auto split: if_splits)
  then show ?thesis using handle_fc_rx_fields [of can st "fc_frame i fs bs stm" s w r s' w'] by auto
qed

text \<open>The flow control frames the ECU puts on the bus while it receives.\<close>

definition fc_reply :: "IsoTpConfig \<Rightarrow> u8 list \<Rightarrow> can_frame list" where
  "fc_reply cfg data = (if length data \<le> 7 then []
     else [own_fc (cfg_tx_id cfg) kFC_CTS (cfg_block_size cfg) (cfg_st_min_ms cfg)])"

text \<open>What the loop leaves: a complete message, everything else as before.\<close>

definition received ::
    "'s can_if \<Rightarrow> ('s \<Rightarrow> bool) \<Rightarrow> ('s \<Rightarrow> can_frame list) \<Rightarrow> ('s \<Rightarrow> can_frame list) \<Rightarrow>
    u8 list \<Rightarrow> can_frame list \<Rightarrow> 's uds_server \<Rightarrow> 's \<Rightarrow> 's uds_server \<Rightarrow> 's \<Rightarrow> bool" where
  "received can I pending sent data fs srv w srv' w' \<longleftrightarrow>
     (\<exists>tp. srv' = srv\<lparr>us_transport := tp\<rparr> \<and> rx_complete data tp \<and>
       m_cfg tp = m_cfg (us_transport srv) \<and> m_tx_state tp = m_tx_state (us_transport srv)) \<and>
     I w' \<and> pending w' = [] \<and> sent w' = sent w @ fs \<and> can_tick can w' = can_tick can w"

text \<open>What the server leaves after a call of \<open>process\<close> that has \<open>bs\<close> to send.\<close>

definition replying ::
    "'s can_if \<Rightarrow> ('s \<Rightarrow> bool) \<Rightarrow> ('s \<Rightarrow> can_frame list) \<Rightarrow> ('s \<Rightarrow> can_frame list) \<Rightarrow>
    u8 list \<Rightarrow> u8 list \<Rightarrow> isotp \<Rightarrow> 's \<Rightarrow> isotp \<Rightarrow> 's \<Rightarrow> bool" where
  "replying can I pending sent bs buf tp w tp' w' \<longleftrightarrow>
     m_cfg tp' = m_cfg tp \<and> m_data_ready tp' = m_data_ready tp \<and>
     I w' \<and> pending w' = pending w \<and> can_tick can w' = can_tick can w \<and>
     (if length bs \<le> 7
      then m_tx_state tp' = TxIdle \<and>
        sent w' = sent w @ (if bs = [] then [] else segment (cfg_tx_id (m_cfg tp)) bs)
      else m_tx_state tp' = TxWaitFC \<and> tx_mem (server_store buf []) tp' \<and>
        sent w' = sent w @ [ff_frame (cfg_tx_id (m_cfg tp)) bs] \<and>
        tx_frames (server_store buf []) tp' = cf_frames (cfg_tx_id (m_cfg tp)) 1 (drop 6 bs))"

lemma isotp_update_ready [simp]: "m_data_ready (isotp_update can s w) = m_data_ready s"
  by (simp add: isotp_update_def Let_def)

lemma isotp_update_idle: "m_tx_state s = TxIdle \<Longrightarrow> m_tx_state (isotp_update can s w) = TxIdle"
  by (simp add: isotp_update_def Let_def)

context bus_driver
begin

text \<open>The loop takes the next frame from the driver.\<close>

lemma receive_step:
  assumes "I w" "pending w = f # fs"
  obtains w1 where "I w1" "pending w1 = fs" "sent w1 = sent w" "can_tick can w1 = can_tick can w"
    "\<And>srv. receive_loop can srv w =
      (case process_frame can (server_store (us_resp_buf srv) []) f (us_transport srv) w1 of
         None \<Rightarrow> None
       | Some (r, tp, w) \<Rightarrow> receive_loop can (srv\<lparr>us_transport := tp\<rparr>) w)"
proof
  let ?w = "snd (can_receive can w)"
  have r: "can_receive can w = (Some f, ?w)"
    using receive_some [OF assms] by (metis prod.collapse)
  show "I ?w" "pending ?w = fs" "sent ?w = sent w" "can_tick can ?w = can_tick can w"
    using receive_keeps [OF assms(1)] receive_some [OF assms] receive_sent receive_tick by simp_all
  show "receive_loop can srv w =
      (case process_frame can (server_store (us_resp_buf srv) []) f (us_transport srv) ?w of
         None \<Rightarrow> None
       | Some (r, tp, w) \<Rightarrow> receive_loop can (srv\<lparr>us_transport := tp\<rparr>) w)" for srv
    by (subst receive_loop.simps, subst r) (auto simp: server_feed_def split: option.split prod.split)
qed

lemma receive_done:
  assumes "I w" "pending w = []"
  obtains w1 where "I w1" "pending w1 = []" "sent w1 = sent w" "can_tick can w1 = can_tick can w"
    "\<And>srv. receive_loop can srv w = Some (srv, w1)"
proof
  let ?w = "snd (can_receive can w)"
  have r: "can_receive can w = (None, ?w)"
    using receive_none [OF assms] by (metis prod.collapse)
  show "I ?w" "pending ?w = []" "sent ?w = sent w" "can_tick can ?w = can_tick can w"
    using receive_keeps [OF assms(1)] receive_none [OF assms] receive_sent receive_tick by simp_all
  show "receive_loop can srv w = Some (srv, ?w)" for srv
    by (subst receive_loop.simps, subst r) simp
qed

lemma receive_cf_frames:
  assumes "rx_holds data k sn (us_transport srv)" "cfg_rx_id (m_cfg (us_transport srv)) = i"
    "k < length data" "I w" "pending w = cf_frames i sn (drop k data)"
  shows "\<exists>srv' w'. receive_loop can srv w = Some (srv', w') \<and> received can I pending sent data [] srv w srv' w'"
  using assms
proof (induction "length data - k" arbitrary: k sn srv w rule: less_induct)
  case less
  let ?bytes = "take 7 (drop k data)"
  have f: "cf_frames i sn (drop k data) =
      cf_frame i sn ?bytes # cf_frames i (sn + 1) (drop (k + 7) data)"
    using less.prems(3) by (simp add: cf_frames_step cf_frames_nibble add.commute)
  obtain w1 where w1: "I w1" "pending w1 = cf_frames i (sn + 1) (drop (k + 7) data)"
    "sent w1 = sent w" "can_tick can w1 = can_tick can w"
    and loop: "\<And>srv. receive_loop can srv w =
      (case process_frame can (server_store (us_resp_buf srv) []) (cf_frame i sn ?bytes)
          (us_transport srv) w1 of
         None \<Rightarrow> None
       | Some (r, tp, w) \<Rightarrow> receive_loop can (srv\<lparr>us_transport := tp\<rparr>) w)"
    using receive_step [OF less.prems(4), of "cf_frame i sn ?bytes"] less.prems(5) f by metis
  obtain r tp where p: "process_frame can (server_store (us_resp_buf srv) []) (cf_frame i sn ?bytes)
      (us_transport srv) w1 = Some (r, tp, w1)"
    and cfg: "m_cfg tp = m_cfg (us_transport srv)"
    and o: "if k + 7 < length data then r = Pending \<and> rx_holds data (k + 7) (sn + 1) tp
      else r = Ok \<and> rx_complete data tp"
    using process_cf_frame [OF less.prems(1-3), of can _ w1] by blast
  have tx: "m_tx_state tp = m_tx_state (us_transport srv)" by (rule cf_frame_tx_kept [OF p]) simp
  show ?case
  proof (cases "k + 7 < length data")
    case True
    with o have h: "rx_holds data (k + 7) (sn + 1) tp" by simp
    have "length data - (k + 7) < length data - k" using less.prems(3) by simp
    then obtain srv' w' where "receive_loop can (srv\<lparr>us_transport := tp\<rparr>) w1 = Some (srv', w')"
      "received can I pending sent data [] (srv\<lparr>us_transport := tp\<rparr>) w1 srv' w'"
      using less.hyps [of "k + 7" "sn + 1" "srv\<lparr>us_transport := tp\<rparr>" w1] True less.prems h cfg w1
      by auto
    with p loop w1 cfg tx show ?thesis by (auto simp: received_def)
  next
    case False
    then have "pending w1 = []" using w1(2) by simp
    from receive_done [OF w1(1) this] obtain w2 where "I w2" "pending w2 = []" "sent w2 = sent w1"
      "can_tick can w2 = can_tick can w1" "\<And>srv. receive_loop can srv w1 = Some (srv, w2)" by blast
    with p loop w1 cfg tx o False show ?thesis by (auto simp: received_def)
  qed
qed

lemma receive_message:
  assumes "rx_inv (us_transport srv)" "0 < length data" "length data < 4096"
    "cfg_rx_id (m_cfg (us_transport srv)) = i" "I w" "pending w = segment i data"
  shows "\<exists>srv' w'. receive_loop can srv w = Some (srv', w') \<and>
    received can I pending sent data (fc_reply (m_cfg (us_transport srv)) data) srv w srv' w'"
proof -
  let ?st = "server_store (us_resp_buf srv) []" and ?tp = "us_transport srv"
  show ?thesis
  proof (cases "length data \<le> 7")
    case True
    obtain w1 where w1: "I w1" "pending w1 = []" "sent w1 = sent w" "can_tick can w1 = can_tick can w"
      and loop: "\<And>srv. receive_loop can srv w =
        (case process_frame can (server_store (us_resp_buf srv) []) (sf_frame i data) (us_transport srv) w1 of
           None \<Rightarrow> None
         | Some (r, tp, w) \<Rightarrow> receive_loop can (srv\<lparr>us_transport := tp\<rparr>) w)"
      using receive_step [OF assms(5), of "sf_frame i data" "[]"] assms(6) True by (auto simp: segment_def)
    obtain tp where p: "process_frame can ?st (sf_frame i data) ?tp w1 = Some (Ok, tp, w1)"
      "rx_complete data tp" "m_cfg tp = m_cfg ?tp"
      using process_sf_frame [OF assms(1,2) True assms(4), of can ?st w1] by blast
    have tx: "m_tx_state tp = m_tx_state ?tp" by (rule sf_frame_tx_kept [OF p(1) True])
    from receive_done [OF w1(1,2)] obtain w2 where "I w2" "pending w2 = []" "sent w2 = sent w1"
      "can_tick can w2 = can_tick can w1" "\<And>srv. receive_loop can srv w1 = Some (srv, w2)" by blast
    with p loop w1 tx True show ?thesis by (auto simp: received_def fc_reply_def)
  next
    case False
    then have l: "8 \<le> length data" "6 < length data" by simp_all
    obtain w1 where w1: "I w1" "pending w1 = cf_frames i 1 (drop 6 data)" "sent w1 = sent w"
      "can_tick can w1 = can_tick can w"
      and loop: "\<And>srv. receive_loop can srv w =
        (case process_frame can (server_store (us_resp_buf srv) []) (ff_frame i data) (us_transport srv) w1 of
           None \<Rightarrow> None
         | Some (r, tp, w) \<Rightarrow> receive_loop can (srv\<lparr>us_transport := tp\<rparr>) w)"
      using receive_step [OF assms(5), of "ff_frame i data" "cf_frames i 1 (drop 6 data)"] assms(6) False
      by (auto simp: segment_def)
    obtain tp w2 where p: "process_frame can ?st (ff_frame i data) ?tp w1 = Some (Pending, tp, w2)"
      "rx_holds data 6 1 tp" "m_cfg tp = m_cfg ?tp"
      using process_ff_frame [OF assms(1) l(1) assms(3,4), of can ?st w1] by blast
    let ?fc = "own_fc (cfg_tx_id (m_cfg ?tp)) kFC_CTS (cfg_block_size (m_cfg ?tp)) (cfg_st_min_ms (m_cfg ?tp))"
    have e: "m_tx_state tp = m_tx_state ?tp" "w2 = snd (can_send can ?fc w1)"
      using ff_frame_effects [OF p(1) l(1)] by simp_all
    have w2: "I w2" "pending w2 = pending w1" "sent w2 = sent w1 @ [?fc]"
      "can_tick can w2 = can_tick can w1"
      using send_keeps [OF w1(1), of ?fc] send_pending [OF w1(1), of ?fc] send_tick [of ?fc w1]
        send_lossless [of ?fc w1] e(2) by auto
    obtain srv' w' where r: "receive_loop can (srv\<lparr>us_transport := tp\<rparr>) w2 = Some (srv', w')"
      "received can I pending sent data [] (srv\<lparr>us_transport := tp\<rparr>) w2 srv' w'"
      using receive_cf_frames [of data 6 1 "srv\<lparr>us_transport := tp\<rparr>" i w2] p assms(4) l w2 w1(2) by auto
    have "fc_reply (m_cfg ?tp) data = [?fc]" using False by (simp add: fc_reply_def)
    with p(1,3) loop r w1 w2 e show ?thesis by (auto simp: received_def)
  qed
qed

lemma can_env: "ecu_environment can (\<lambda>v. I v \<and> pending v = fs \<and> can_tick can v = t)"
  by unfold_locales (simp add: send_keeps send_pending send_tick)

text \<open>A flow control frame that finds a reply waiting sends the rest of it.\<close>

lemma receive_fc:
  assumes "m_tx_state (us_transport srv) = TxWaitFC"
    "tx_mem (server_store (us_resp_buf srv) []) (us_transport srv)"
    "cfg_rx_id (m_cfg (us_transport srv)) = i" "I w" "pending w = [fc_frame i kFC_CTS 0 stm]"
  shows "\<exists>tp w'. receive_loop can srv w = Some (srv\<lparr>us_transport := tp\<rparr>, w') \<and>
    m_tx_state tp = TxIdle \<and> m_cfg tp = m_cfg (us_transport srv) \<and>
    m_data_ready tp = m_data_ready (us_transport srv) \<and> I w' \<and> pending w' = [] \<and>
    can_tick can w' = can_tick can w \<and>
    sent w' = sent w @ tx_frames (server_store (us_resp_buf srv) []) (us_transport srv)"
proof -
  let ?st = "server_store (us_resp_buf srv) []" and ?fc = "fc_frame i kFC_CTS 0 stm"
  obtain w1 where w1: "I w1" "pending w1 = []" "sent w1 = sent w" "can_tick can w1 = can_tick can w"
    and loop: "\<And>srv. receive_loop can srv w =
      (case process_frame can (server_store (us_resp_buf srv) []) ?fc (us_transport srv) w1 of
         None \<Rightarrow> None
       | Some (r, tp, w) \<Rightarrow> receive_loop can (srv\<lparr>us_transport := tp\<rparr>) w)"
    using receive_step [OF assms(4,5)] by blast
  obtain r tp w2 where p: "process_frame can ?st ?fc (us_transport srv) w1 = Some (r, tp, w2)"
    "sent w2 = sent w1 @ tx_frames ?st (us_transport srv)" "m_tx_state tp = TxIdle"
    "m_cfg tp = m_cfg (us_transport srv)"
    using fc_continue [OF assms(1-3), of 0 stm w1] by auto
  from ecu_environment.process_frame_keeps [OF can_env p(1)] w1
  have w2: "I w2" "pending w2 = []" and t: "can_tick can w2 = can_tick can w" by simp_all
  have rdy: "m_data_ready tp = m_data_ready (us_transport srv)"
    by (rule fc_frame_ready [OF p(1)])
  from receive_done [OF w2] obtain w3 where "I w3" "pending w3 = []" "sent w3 = sent w2"
    "can_tick can w3 = can_tick can w2" "\<And>srv. receive_loop can srv w2 = Some (srv, w3)" by blast
  with p loop w1 rdy t show ?thesis by auto
qed

lemma send_reply:
  assumes "0 < n" "n < 4096" "n \<le> length (st a)" "m_tx_state tp = TxIdle" "I w"
    "0 < cfg_n_bs_ms (m_cfg tp)" "unat (can_tick can w) + unat (cfg_n_bs_ms (m_cfg tp)) < 2 ^ 32"
    "n \<le> 7 \<or> a = resp_addr \<and> st = server_store buf []"
  shows "\<exists>r tp' w'. isotp_send can st (Some a) n tp w = Some (r, tp', w') \<and>
    replying can I pending sent (take n (st a)) buf tp w (isotp_update can tp' w') w'"
proof -
  have env: "I w' \<and> pending w' = pending w \<and> can_tick can w' = can_tick can w"
    if "isotp_send can st (Some a) n tp w = Some (r, tp', w')" for r tp' w'
    using ecu_environment.isotp_send_keeps [OF can_env that] assms(5) by simp
  show ?thesis
  proof (cases "n \<le> 7")
    case True
    with send_short [of n st a tp w] env assms(1,3,4) show ?thesis
      by (auto simp: replying_def isotp_update_idle)
  next
    case False
    then have n: "7 < n" "n \<le> 4096" using assms(2) by simp_all
    from send_long [of n st a tp w] n assms(3) obtain tp' w' where
      s: "isotp_send can st (Some a) n tp w = Some (Pending, tp', w')"
      and w': "sent w' = sent w @ [ff_frame (cfg_tx_id (m_cfg tp)) (take n (st a))]"
      "tx_frames st tp' = cf_frames (cfg_tx_id (m_cfg tp)) 1 (drop 6 (take n (st a)))"
      "tx_mem st tp'" "m_tx_state tp' = TxWaitFC" "m_cfg tp' = m_cfg tp" by blast
    have "m_tx_state (isotp_update can tp' w') = TxWaitFC"
      using isotp_update_waits [OF w'(4), of can w'] isotp_send_deadline [OF s] assms(6,7) w'(5) env [OF s]
      by simp
    moreover have "m_data_ready tp' = m_data_ready tp"
      using s by (auto simp: isotp_send_def Let_def split: if_splits option.splits prod.splits)
    ultimately show ?thesis
      using s w' env [OF s] False assms(3,8) by (auto simp: replying_def)
  qed
qed

text \<open>One call of \<open>process\<close> on a complete request.\<close>

lemma process_reply:
  assumes "rx_complete data (us_transport srv)" "data \<noteq> []" "length data \<le> length (us_req_buf srv)"
    "us_tick_fn srv = None" "m_tx_state (us_transport srv) = TxIdle"
    and "find_service (hd data) srv = Some svc"
    "handle svc data (us_resp_buf srv) (session_keep_alive 0 (us_session srv), w) = (r, session, w1)"
    "r_send r \<Longrightarrow> r_len r < 4096" "r_len r \<le> length (r_buf r)" "m_timeout_cb session = None" "I w1"
    and "0 < cfg_n_bs_ms (m_cfg (us_transport srv))"
    "unat (can_tick can w1) + unat (cfg_n_bs_ms (m_cfg (us_transport srv))) < 2 ^ 32"
  shows "\<exists>tp w' buf s. server_process can srv w =
      Some (srv\<lparr>us_req_buf := buf, us_resp_buf := r_buf r, us_transport := tp, us_session := s\<rparr>, w') \<and>
    replying can I pending sent (if r_send r then reply_bytes r else []) (r_buf r)
      ((us_transport srv)\<lparr>m_data_ready := False\<rparr>) w1 tp w' \<and>
    s = fst (session_update 0 session w')"
proof -
  let ?srv = "(fetched 0 data srv)\<lparr>us_resp_buf := r_buf r, us_session := session\<rparr>"
  have data: "data ! 0 = hd data" using assms(2) by (simp add: hd_conv_nth)
  have tick: "get_tick srv w = 0" using assms(4) by (simp add: get_tick_def)
  have "\<exists>tp v. poll_request can 0 srv w = Some (?srv\<lparr>us_transport := tp\<rparr>, v) \<and>
    replying can I pending sent (if r_send r then reply_bytes r else []) (r_buf r)
      (us_transport (fetched 0 data srv)) w1 (isotp_update can tp v) v"
  proof (cases "r_send r \<and> 0 < r_len r")
    case True
    have len: "r_len r \<le> length (server_store (r_buf r) [] resp_addr)"
      using assms(9) by (simp add: server_store_def)
    obtain x tp v where s: "isotp_send can (server_store (r_buf r) []) (Some resp_addr) (r_len r)
        (us_transport ?srv) w1 = Some (x, tp, v)"
      "replying can I pending sent (take (r_len r) (server_store (r_buf r) [] resp_addr)) (r_buf r) (us_transport ?srv) w1
        (isotp_update can tp v) v"
      using send_reply [of "r_len r" "server_store (r_buf r) []" resp_addr "us_transport ?srv" w1 "r_buf r"]
        True assms(5,8,11-13) len by auto
    moreover have "take (r_len r) (server_store (r_buf r) [] resp_addr) = reply_bytes r"
      by (simp add: server_store_def reply_bytes_def)
    moreover have "poll_request can 0 srv w = Some (?srv\<lparr>us_transport := tp\<rparr>, v)"
      unfolding poll_complete [OF assms(1-3)] handle_request_def Let_def data
      using assms(2,6,7) True s(1) by (simp add: send_response_def)
    ultimately show ?thesis using True by auto
  next
    case False
    then have "poll_request can 0 srv w = Some (?srv\<lparr>us_transport := us_transport ?srv\<rparr>, w1)"
      unfolding poll_complete [OF assms(1-3)] handle_request_def Let_def data
      using assms(2,6,7) by auto
    moreover have "(if r_send r then reply_bytes r else []) = []"
      using False by (auto simp: reply_bytes_def)
    ultimately show ?thesis
      using assms(5,11)
      by (intro exI [of _ "us_transport ?srv"] exI [of _ w1])
        (simp add: replying_def isotp_update_idle)
  qed
  then obtain tp v where p: "poll_request can 0 srv w = Some (?srv\<lparr>us_transport := tp\<rparr>, v)"
    "replying can I pending sent (if r_send r then reply_bytes r else []) (r_buf r)
      (us_transport (fetched 0 data srv)) w1 (isotp_update can tp v) v" by blast
  obtain s where u: "session_update 0 session v = (s, v)"
    using session_update_no_callback [OF assms(10), of 0 v] by (metis prod.collapse)
  have "server_process can srv w = Some (srv\<lparr>us_req_buf := put 0 data (us_req_buf srv),
      us_resp_buf := r_buf r, us_transport := isotp_update can tp v, us_session := s\<rparr>, v)"
    using p(1) u by (simp add: server_process_def tick Let_def fetched_def)
  moreover have "s = fst (session_update 0 session v)" using u by simp
  ultimately show ?thesis using p(2) by (auto simp: replying_def us_transport_fetched)
qed

lemma process_unknown:
  assumes "rx_complete data (us_transport srv)" "data \<noteq> []" "length data \<le> length (us_req_buf srv)"
    "us_tick_fn srv = None" "m_tx_state (us_transport srv) = TxIdle"
    and "find_service (hd data) srv = None" "m_timeout_cb (us_session srv) = None" "I w"
    and "0 < cfg_n_bs_ms (m_cfg (us_transport srv))"
    "unat (can_tick can w) + unat (cfg_n_bs_ms (m_cfg (us_transport srv))) < 2 ^ 32"
  shows "\<exists>tp w' buf s. server_process can srv w =
      Some (srv\<lparr>us_req_buf := buf, us_resp_buf := us_resp_buf srv, us_transport := tp,
        us_session := s\<rparr>, w') \<and>
    replying can I pending sent [0x7F, hd data, 0x11] (us_resp_buf srv)
      ((us_transport srv)\<lparr>m_data_ready := False\<rparr>) w tp w' \<and>
    s = fst (session_update 0 (session_keep_alive 0 (us_session srv)) w')"
proof -
  let ?srv = "fetched 0 data srv" and ?nrc = "[0x7F, hd data, 0x11]"
  let ?st = "server_store (us_resp_buf srv) ?nrc"
  have data: "data ! 0 = hd data" using assms(2) by (simp add: hd_conv_nth)
  have tick: "get_tick srv w = 0" using assms(4) by (simp add: get_tick_def)
  have nrc: "?st stack_addr = ?nrc" by (simp add: server_store_def stack_addr_def resp_addr_def)
  obtain x tp v where s: "isotp_send can ?st (Some stack_addr) 3 (us_transport ?srv) w = Some (x, tp, v)"
    "replying can I pending sent (take 3 (?st stack_addr)) (us_resp_buf srv) (us_transport ?srv) w (isotp_update can tp v) v"
    using send_reply [of 3 ?st stack_addr "us_transport ?srv" w "us_resp_buf srv"] assms(5,8-10) nrc
    by auto
  have p: "poll_request can 0 srv w = Some (?srv\<lparr>us_transport := tp\<rparr>, v)"
    unfolding poll_complete [OF assms(1-3)] handle_request_def Let_def data
    using assms(2,6) s(1) by (simp add: send_nrc_def send_response_def)
  obtain se where u: "session_update 0 (session_keep_alive 0 (us_session srv)) v = (se, v)"
    using session_update_no_callback [of "session_keep_alive 0 (us_session srv)" 0 v] assms(7)
    by (metis keep_alive_callback prod.collapse)
  have "server_process can srv w = Some (srv\<lparr>us_req_buf := put 0 data (us_req_buf srv),
      us_resp_buf := us_resp_buf srv, us_transport := isotp_update can tp v, us_session := se\<rparr>, v)"
    using p u by (simp add: server_process_def tick Let_def fetched_def)
  moreover have "se = fst (session_update 0 (session_keep_alive 0 (us_session srv)) v)" using u by simp
  ultimately show ?thesis using s(2) nrc by (auto simp: replying_def us_transport_fetched)
qed

end

section \<open>The driver of the unit tests as such a bus\<close>

lemma test_can_tick: "can_tick test_can_if = tc_tick"
  by (simp add: test_can_if_def)

text \<open>\<open>logged\<close> records beside the driver the frames it accepted; its queue holds 31 frames.\<close>

definition test_deliver ::
    "can_frame list \<Rightarrow> u32 \<Rightarrow> test_can \<times> can_frame list \<Rightarrow> test_can \<times> can_frame list" where
  "test_deliver fs t = (\<lambda>(c, l). ((fold test_can_inject fs c)\<lparr>tc_tick := t\<rparr>, l))"

lemma test_can_send_rx [simp]:
  "fst (test_can_send f c)" "tc_rx (snd (test_can_send f c)) = tc_rx c"
  "tc_tick (snd (test_can_send f c)) = tc_tick c"
  by (simp_all add: test_can_send_def)

lemma logged_test_can [simp]:
  "can_send (logged test_can_if) f w = (True, (snd (test_can_send f (fst w)), snd w @ [f]))"
  "can_receive (logged test_can_if) w =
    (fst (ring_receive 32 (tc_rx (fst w))),
     ((fst w)\<lparr>tc_rx := snd (ring_receive 32 (tc_rx (fst w)))\<rparr>, snd w))"
  "can_tick (logged test_can_if) w = tc_tick (fst w)"
  by (simp_all add: logged_def test_can_if_def test_can_receive_def split_def Let_def)

interpretation test_ring: ring_driver "logged test_can_if" 32 "\<lambda>w. tc_rx (fst w)"
  by unfold_locales simp_all

interpretation test_bus: bus_driver "logged test_can_if" "\<lambda>w. ring_ok 32 (tc_rx (fst w))"
  "\<lambda>w. ring_content 32 (tc_rx (fst w))" snd 31 test_deliver
proof unfold_locales
  fix w :: "test_can \<times> can_frame list" and fs :: "can_frame list" and t :: u32
  show "snd (test_deliver fs t w) = snd w" "can_tick (logged test_can_if) (test_deliver fs t w) = t"
    by (simp_all add: test_deliver_def split_def test_can_tick)
  assume "ring_ok 32 (tc_rx (fst w))" "ring_content 32 (tc_rx (fst w)) = []" "length fs \<le> 31"
    "\<forall>f \<in> set fs. classic_frame f"
  then show "ring_ok 32 (tc_rx (fst (test_deliver fs t w))) \<and>
      ring_content 32 (tc_rx (fst (test_deliver fs t w))) = fs"
    using inject_content [of "fst w" fs]
    by (simp add: ring_ok_def test_deliver_def split_def del: length_ring_content)
qed (simp_all add: test_can_tick)

lemma test_can_fresh: "length q = 32 \<Longrightarrow> ring_ok 32 (tc_rx (test_can_new s q)) \<and>
    ring_content 32 (tc_rx (test_can_new s q)) = []"
  using ring_ok_new [of q 32] by (simp add: test_can_new_def ring_content_new)

end
