(* ===== verification/Ecu_Spec.thy ===== *)
theory Ecu_Spec
  imports Bus_Driver
begin

text \<open>
  The example program as a tester sees it: an abstract ECU that takes a request and gives an
  answer, with no frames, no buffers, no driver and no timers, and the theorem that the
  program of \<open>main\<close> implements it on every bus. The state of the abstract ECU is the session
  and the application data; its services are those of the program on an empty response buffer.
\<close>

section \<open>The abstract ECU\<close>

text \<open>The application data, without the driver.\<close>

definition app_view :: "'d ecu_app \<Rightarrow> unit ecu_app" where
  "app_view w = \<lparr>app_can = (), kSwVer = kSwVer w, app_lfsr = app_lfsr w, app_sec = app_sec w,
     app_dtc = app_dtc w, app_rdbi = app_rdbi w, app_wdbi = app_wdbi w,
     app_routines = app_routines w\<rparr>"

type_synonym ecu_state = "SessionType \<times> unit ecu_app"

text \<open>The answer to a request, empty when there is none.\<close>

definition spec_answer :: "u8 list \<Rightarrow> ecu_state \<Rightarrow> u8 list \<times> ecu_state" where
  "spec_answer req = (\<lambda>(st, a).
     case find (\<lambda>svc. service_id svc = hd req) main_services of
       None \<Rightarrow> ([0x7F, hd req, 0x11], (st, a))
     | Some svc \<Rightarrow>
         (case handle svc req (replicate kMaxResp 0)
             ((session_new kDefaultTiming)\<lparr>m_session := st\<rparr>, a) of
            (r, session, a) \<Rightarrow> (if r_send r then reply_bytes r else [], (m_session session, a))))"

definition spec_tick :: "u32 \<Rightarrow> ecu_state \<Rightarrow> ecu_state" where
  "spec_tick t = (\<lambda>(st, a). (st, a\<lparr>app_sec := security_update t (app_sec a)\<rparr>))"

text \<open>A request at time \<open>t\<close>; the exchange is over at time \<open>t'\<close>.\<close>

fun spec_run :: "(u32 \<times> u32 \<times> u8 list) list \<Rightarrow> ecu_state \<Rightarrow> u8 list list \<times> ecu_state" where
  "spec_run [] s = ([], s)"
| "spec_run ((t, t', req) # xs) s =
     (case spec_answer req (spec_tick t s) of
        (bs, s) \<Rightarrow> (case spec_run xs (spec_tick t' s) of (bss, s) \<Rightarrow> (bs # bss, s)))"

section \<open>The tester on the bus\<close>

text \<open>A tester answers a first frame with Continue-To-Send.\<close>

definition tester_fc :: "u8 \<Rightarrow> can_frame list \<Rightarrow> can_frame list" where
  "tester_fc stm fs =
     (if fs \<noteq> [] \<and> drop_bit 4 (cf_data (last fs) ! 0) AND 0x0F = 1
      then [fc_frame 0x7E0 kFC_CTS 0 stm] else [])"

text \<open>
  One exchange: the frames of the request are delivered, the program makes a pass, the tester
  looks at the frames that appeared on the bus, and the program makes a second pass.
\<close>

definition exchange ::
    "'d can_if \<Rightarrow> ('d \<Rightarrow> can_frame list) \<Rightarrow> (can_frame list \<Rightarrow> u32 \<Rightarrow> 'd \<Rightarrow> 'd) \<Rightarrow> u8 \<Rightarrow>
     u32 \<times> u32 \<times> u8 list \<Rightarrow> 'd ecu_app uds_server \<times> 'd ecu_app \<Rightarrow>
     ('d ecu_app uds_server \<times> 'd ecu_app) option" where
  "exchange can sent deliver stm = (\<lambda>(t, t', req) (srv, w).
     let n = length (sent (app_can w)) in
     case main_iteration can (\<lambda>d. deliver (tester_fc stm (drop n (sent d))) t' d)
         (srv, w\<lparr>app_can := deliver (segment 0x7E0 req) t (app_can w)\<rparr>) of
       None \<Rightarrow> None
     | Some st \<Rightarrow> main_iteration can (\<lambda>d. d) st)"

fun conversation ::
    "'d can_if \<Rightarrow> ('d \<Rightarrow> can_frame list) \<Rightarrow> (can_frame list \<Rightarrow> u32 \<Rightarrow> 'd \<Rightarrow> 'd) \<Rightarrow> u8 \<Rightarrow>
     (u32 \<times> u32 \<times> u8 list) list \<Rightarrow> 'd ecu_app uds_server \<times> 'd ecu_app \<Rightarrow>
     ('d ecu_app uds_server \<times> 'd ecu_app) option" where
  "conversation can sent deliver stm [] st = Some st"
| "conversation can sent deliver stm (x # xs) st =
     (case exchange can sent deliver stm x st of
        None \<Rightarrow> None
      | Some st \<Rightarrow> conversation can sent deliver stm xs st)"

text \<open>The frames of the ECU for a request and its answer.\<close>

definition exchange_frames :: "u8 list \<Rightarrow> u8 list \<Rightarrow> can_frame list" where
  "exchange_frames req bs =
     fc_reply ecu_cfg req @ (if bs = [] then [] else segment 0x7E8 bs)"

section \<open>The services on both states\<close>

definition same_session :: "'a uds_session \<Rightarrow> 'b uds_session \<Rightarrow> bool" where
  "same_session s s' \<longleftrightarrow> m_session s = m_session s' \<and> m_timing s = m_timing s'"

definition sim_service :: "'d ecu_app service \<Rightarrow> unit ecu_app service \<Rightarrow> bool" where
  "sim_service svc svc' \<longleftrightarrow> service_id svc = service_id svc' \<and>
     (\<forall>req resp s s' w r s1 w1 r' s1' w1'.
        req \<noteq> [] \<longrightarrow> length resp = kMaxResp \<longrightarrow> app_inv (\<lambda>_. True) w \<longrightarrow> same_session s s' \<longrightarrow>
        handle svc req resp (s, w) = (r, s1, w1) \<longrightarrow>
        handle svc' req (replicate kMaxResp 0) (s', app_view w) = (r', s1', w1') \<longrightarrow>
        same_reply r r' \<and> same_session s1 s1' \<and> m_timeout_cb s1 = m_timeout_cb s \<and>
        m_timing s1 = m_timing s \<and> w1' = app_view w1 \<and> app_can w1 = app_can w)"

lemma app_view_inv: "app_inv (\<lambda>_. True) (app_view w) \<longleftrightarrow> app_inv (\<lambda>_. True) w"
  by (simp add: app_inv_def app_view_def)

lemma sim_app_service:
  assumes "\<And>session. blind_service sid J (h session)"
    and "\<And>s s'. same_session s s' \<Longrightarrow> h' s' = h s"
    and "\<And>w. app_inv (\<lambda>_. True) w \<Longrightarrow> J (rd w)" "\<And>w. rd' (app_view w) = rd w"
    and "\<And>x w. wr' x (app_view w) = app_view (wr x w)" "\<And>x w. app_can (wr x w) = app_can w"
  shows "sim_service (app_service sid rd wr h) (app_service sid rd' wr' h')"
  unfolding sim_service_def
proof (intro conjI allI impI)
  fix req resp s s' w r s1 w1 r' s1' w1'
  assume req: "req \<noteq> []" "length resp = kMaxResp" and I: "app_inv (\<lambda>_. True) w" and s: "same_session s s'"
    and h: "handle (app_service sid rd wr h) req resp (s, w) = (r, s1, w1)"
    and h': "handle (app_service sid rd' wr' h') req (replicate kMaxResp 0) (s', app_view w) = (r', s1', w1')"
  obtain x where x: "h s req resp (rd w) = (r, x)" "s1 = s" "w1 = wr x w"
    using h by (auto simp: app_service_def split: prod.splits)
  obtain x' where x': "h s req (replicate kMaxResp 0) (rd w) = (r', x')" "s1' = s'" "w1' = wr' x' (app_view w)"
    using h' assms(2) [OF s] assms(4) by (auto simp: app_service_def split: prod.splits)
  have "same_reply r r' \<and> x = x'"
    using blind_service.blind [OF assms(1) assms(3) [OF I] req, of "replicate kMaxResp 0" s] x(1) x'(1) by simp
  with x x' s assms(5,6) show "same_reply r r'" "same_session s1 s1'" "m_timeout_cb s1 = m_timeout_cb s"
    "m_timing s1 = m_timing s" "w1' = app_view w1" "app_can w1 = app_can w" by simp_all
qed simp

lemma sim_tester_present: "sim_service tester_present_service tester_present_service"
  unfolding sim_service_def
  by (auto simp: tester_present_service_def tester_present_handle_def Let_def same_session_def
      session_keep_alive_def split: if_splits)

lemma sim_dsc:
  "sim_service \<lparr>service_id = sid_byte DiagnosticSessionControl, handle = dsc_handle None\<rparr>
    \<lparr>service_id = sid_byte DiagnosticSessionControl, handle = dsc_handle None\<rparr>"
  unfolding sim_service_def
  by (auto simp: dsc_handle_def Let_def same_session_def session_transition_def session_reset_def
      call_if_def split: if_splits bool.splits)

lemma handler_sessions:
  assumes "same_session s s'"
  shows "security_handle s' = security_handle s" "routine_handle t s' = routine_handle t s"
    "control_dtc_handle cb s' = control_dtc_handle cb s"
proof -
  have "m_session s' = m_session s" using assms by (simp add: same_session_def)
  then show "security_handle s' = security_handle s" "routine_handle t s' = routine_handle t s"
    "control_dtc_handle cb s' = control_dtc_handle cb s"
    by (intro ext, simp only: security_handle_def routine_handle_def control_dtc_handle_def)+
qed

lemma main_services_sim: "list_all2 sim_service main_services main_services"
  unfolding main_services_def list_all2_Cons list_all2_Nil
  by (intro conjI sim_tester_present sim_dsc TrueI;
      (rule sim_app_service, rule blind_contracts did_contracts [where W = "\<lambda>sw. length sw = 4"])?)
    (auto simp: app_view_def app_inv_def fun_eq_iff handler_sessions)

lemma find_sim:
  assumes "list_all2 sim_service xs ys"
  shows "case find (\<lambda>svc. service_id svc = sid) xs of
      None \<Rightarrow> find (\<lambda>svc. service_id svc = sid) ys = None
    | Some svc \<Rightarrow> (\<exists>svc'. find (\<lambda>svc. service_id svc = sid) ys = Some svc' \<and> sim_service svc svc')"
  using assms
proof (induction rule: list_all2_induct)
  case (Cons x xs y ys)
  from Cons.hyps(1) have "service_id x = service_id y" unfolding sim_service_def by (rule conjunct1)
  with Cons show ?case by (cases "service_id y = sid") (auto split: option.splits)
qed simp

lemma main_find_none:
  "find (\<lambda>svc. service_id svc = sid) (main_services :: 'd ecu_app service list) = None \<Longrightarrow>
    find (\<lambda>svc. service_id svc = sid) (main_services :: unit ecu_app service list) = None"
  using find_sim [OF main_services_sim [where 'a = 'd], of sid] by simp

lemma main_find_some:
  assumes "find (\<lambda>svc. service_id svc = sid) (main_services :: 'd ecu_app service list) = Some svc"
  obtains svc' where "find (\<lambda>svc. service_id svc = sid) main_services = Some svc'" "sim_service svc svc'"
  using find_sim [OF main_services_sim [where 'a = 'd], of sid] assms by auto

section \<open>The program between two passes\<close>

lemma app_view_can [simp]: "app_view (w\<lparr>app_can := d\<rparr>) = app_view w"
  by (simp add: app_view_def)

lemma app_bus:
  assumes "bus_driver can I pending sent cap deliver"
  shows "bus_driver (app_can_if can) (\<lambda>w. app_inv I w \<and> app_view w = a) (\<lambda>w. pending (app_can w))
    (\<lambda>w. sent (app_can w)) cap (\<lambda>fs t w. w\<lparr>app_can := deliver fs t (app_can w)\<rparr>)"
proof -
  note D = bus_driver.axioms(1) [OF assms] and L = bus_driver.axioms(2) [OF assms]
  note laws = bus_driver.deliver_sent [OF assms] bus_driver.deliver_tick [OF assms]
    bus_driver.send_tick [OF assms] bus_driver.receive_tick [OF assms] bus_driver.receive_sent [OF assms]
  note drain = draining_driver.receive_none [OF D] draining_driver.receive_some [OF D]
    draining_driver.receive_keeps [OF D] draining_driver.send_pending [OF D]
    draining_driver.pending_classic [OF D] ecu_environment.send_keeps [OF draining_driver.axioms(1) [OF D]]
  show ?thesis
  proof (intro bus_driver.intro app_lossless [OF L])
    show "draining_driver (app_can_if can) (\<lambda>w. app_inv I w \<and> app_view w = a) (\<lambda>w. pending (app_can w))"
      by unfold_locales
        (auto simp: app_inv_driver [of I] app_inv_driver [of "\<lambda>_. I _"] drain)
    show "bus_driver_axioms (app_can_if can) (\<lambda>w. app_inv I w \<and> app_view w = a)
        (\<lambda>w. pending (app_can w)) (\<lambda>w. sent (app_can w)) cap
        (\<lambda>fs t w. w\<lparr>app_can := deliver fs t (app_can w)\<rparr>)"
      by unfold_locales
        (auto simp: app_inv_driver [of I] app_inv_driver [of "\<lambda>_. I _"] laws
          bus_driver.deliver_pending [OF assms])
  qed
qed

text \<open>What does not change: the services, the timing, no tick provider.\<close>

definition main_fixed :: "'d ecu_app uds_server \<Rightarrow> bool" where
  "main_fixed srv \<longleftrightarrow> us_services srv = main_services \<and> us_tick_fn srv = None \<and>
     m_timing (us_session srv) = kDefaultTiming \<and> m_timeout_cb (us_session srv) = None \<and>
     m_cfg (us_transport srv) = ecu_cfg \<and> \<not> m_data_ready (us_transport srv)"

definition view_state :: "'d ecu_app uds_server \<times> 'd ecu_app \<Rightarrow> ecu_state" where
  "view_state = (\<lambda>(srv, w). (m_session (us_session srv), app_view w))"

lemma session_update_zero:
  "m_timeout_cb s = None \<Longrightarrow> m_session (fst (session_update 0 s w)) = m_session s \<and>
    m_timing (fst (session_update 0 s w)) = m_timing s \<and>
    m_timeout_cb (fst (session_update 0 s w)) = None"
  by (simp add: session_update_def)

text \<open>The first pass has sent the answer, or its first frame.\<close>

definition answered :: "u8 list \<Rightarrow> 'd ecu_app uds_server \<Rightarrow> bool" where
  "answered bs srv \<longleftrightarrow>
     (if length bs \<le> 7 then m_tx_state (us_transport srv) = TxIdle
      else m_tx_state (us_transport srv) = TxWaitFC \<and>
        tx_mem (server_store (us_resp_buf srv) []) (us_transport srv) \<and>
        tx_frames (server_store (us_resp_buf srv) []) (us_transport srv) =
          cf_frames 0x7E8 1 (drop 6 bs))"

definition first_frames :: "u8 list \<Rightarrow> can_frame list" where
  "first_frames bs = (if bs = [] then [] else if length bs \<le> 7 then segment 0x7E8 bs
     else [ff_frame 0x7E8 bs])"

lemma cf_frames_classic: "f \<in> set (cf_frames i sn data) \<Longrightarrow> classic_frame f"
proof (induction "length data" arbitrary: sn data rule: less_induct)
  case less
  show ?case
  proof (cases "data = []")
    case False
    then have "length (drop 7 data) < length data" by simp
    with less.hyps [OF this] less.prems False show ?thesis
      by (auto simp: cf_frames_step classic_cf_frame)
  qed (use less.prems in simp)
qed

lemma segment_classic: "f \<in> set (segment i data) \<Longrightarrow> classic_frame f"
  by (auto simp: segment_def classic_sf_frame classic_ff_frame cf_frames_classic split: if_splits)

lemma own_fc_pci: "drop_bit 4 (cf_data (own_fc i kFC_CTS b t) ! 0) AND 0x0F = 0"
  by (simp add: own_fc_def kFC_CTS_def put_def zero_frame_def)

lemma tester_fc_frames:
  "tester_fc stm (fc_reply ecu_cfg req @ first_frames bs) =
    (if length bs \<le> 7 then [] else [fc_frame 0x7E0 kFC_CTS 0 stm])"
  by (auto simp: tester_fc_def fc_reply_def first_frames_def segment_def own_fc_pci sf_frame_fields
      ff_frame_fields)

context bus_driver
begin

text \<open>The second pass over a complete request, without and with a service for it.\<close>

lemma serve_unknown:
  assumes "main_fixed srv" "m_tx_state (us_transport srv) = TxIdle"
    and "server_inv (app_inv I) srv" "app_inv I w" "rx_complete req tp" "m_cfg tp = ecu_cfg"
      "m_tx_state tp = TxIdle" "req \<noteq> []" "length req < 4096"
    and "spec_answer req (m_session (us_session srv), app_view w) = (bs, s')" "length bs < 4096"
    and "unat (can_tick can (app_can w)) + 1000 < 2 ^ 32"
    and None: "find (\<lambda>svc. service_id svc = hd req) (main_services :: 's ecu_app service list) = None"
  shows "\<exists>srv' w'. server_process (app_can_if can) (srv\<lparr>us_transport := tp\<rparr>) w = Some (srv', w') \<and>
    main_fixed srv' \<and> answered bs srv' \<and> view_state (srv', w') = s' \<and>
    pending (app_can w') = pending (app_can w) \<and>
    sent (app_can w') = sent (app_can w) @ first_frames bs"
proof -
  let ?srv = "srv\<lparr>us_transport := tp\<rparr>"
  note fixed = assms(1) [unfolded main_fixed_def]
  have ready: "rx_complete req (us_transport ?srv)" "length req \<le> length (us_req_buf ?srv)"
    "us_tick_fn ?srv = None" "m_tx_state (us_transport ?srv) = TxIdle"
    using assms(3,5,7,9) fixed by (simp_all add: server_inv_def kMaxResp_def)
  have nbs: "0 < cfg_n_bs_ms (m_cfg (us_transport ?srv))"
    "unat (can_tick can (app_can w)) + unat (cfg_n_bs_ms (m_cfg (us_transport ?srv))) < 2 ^ 32"
    using assms(6,12) by (simp_all add: kDefaultIsoTpConfig_def)
  have find: "find_service sid ?srv = find (\<lambda>svc. service_id svc = sid) main_services" for sid
    using fixed by (simp add: find_service_def)
  note bus = app_bus [OF bus_driver_axioms, of "app_view w"]
  from bus_driver.process_unknown [OF bus, of req ?srv w] None find ready nbs assms(4,5,8) fixed
  obtain tp' w' buf s where p: "server_process (app_can_if can) ?srv w =
      Some (?srv\<lparr>us_req_buf := buf, us_resp_buf := us_resp_buf ?srv, us_transport := tp',
        us_session := s\<rparr>, w')"
    and r: "replying (app_can_if can) (\<lambda>v. app_inv I v \<and> app_view v = app_view w)
      (\<lambda>v. pending (app_can v)) (\<lambda>v. sent (app_can v)) [0x7F, hd req, 0x11] (us_resp_buf ?srv)
      ((us_transport ?srv)\<lparr>m_data_ready := False\<rparr>) w tp' w'"
    and s: "s = fst (session_update 0 (session_keep_alive 0 (us_session ?srv)) w')" by auto
  have "bs = [0x7F, hd req, 0x11]" "s' = (m_session (us_session srv), app_view w)"
    using assms(10) main_find_none [OF None] by (simp_all add: spec_answer_def)
  moreover have "m_session s = m_session (us_session srv) \<and> m_timing s = kDefaultTiming \<and>
      m_timeout_cb s = None"
    using session_update_zero [of "session_keep_alive 0 (us_session srv)" w'] fixed
    by (simp add: s session_keep_alive_def Let_def)
  ultimately show ?thesis
    using p r fixed assms(6)
    by (simp add: replying_def main_fixed_def answered_def view_state_def first_frames_def)
qed

lemma serve_known:
  assumes "main_fixed srv" "m_tx_state (us_transport srv) = TxIdle"
    and "server_inv (app_inv I) srv" "app_inv I w" "rx_complete req tp" "m_cfg tp = ecu_cfg"
      "m_tx_state tp = TxIdle" "req \<noteq> []" "length req < 4096"
    and "spec_answer req (m_session (us_session srv), app_view w) = (bs, s')" "length bs < 4096"
    and "unat (can_tick can (app_can w)) + 1000 < 2 ^ 32"
    and Some: "find (\<lambda>svc. service_id svc = hd req) main_services = Some (svc :: 's ecu_app service)"
  shows "\<exists>srv' w'. server_process (app_can_if can) (srv\<lparr>us_transport := tp\<rparr>) w = Some (srv', w') \<and>
    main_fixed srv' \<and> answered bs srv' \<and> view_state (srv', w') = s' \<and>
    pending (app_can w') = pending (app_can w) \<and>
    sent (app_can w') = sent (app_can w) @ first_frames bs"
proof -
  let ?srv = "srv\<lparr>us_transport := tp\<rparr>"
  note fixed = assms(1) [unfolded main_fixed_def]
  have ready: "rx_complete req (us_transport ?srv)" "length req \<le> length (us_req_buf ?srv)"
    "us_tick_fn ?srv = None" "m_tx_state (us_transport ?srv) = TxIdle"
    using assms(3,5,7,9) fixed by (simp_all add: server_inv_def kMaxResp_def)
  have nbs: "0 < cfg_n_bs_ms (m_cfg (us_transport ?srv))"
    "unat (can_tick can (app_can w)) + unat (cfg_n_bs_ms (m_cfg (us_transport ?srv))) < 2 ^ 32"
    using assms(6,12) by (simp_all add: kDefaultIsoTpConfig_def)
  have find: "find_service sid ?srv = find (\<lambda>svc. service_id svc = sid) main_services" for sid
    using fixed by (simp add: find_service_def)
  let ?s0 = "session_keep_alive 0 (us_session srv)"
  obtain r session w1 where h: "handle svc req (us_resp_buf srv) (?s0, w) = (r, session, w1)"
    by (metis prod_cases3)
  obtain svc' where svc': "find (\<lambda>svc. service_id svc = hd req) main_services = Some svc'"
    "sim_service svc svc'"
    by (rule main_find_some [OF Some])
  let ?s' = "(session_new kDefaultTiming)\<lparr>m_session := m_session (us_session srv)\<rparr>"
  obtain r' session' w1' where h': "handle svc' req (replicate kMaxResp 0) (?s', app_view w) =
      (r', session', w1')"
    by (metis prod_cases3)
  have buf: "length (us_resp_buf srv) = kMaxResp" using assms(3) by (simp add: server_inv_def)
  have cb0: "m_timeout_cb ?s0 = None" using fixed by simp
  have "svc \<in> set main_services" using Some by (auto simp: find_Some_iff)
  then have ok: "service_ok (app_inv I) svc" using main_services_ok by blast
  have kept: "length (r_buf r) = kMaxResp \<and> r_len r \<le> kMaxResp \<and> timeout_ok (app_inv I) session \<and>
      app_inv I w1"
    by (rule service_ok_handle [OF ok _ assms(8) buf h]) (use assms(4) cb0 in \<open>simp add: timeout_ok_def\<close>)
  have "same_session ?s0 ?s'"
    using fixed by (simp add: same_session_def session_keep_alive_def session_new_def Let_def)
  then have sim: "same_reply r r' \<and> same_session session session' \<and>
      m_timeout_cb session = m_timeout_cb ?s0 \<and> m_timing session = m_timing ?s0 \<and> w1' = app_view w1 \<and> app_can w1 = app_can w"
    using svc'(2) [unfolded sim_service_def, THEN conjunct2, rule_format, OF assms(8) buf _ _ h h']
      assms(4) by (simp add: app_inv_driver [of I])
  have bs: "bs = (if r_send r then reply_bytes r else [])" "s' = (m_session session, app_view w1)"
    using assms(10) svc'(1) h' sim by (auto simp: spec_answer_def same_reply_def same_session_def)
  have len: "r_send r \<Longrightarrow> r_len r < 4096"
    using assms(11) kept bs(1) by (auto simp: reply_bytes_def)
  note bus = app_bus [OF bus_driver_axioms, of "app_view w1"]
  from bus_driver.process_reply [OF bus, of req ?srv svc w r session w1] Some find h ready nbs kept len sim cb0 assms(5,8)
  obtain tp' w' buf s where p: "server_process (app_can_if can) ?srv w =
      Some (?srv\<lparr>us_req_buf := buf, us_resp_buf := r_buf r, us_transport := tp',
        us_session := s\<rparr>, w')"
    and r: "replying (app_can_if can) (\<lambda>v. app_inv I v \<and> app_view v = app_view w1)
      (\<lambda>v. pending (app_can v)) (\<lambda>v. sent (app_can v)) bs (r_buf r) ((us_transport ?srv)\<lparr>m_data_ready := False\<rparr>) w1 tp' w'"
    and s: "s = fst (session_update 0 session w')" unfolding bs(1) by auto
  have "m_session s = m_session session \<and> m_timing s = kDefaultTiming \<and> m_timeout_cb s = None"
    using session_update_zero [of session w'] fixed sim cb0
    by (simp add: s session_keep_alive_def Let_def)
  then show ?thesis
    using p r fixed assms(6) sim bs(2)
    by (simp add: replying_def main_fixed_def answered_def view_state_def first_frames_def)
qed

lemma serve_request:
  assumes "main_fixed srv" "m_tx_state (us_transport srv) = TxIdle"
    and "server_inv (app_inv I) srv" "app_inv I w" "rx_complete req tp" "m_cfg tp = ecu_cfg"
      "m_tx_state tp = TxIdle" "req \<noteq> []" "length req < 4096"
    and "spec_answer req (m_session (us_session srv), app_view w) = (bs, s')" "length bs < 4096"
    and "unat (can_tick can (app_can w)) + 1000 < 2 ^ 32"
  shows "\<exists>srv' w'. server_process (app_can_if can) (srv\<lparr>us_transport := tp\<rparr>) w = Some (srv', w') \<and>
    main_fixed srv' \<and> answered bs srv' \<and> view_state (srv', w') = s' \<and>
    pending (app_can w') = pending (app_can w) \<and>
    sent (app_can w') = sent (app_can w) @ first_frames bs"
  using serve_unknown [OF assms] serve_known [OF assms]
  by (cases "find (\<lambda>svc. service_id svc = hd req) (main_services :: 's ecu_app service list)") blast+

lemma pass_request:
  assumes "main_fixed srv" "m_tx_state (us_transport srv) = TxIdle"
    and "server_inv (app_inv I) srv" "app_inv I w" "pending (app_can w) = segment 0x7E0 req"
      "req \<noteq> []" "length req < 4096"
    and "spec_answer req (spec_tick (can_tick can (app_can w)) (view_state (srv, w))) = (bs, s')"
      "length bs < 4096"
    and "unat (can_tick can (app_can w)) + 1000 < 2 ^ 32"
  shows "\<exists>srv' w'. (\<forall>tick. main_iteration can tick (srv, w) =
      Some (srv', w'\<lparr>app_can := tick (app_can w')\<rparr>)) \<and>
    main_fixed srv' \<and> answered bs srv' \<and> view_state (srv', w') = s' \<and>
    server_inv (app_inv I) srv' \<and> app_inv I w' \<and> pending (app_can w') = [] \<and>
    sent (app_can w') = sent (app_can w) @ fc_reply ecu_cfg req @ first_frames bs"
proof -
  note bus = app_bus [OF bus_driver_axioms, of "app_view w"]
  have rx: "rx_inv (us_transport srv)" and cfg: "m_cfg (us_transport srv) = ecu_cfg"
    using assms(1,3) by (simp_all add: server_inv_def main_fixed_def)
  obtain srv1 w1 where 1: "receive_loop (app_can_if can) srv w = Some (srv1, w1)"
    "received (app_can_if can) (\<lambda>v. app_inv I v \<and> app_view v = app_view w)
      (\<lambda>v. pending (app_can v)) (\<lambda>v. sent (app_can v)) req (fc_reply ecu_cfg req) srv w srv1 w1"
    using bus_driver.receive_message [OF bus, of srv req "0x7E0" w] rx cfg assms(4-7) by auto
  then obtain tp where tp: "srv1 = srv\<lparr>us_transport := tp\<rparr>" "rx_complete req tp" "m_cfg tp = ecu_cfg"
      "m_tx_state tp = TxIdle"
    and w1: "app_inv I w1" "app_view w1 = app_view w" "pending (app_can w1) = []"
      "sent (app_can w1) = sent (app_can w) @ fc_reply ecu_cfg req"
      "can_tick can (app_can w1) = can_tick can (app_can w)"
    using cfg assms(2) by (auto simp: received_def)
  let ?t = "can_tick can (app_can w)"
  let ?w = "w1\<lparr>app_sec := security_update ?t (app_sec w1)\<rparr>"
  have w: "app_inv I ?w" using w1(1) by (simp add: app_inv_def)
  have "app_view ?w = (app_view w)\<lparr>app_sec := security_update ?t (app_sec (app_view w))\<rparr>"
    by (simp add: w1(2) [symmetric]) (simp add: app_view_def)
  then have spec: "spec_answer req (m_session (us_session srv), app_view ?w) = (bs, s')"
    using assms(8) by (simp add: spec_tick_def view_state_def)
  have "unat (can_tick can (app_can ?w)) + 1000 < 2 ^ 32" using assms(10) w1(5) by simp
  from serve_request [OF assms(1-3) w tp(2-4) assms(6,7) spec assms(9) this]
  obtain srv2 w2 where 2: "server_process (app_can_if can) srv1 ?w = Some (srv2, w2)"
    "main_fixed srv2" "answered bs srv2" "view_state (srv2, w2) = s'"
    "pending (app_can w2) = []"
    "sent (app_can w2) = sent (app_can w) @ fc_reply ecu_cfg req @ first_frames bs"
    using w1 tp(1) by auto
  have it: "main_iteration can tick (srv, w) = Some (srv2, w2\<lparr>app_can := tick (app_can w2)\<rparr>)" for tick
    using 1(1) 2(1) w1(5) by (simp add: main_iteration_def Let_def)
  have "server_inv (app_inv I) srv2 \<and> app_inv I (w2\<lparr>app_can := app_can w2\<rparr>)"
    using main_iteration_safe [OF assms(3,4), of "\<lambda>d. d"] it by auto
  with it 2 show ?thesis by (intro exI [of _ srv2] exI [of _ w2]) simp
qed

text \<open>The second pass sends the rest of a long answer.\<close>

lemma receive_rest:
  assumes "main_fixed srv" "answered bs srv" "app_inv I w"
    and "pending (app_can w) = (if length bs \<le> 7 then [] else [fc_frame 0x7E0 kFC_CTS 0 stm])"
  shows "\<exists>tp w1. receive_loop (app_can_if can) srv w = Some (srv\<lparr>us_transport := tp\<rparr>, w1) \<and>
      m_tx_state tp = TxIdle \<and> m_cfg tp = ecu_cfg \<and> \<not> m_data_ready tp \<and>
      app_view w1 = app_view w \<and> pending (app_can w1) = [] \<and>
      can_tick can (app_can w1) = can_tick can (app_can w) \<and>
      sent (app_can w1) = sent (app_can w) @
        (if length bs \<le> 7 then [] else cf_frames 0x7E8 1 (drop 6 bs))"
proof -
  note bus = app_bus [OF bus_driver_axioms, of "app_view w"]
  show ?thesis
  proof (cases "length bs \<le> 7")
    case True
    with assms(3,4) obtain w1 where "app_view w1 = app_view w" "pending (app_can w1) = []"
      "sent (app_can w1) = sent (app_can w)" "can_tick can (app_can w1) = can_tick can (app_can w)"
      "receive_loop (app_can_if can) srv w = Some (srv, w1)"
      using bus_driver.receive_done [OF bus, of w] by auto
    with assms(1,2) True show ?thesis
      by (intro exI [of _ "us_transport srv"] exI [of _ w1]) (simp add: main_fixed_def answered_def)
  next
    case False
    with assms(1-4) obtain tp w1 where
      "receive_loop (app_can_if can) srv w = Some (srv\<lparr>us_transport := tp\<rparr>, w1)"
      "m_tx_state tp = TxIdle" "m_cfg tp = ecu_cfg" "\<not> m_data_ready tp" "app_view w1 = app_view w"
      "pending (app_can w1) = []" "can_tick can (app_can w1) = can_tick can (app_can w)"
      "sent (app_can w1) = sent (app_can w) @ cf_frames 0x7E8 1 (drop 6 bs)"
      using bus_driver.receive_fc [OF bus, of srv "0x7E0" w stm] by (auto simp: main_fixed_def answered_def)
    with False show ?thesis by (intro exI [of _ tp] exI [of _ w1]) simp
  qed
qed

lemma pass_rest:
  assumes "main_fixed srv" "answered bs srv" "server_inv (app_inv I) srv" "app_inv I w"
    and "pending (app_can w) = (if length bs \<le> 7 then [] else [fc_frame 0x7E0 kFC_CTS 0 stm])"
  shows "\<exists>srv' w'. main_iteration can (\<lambda>d. d) (srv, w) = Some (srv', w') \<and>
    main_fixed srv' \<and> m_tx_state (us_transport srv') = TxIdle \<and>
    server_inv (app_inv I) srv' \<and> app_inv I w' \<and> pending (app_can w') = [] \<and>
    view_state (srv', w') = spec_tick (can_tick can (app_can w)) (view_state (srv, w)) \<and>
    sent (app_can w') = sent (app_can w) @
      (if length bs \<le> 7 then [] else cf_frames 0x7E8 1 (drop 6 bs))"
proof -
  obtain tp w1 where 1: "receive_loop (app_can_if can) srv w = Some (srv\<lparr>us_transport := tp\<rparr>, w1)"
      "m_tx_state tp = TxIdle" "m_cfg tp = ecu_cfg" "\<not> m_data_ready tp"
    and w1: "app_view w1 = app_view w" "pending (app_can w1) = []"
      "can_tick can (app_can w1) = can_tick can (app_can w)"
      "sent (app_can w1) = sent (app_can w) @
        (if length bs \<le> 7 then [] else cf_frames 0x7E8 1 (drop 6 bs))"
    using receive_rest [OF assms(1,2,4,5)] by blast
  let ?t = "can_tick can (app_can w)"
  let ?w = "w1\<lparr>app_sec := security_update ?t (app_sec w1)\<rparr>"
  let ?srv = "srv\<lparr>us_transport := isotp_update (app_can_if can) tp ?w,
      us_session := (if m_session (us_session srv) = Default
        then (us_session srv)\<lparr>m_s3_deadline := 0, m_timed_out := False\<rparr> else us_session srv)\<rparr>"
  have p: "server_process (app_can_if can) (srv\<lparr>us_transport := tp\<rparr>) ?w = Some (?srv, ?w)"
    using no_tick_no_timeout [of "srv\<lparr>us_transport := tp\<rparr>" "app_can_if can" ?w] assms(1) 1(4)
    by (simp add: main_fixed_def)
  have it: "main_iteration can (\<lambda>d. d) (srv, w) = Some (?srv, ?w)"
    using 1(1) p w1(3) by (simp add: main_iteration_def Let_def)
  have safe: "server_inv (app_inv I) ?srv \<and> app_inv I ?w"
    using main_iteration_safe [OF assms(3,4), of "\<lambda>d. d"] it by auto
  have "app_view ?w = (app_view w)\<lparr>app_sec := security_update ?t (app_sec (app_view w))\<rparr>"
    by (simp add: w1(1) [symmetric]) (simp add: app_view_def)
  then have "view_state (?srv, ?w) = spec_tick ?t (view_state (srv, w))"
    by (simp add: view_state_def spec_tick_def)
  with it safe assms(1) 1 w1 show ?thesis
    by (intro exI [of _ ?srv] exI [of _ ?w])
      (simp add: main_fixed_def isotp_update_idle isotp_update_ready)
qed

lemma exchange_step:
  assumes "main_fixed srv" "m_tx_state (us_transport srv) = TxIdle"
    and "server_inv (app_inv I) srv" "app_inv I w" "pending (app_can w) = []"
    and "req \<noteq> []" "length req < 4096" "length (segment 0x7E0 req) \<le> cap" "unat t + 1000 < 2 ^ 32"
    and "spec_answer req (spec_tick t (view_state (srv, w))) = (bs, s')" "length bs < 4096"
  shows "\<exists>srv' w'. exchange can sent deliver stm (t, t', req) (srv, w) = Some (srv', w') \<and>
    main_fixed srv' \<and> m_tx_state (us_transport srv') = TxIdle \<and>
    server_inv (app_inv I) srv' \<and> app_inv I w' \<and> pending (app_can w') = [] \<and>
    view_state (srv', w') = spec_tick t' s' \<and>
    sent (app_can w') = sent (app_can w) @ exchange_frames req bs"
proof -
  let ?d = "deliver (segment 0x7E0 req) t (app_can w)"
  let ?w = "w\<lparr>app_can := ?d\<rparr>"
  have d: "I ?d" "pending ?d = segment 0x7E0 req"
    using deliver_pending [of "app_can w" "segment 0x7E0 req" t] assms(4,5,8) segment_classic
    by (auto simp: app_inv_driver [of I])
  have w: "app_inv I ?w" using d(1) assms(4) by (simp add: app_inv_driver [of I] app_inv_driver [of "\<lambda>_. I _"])
  have spec: "spec_answer req (spec_tick (can_tick can (app_can ?w)) (view_state (srv, ?w))) = (bs, s')"
    using assms(10) by (simp add: deliver_tick view_state_def)
  have tick: "unat (can_tick can (app_can ?w)) + 1000 < 2 ^ 32" using assms(9) by (simp add: deliver_tick)
  obtain srv1 w1 where 1: "\<And>tick. main_iteration can tick (srv, ?w) =
      Some (srv1, w1\<lparr>app_can := tick (app_can w1)\<rparr>)"
    "main_fixed srv1" "answered bs srv1" "view_state (srv1, w1) = s'" "server_inv (app_inv I) srv1"
    "app_inv I w1" "pending (app_can w1) = []"
    "sent (app_can w1) = sent (app_can w) @ fc_reply ecu_cfg req @ first_frames bs"
    using pass_request [OF assms(1-3) w _ assms(6,7) spec assms(11) tick] d(2)
    by (auto simp: deliver_sent)
  let ?fs = "if length bs \<le> 7 then [] else [fc_frame 0x7E0 kFC_CTS 0 stm]"
  let ?d1 = "deliver ?fs t' (app_can w1)"
  let ?w1 = "w1\<lparr>app_can := ?d1\<rparr>"
  have "1 \<le> length (segment 0x7E0 req)" by (simp add: segment_def)
  then have "1 \<le> cap" using assms(8) by (rule order_trans)
  then have "length ?fs \<le> cap" by simp
  moreover have "\<forall>f \<in> set ?fs. classic_frame f"
    by (simp add: classic_frame_def fc_frame_def put_simps)
  ultimately have d1: "I ?d1" "pending ?d1 = ?fs"
    using deliver_pending [of "app_can w1" ?fs t'] 1(6,7) by (auto simp: app_inv_driver [of I])
  have w1: "app_inv I ?w1"
    using d1(1) 1(6) by (simp add: app_inv_driver [of I] app_inv_driver [of "\<lambda>_. I _"])
  obtain srv2 w2 where 2: "main_iteration can (\<lambda>d. d) (srv1, ?w1) = Some (srv2, w2)"
    "main_fixed srv2" "m_tx_state (us_transport srv2) = TxIdle" "server_inv (app_inv I) srv2"
    "app_inv I w2" "pending (app_can w2) = []"
    "view_state (srv2, w2) = spec_tick t' s'"
    "sent (app_can w2) = sent (app_can w1) @ (if length bs \<le> 7 then [] else cf_frames 0x7E8 1 (drop 6 bs))"
    using pass_rest [OF 1(2,3,5) w1, of stm] d1(2) 1(4)
    by (auto simp: deliver_sent deliver_tick view_state_def)
  have fc: "tester_fc stm (drop (length (sent (app_can w))) (sent (app_can w1))) = ?fs"
    unfolding 1(8) append_eq_conv_conj [THEN iffD1, OF refl, THEN conjunct2, symmetric]
    by (rule tester_fc_frames)
  have "exchange can sent deliver stm (t, t', req) (srv, w) = Some (srv2, w2)"
    using 1(1) 2(1) fc by (simp add: exchange_def Let_def)
  moreover have "sent (app_can w2) = sent (app_can w) @ exchange_frames req bs"
    using 2(8) 1(8) by (auto simp: exchange_frames_def first_frames_def segment_def)
  ultimately show ?thesis using 2(2-7) by blast
qed

lemma conversation_runs:
  assumes "main_fixed srv" "m_tx_state (us_transport srv) = TxIdle"
    and "server_inv (app_inv I) srv" "app_inv I w" "pending (app_can w) = []"
    and "\<forall>(t, t', req) \<in> set xs. req \<noteq> [] \<and> length req < 4096 \<and>
      length (segment 0x7E0 req) \<le> cap \<and> unat t + 1000 < 2 ^ 32"
    and "spec_run xs (view_state (srv, w)) = (bss, s')" "\<forall>bs \<in> set bss. length bs < 4096"
  shows "\<exists>srv' w'. conversation can sent deliver stm xs (srv, w) = Some (srv', w') \<and>
    view_state (srv', w') = s' \<and>
    sent (app_can w') = sent (app_can w) @
      concat (map2 (\<lambda>(t, t', req). exchange_frames req) xs bss)"
  using assms
proof (induction xs arbitrary: srv w bss)
  case Nil
  then show ?case by simp
next
  case (Cons x xs)
  obtain t t' req where x: "x = (t, t', req)" by (cases x)
  obtain bs s1 where a: "spec_answer req (spec_tick t (view_state (srv, w))) = (bs, s1)"
    by (metis prod.collapse)
  obtain bss' where bss: "bss = bs # bss'" and run: "spec_run xs (spec_tick t' s1) = (bss', s')"
    using Cons.prems(7) a by (auto simp: x split: prod.splits)
  have len: "length bs < 4096" "\<forall>bs \<in> set bss'. length bs < 4096" using Cons.prems(8) bss by simp_all
  obtain srv1 w1 where 1: "exchange can sent deliver stm (t, t', req) (srv, w) = Some (srv1, w1)"
    "main_fixed srv1" "m_tx_state (us_transport srv1) = TxIdle" "server_inv (app_inv I) srv1"
    "app_inv I w1" "pending (app_can w1) = []" "view_state (srv1, w1) = spec_tick t' s1"
    "sent (app_can w1) = sent (app_can w) @ exchange_frames req bs"
    using exchange_step [OF Cons.prems(1-5) _ _ _ _ a len(1), of stm t'] Cons.prems(6) x by auto
  with Cons.IH [OF 1(2-6), of bss'] Cons.prems(6) run len(2) show ?case
    by (auto simp: x bss)
qed

end

section \<open>The program implements the abstract ECU\<close>

text \<open>The state of the abstract ECU at start-up.\<close>

definition spec_init :: ecu_state where
  "spec_init = (Default, main_app ())"

lemma main_runs:
  assumes "bus_driver can I pending sent cap deliver"
    and "I drv" "pending drv = []" "sent drv = []"
    and "length g = 4096" "length g' = 4096" "length g'' = 4096"
    and "\<forall>(t, t', req) \<in> set xs. req \<noteq> [] \<and> length req < 4096 \<and>
      length (segment 0x7E0 req) \<le> cap \<and> unat t + 1000 < 2 ^ 32"
    and "spec_run xs spec_init = (bss, s)" "\<forall>bs \<in> set bss. length bs < 4096"
  shows "\<exists>srv w. conversation can sent deliver stm xs (main_server g g' g'', main_app drv) =
      Some (srv, w) \<and>
    sent (app_can w) = concat (map2 (\<lambda>(t, t', req). exchange_frames req) xs bss) \<and>
    (m_session (us_session srv), app_view w) = s"
proof -
  let ?srv = "main_server g g' g'' :: 'a ecu_app uds_server" and ?w = "main_app drv"
  have fixed: "main_fixed ?srv" "m_tx_state (us_transport ?srv) = TxIdle"
    by (simp_all add: main_fixed_def session_new_def isotp_new_def)
  have inv: "server_inv (app_inv I) ?srv" "app_inv I ?w" "pending (app_can ?w) = []"
    "sent (app_can ?w) = []"
    using main_server_inv [OF assms(5-7)] app_inv_main [of I, OF assms(2)] assms(3,4)
    by (simp_all add: main_app_def)
  have init: "view_state (?srv, ?w) = spec_init"
    by (simp add: view_state_def spec_init_def session_new_def app_view_def main_app_def)
  from bus_driver.conversation_runs [OF assms(1) fixed inv(1-3) assms(8), of bss s stm,
      unfolded init inv(4), OF assms(9,10)]
  show ?thesis by (auto simp: view_state_def)
qed

text \<open>An unknown service, and the vehicle identification number.\<close>

lemma spec_unknown: "spec_answer [0x99] s = ([0x7F, 0x99, 0x11], s)"
  by (cases s) (simp add: spec_answer_def main_services_def app_service_def tester_present_service_def)

lemma spec_vin:
  assumes "app_rdbi a = [vin_entry, sw_entry]"
  shows "spec_answer [0x22, 0xF1, 0x90] (st, a) = (0x62 # 0xF1 # 0x90 # kVin, (st, a))"
proof -
  have kv: "length kVin = 17" by (simp add: kVin_def)
  have "rdbi_handle [vin_entry, sw_entry] [0x22, 0xF1, 0x90] (replicate kMaxResp 0) (kSwVer a) =
      (\<lparr>r_send = True, r_buf = put 0 (0x62 # 0xF1 # 0x90 # kVin) (replicate kMaxResp 0), r_len = 20\<rparr>,
       kSwVer a)"
    using did_read_reply [OF vin_serves, of "replicate kMaxResp 0" "kSwVer a"] kv
    by (simp add: hi8_def lo8_def kMaxResp_def)
  then show ?thesis
    using assms kv
    by (simp add: spec_answer_def main_services_def app_service_def tester_present_service_def
        reply_bytes_def put_simps)
qed

text \<open>
  C2. The program of \<open>main\<close> implements the abstract ECU: on every driver that takes the frames
  it is given and hands out the frames that arrive, whatever requests of 1 to 4095 bytes a
  tester sends, at whatever times, two passes of the loop for each of them put exactly the
  answers of the abstract ECU on the bus, segmented according to ISO-TP and the long ones
  after the tester's Continue-To-Send, and leave the session and the application data of the
  abstract ECU. All that can be seen of buffers and frames is the flow control frame for a long
  request. The driver holds the frames of a request, no answer fills the buffer, and no request
  falls into the last second before the clock wraps.
\<close>

theorem main_implements_spec:
  assumes "bus_driver can I pending sent cap deliver"
    and "I drv" "pending drv = []" "sent drv = []"
    and "length g = 4096" "length g' = 4096" "length g'' = 4096"
    and "\<forall>(t, t', req) \<in> set xs. req \<noteq> [] \<and> length req < 4096 \<and>
      length (segment 0x7E0 req) \<le> cap \<and> unat t + 1000 < 2 ^ 32"
    and "spec_run xs spec_init = (bss, s)" "\<forall>bs \<in> set bss. length bs < 4096"
  shows "\<exists>srv w. conversation can sent deliver stm xs (main_server g g' g'', main_app drv) =
      Some (srv, w) \<and>
    sent (app_can w) = concat (map2 (\<lambda>(t, t', req). exchange_frames req) xs bss) \<and>
    (m_session (us_session srv), app_view w) = s"
  using assms by (rule main_runs)

text \<open>
  That no answer fills the buffer has to be assumed: a tester that asks 673 times for the
  software version and three times for the vehicle identification number, in one request, gets
  an answer of exactly 4096 bytes, which the transport layer announces as 0 bytes.
\<close>

lemma length_did_record [simp]:
  "length (did_record items) = (\<Sum>(d, bs) \<leftarrow> items. 2 + length bs)"
  by (induction items) auto

lemma sw_serves: "length sw = 4 \<Longrightarrow> serves [vin_entry, sw_entry] sw 0xF189 sw"
  by (auto simp: serves_def find_did_def vin_entry_def sw_entry_def did_sw_def)

lemma answer_fills_buffer:
  assumes "app_rdbi a = [vin_entry, sw_entry]" "length (kSwVer a) = 4"
  shows "\<exists>req. length req = 1353 \<and> length (fst (spec_answer req (st, a))) = 4096"
proof -
  let ?items = "replicate 673 (0xF189 :: u16, kSwVer a) @ replicate 3 (0xF190, kVin)"
  let ?req = "0x22 # did_bytes (map fst ?items)"
  let ?rec = "did_record ?items"
  have len: "length ?rec = 4095" by (simp add: assms(2) kVin_def sum_list_replicate)
  have "\<forall>(d, bs) \<in> set ?items. serves [vin_entry, sw_entry] (kSwVer a) d bs"
    using sw_serves [OF assms(2)] vin_serves by auto
  from rdbi_served [OF _ this, of "replicate kMaxResp 0"] len
  obtain r where "rdbi_handle [vin_entry, sw_entry] ?req (replicate kMaxResp 0) (kSwVer a) = (r, kSwVer a)"
    "r_send r" "reply_bytes r = 0x62 # ?rec"
    by (cases "rdbi_handle [vin_entry, sw_entry] ?req (replicate kMaxResp 0) (kSwVer a)")
      (simp add: kMaxResp_def)
  then have "fst (spec_answer ?req (st, a)) = 0x62 # ?rec"
    using assms(1)
    by (simp add: spec_answer_def main_services_def app_service_def tester_present_service_def
        del: map_append)
  then have "length (fst (spec_answer ?req (st, a))) = 4096" using len by simp
  moreover have "length ?req = 1353" by simp
  ultimately show ?thesis by blast
qed

theorem main_implements_spec_witness:
  "\<exists>srv w. conversation (logged test_can_if) snd test_deliver 0
      [(5, 6, [0x99]), (100, 300, [0x22, 0xF1, 0x90])]
      (main_server (replicate 4096 0) (replicate 4096 0) (replicate 4096 0),
       main_app (test_can_new (replicate 32 zero_frame) (replicate 32 zero_frame), [])) =
      Some (srv, w) \<and>
    snd (app_can w) = [sf_frame 0x7E8 [0x7F, 0x99, 0x11]] @ segment 0x7E8 (0x62 # 0xF1 # 0x90 # kVin)"
proof -
  let ?drv = "(test_can_new (replicate 32 zero_frame) (replicate 32 zero_frame), [])"
  let ?xs = "[(5, 6, [0x99]), (100, 300, [0x22, 0xF1, 0x90])] :: (u32 \<times> u32 \<times> u8 list) list"
  have t: "app_rdbi (main_app ()) = [vin_entry, sw_entry]" by (rule main_tables)
  obtain s where run: "spec_run ?xs spec_init = ([[0x7F, 0x99, 0x11], 0x62 # 0xF1 # 0x90 # kVin], s)"
    using t by (auto simp: spec_unknown spec_vin spec_tick_def spec_init_def)
  have kv: "length kVin = 17" by (simp add: kVin_def)
  have "\<exists>srv w. conversation (logged test_can_if) snd test_deliver 0 ?xs
      (main_server (replicate 4096 0) (replicate 4096 0) (replicate 4096 0), main_app ?drv) =
      Some (srv, w) \<and>
    snd (app_can w) = concat (map2 (\<lambda>(t, t', req). exchange_frames req) ?xs
      [[0x7F, 0x99, 0x11], 0x62 # 0xF1 # 0x90 # kVin]) \<and>
    (m_session (us_session srv), app_view w) = s"
    by (rule main_implements_spec [OF test_bus.bus_driver_axioms _ _ _ _ _ _ _ run])
      (use test_can_fresh in \<open>auto simp: segment_def kv\<close>)
  then show ?thesis by (auto simp: exchange_frames_def fc_reply_def segment_def)
qed

end
