(* ===== verification/F4_Bus.thy ===== *)
theory F4_Bus
  imports Ecu_Spec
begin

text \<open>
  The example program on the F4 driver and a live bus. The HAL is a parameter: all that is
  needed of it is that a transmission is accepted, that a frame which has arrived is what the
  next receive interrupt reads, and that the tick is the clock.
\<close>

section \<open>The driver between start-up and switch-off\<close>

text \<open>
  The members that only the constructor sets have their values: the HAL handle is there and
  the FIFO is \<open>fifo\<close>. What changes is the ring.
\<close>

definition f4_started :: "u32 \<Rightarrow> can_frame rx_ring \<Rightarrow> stm32_can" where
  "f4_started fifo r = \<lparr>m_hal_can = True, m_rx_fifo = fifo, m_rx_buf = r, m_silent_mode = False\<rparr>"

definition f4_on_bus :: "'h bx_hal \<Rightarrow> u32 \<Rightarrow> (can_frame rx_ring \<times> 'h) can_if" where
  "f4_on_bus hal fifo =
     \<lparr>can_send = (\<lambda>f (r, h). case can_send (f4_can hal) f (f4_started fifo r, h) of
                    (ok, (d, h)) \<Rightarrow> (ok, (m_rx_buf d, h))),
      can_receive = (\<lambda>(r, h). case can_receive (f4_can hal) (f4_started fifo r, h) of
                    (f, (d, h)) \<Rightarrow> (f, (m_rx_buf d, h))),
      can_tick = (\<lambda>(r, h). can_tick (f4_can hal) (f4_started fifo r, h))\<rparr>"

text \<open>Every arriving frame raises the receive interrupt; then the clock shows \<open>t\<close>.\<close>

definition f4_arrivals ::
    "'h bx_hal \<Rightarrow> (can_frame \<Rightarrow> 'h \<Rightarrow> 'h) \<Rightarrow> can_frame list \<Rightarrow> stm32_can \<times> 'h \<Rightarrow> stm32_can \<times> 'h" where
  "f4_arrivals hal arrive = fold (\<lambda>f (d, h). bx_on_rx_irq kRxBufSize_f4 hal d (arrive f h))"

definition f4_deliver ::
    "'h bx_hal \<Rightarrow> u32 \<Rightarrow> (can_frame \<Rightarrow> 'h \<Rightarrow> 'h) \<Rightarrow> (u32 \<Rightarrow> 'h \<Rightarrow> 'h) \<Rightarrow> can_frame list \<Rightarrow> u32 \<Rightarrow>
     (can_frame rx_ring \<times> 'h) \<times> can_frame list \<Rightarrow> (can_frame rx_ring \<times> 'h) \<times> can_frame list" where
  "f4_deliver hal fifo arrive clock fs t = (\<lambda>((r, h), l).
     case f4_arrivals hal arrive fs (f4_started fifo r, h) of
       (d, h) \<Rightarrow> ((m_rx_buf d, clock t h), l))"

lemma f4_on_bus_simps [simp]:
  "can_send (logged (f4_on_bus hal fifo)) f ((r, h), l) =
    (fst (HAL_CAN_AddTxMessage hal (bx_header hal f) (cf_data f) h),
     ((r, snd (HAL_CAN_AddTxMessage hal (bx_header hal f) (cf_data f) h)),
      if fst (HAL_CAN_AddTxMessage hal (bx_header hal f) (cf_data f) h) then l @ [f] else l))"
  "can_receive (logged (f4_on_bus hal fifo)) ((r, h), l) =
    (fst (ring_receive kRxBufSize_f4 r), ((snd (ring_receive kRxBufSize_f4 r), h), l))"
  "can_tick (f4_on_bus hal fifo) (r, h) = HAL_GetTick hal h"
  by (simp_all add: logged_def f4_on_bus_def f4_can_def stm32_send_def bx_receive_def f4_started_def
      split_def Let_def)

text \<open>What is needed of the HAL.\<close>

locale bx_bus =
  fixes hal :: "'h bx_hal" and fifo :: u32
    and arrive :: "can_frame \<Rightarrow> 'h \<Rightarrow> 'h" and clock :: "u32 \<Rightarrow> 'h \<Rightarrow> 'h"
  assumes tx_accepted: "fst (HAL_CAN_AddTxMessage hal hdr data h)"
    and tx_tick: "HAL_GetTick hal (snd (HAL_CAN_AddTxMessage hal hdr data h)) = HAL_GetTick hal h"
    and rx_arrived: "classic_frame f \<Longrightarrow> \<exists>hdr h'.
      HAL_CAN_GetRxMessage hal fifo (arrive f h) = (Some (hdr, cf_data f), h') \<and>
      bx_frame hal hdr (cf_data f) = f"
    and clock_tick: "HAL_GetTick hal (clock t h) = t"
begin

lemma arrivals_stored:
  assumes "ring_inv kRxBufSize_f4 r" "\<forall>f \<in> set fs. classic_frame f"
    and "length (ring_content kRxBufSize_f4 r) + length fs \<le> 15"
  shows "\<exists>r' h'. f4_arrivals hal arrive fs (f4_started fifo r, h) = (f4_started fifo r', h') \<and>
    ring_inv kRxBufSize_f4 r' \<and> ring_content kRxBufSize_f4 r' = ring_content kRxBufSize_f4 r @ fs"
  using assms
proof (induction fs arbitrary: r h)
  case (Cons f fs)
  let ?r = "ring_store kRxBufSize_f4 f r"
  obtain hdr h' where "HAL_CAN_GetRxMessage hal fifo (arrive f h) = (Some (hdr, cf_data f), h')"
    "bx_frame hal hdr (cf_data f) = f" using rx_arrived [of f h] Cons.prems(2) by auto
  then have irq: "bx_on_rx_irq kRxBufSize_f4 hal (f4_started fifo r) (arrive f h) = (f4_started fifo ?r, h')"
    by (simp add: bx_on_rx_irq_def f4_started_def)
  have c: "ring_content kRxBufSize_f4 ?r = ring_content kRxBufSize_f4 r @ [f]"
    using ring_content_store [OF Cons.prems(1), of f] Cons.prems(3) by (simp add: kRxBufSize_f4_def)
  have "\<exists>r' h''. f4_arrivals hal arrive fs (f4_started fifo ?r, h') = (f4_started fifo r', h'') \<and>
    ring_inv kRxBufSize_f4 r' \<and> ring_content kRxBufSize_f4 r' = ring_content kRxBufSize_f4 ?r @ fs"
    using Cons.prems ring_inv_store [OF Cons.prems(1)] by (intro Cons.IH) (simp_all only: c, auto)
  then show ?case using irq c by (simp add: f4_arrivals_def)
qed (auto simp: f4_arrivals_def)

lemma deliver_stored:
  assumes "ring_ok kRxBufSize_f4 (fst (fst w))" "ring_content kRxBufSize_f4 (fst (fst w)) = []"
    "length fs \<le> 15" "\<forall>f \<in> set fs. classic_frame f"
  shows "ring_ok kRxBufSize_f4 (fst (fst (f4_deliver hal fifo arrive clock fs t w))) \<and>
    ring_content kRxBufSize_f4 (fst (fst (f4_deliver hal fifo arrive clock fs t w))) = fs"
proof -
  obtain r h l where w: "w = ((r, h), l)" by (metis surj_pair)
  from arrivals_stored [of r fs h] assms show ?thesis
    by (auto simp: w ring_ok_def f4_deliver_def f4_started_def simp del: length_ring_content)
qed

lemma deliver_clock: "can_tick (logged (f4_on_bus hal fifo)) (f4_deliver hal fifo arrive clock fs t w) = t"
  by (simp add: f4_deliver_def clock_tick split: prod.split)

lemma deliver_log: "snd (f4_deliver hal fifo arrive clock fs t w) = snd w"
  by (simp add: f4_deliver_def split: prod.split)

end

sublocale bx_bus \<subseteq> f4_ring: ring_driver "logged (f4_on_bus hal fifo)" kRxBufSize_f4 "\<lambda>w. fst (fst w)"
  by unfold_locales (simp_all add: split_paired_all)

sublocale bx_bus \<subseteq> f4_bus: bus_driver "logged (f4_on_bus hal fifo)"
  "\<lambda>w. ring_ok kRxBufSize_f4 (fst (fst w))" "\<lambda>w. ring_content kRxBufSize_f4 (fst (fst w))" snd 15
  "f4_deliver hal fifo arrive clock"
  by unfold_locales
    (simp_all add: deliver_stored deliver_log deliver_clock split_paired_all tx_accepted tx_tick)

section \<open>The program on this bus\<close>

text \<open>
  The ring of the F4 driver takes the frames of requests of up to 104 bytes that arrive between
  two passes; on such requests the program is the abstract ECU.
\<close>

lemma segment_fits_f4: "length req \<le> 104 \<Longrightarrow> length (segment i req) \<le> 15"
  by (auto simp: segment_def length_cf_frames)

context bx_bus
begin

lemma program_answers:
  assumes "length ring = 16" "length g = 4096" "length g' = 4096" "length g'' = 4096"
    and "\<forall>(t, t', req) \<in> set xs. req \<noteq> [] \<and> length req \<le> 104 \<and> unat t + 1000 < 2 ^ 32"
    and "spec_run xs spec_init = (bss, s)" "\<forall>bs \<in> set bss. length bs < 4096"
  shows "\<exists>srv w. conversation (logged (f4_on_bus hal fifo)) snd (f4_deliver hal fifo arrive clock) stm xs
      (main_server g g' g'', main_app ((ring_new ring, h), [])) = Some (srv, w) \<and>
    snd (app_can w) = concat (map2 (\<lambda>(t, t', req). exchange_frames req) xs bss) \<and>
    (m_session (us_session srv), app_view w) = s"
proof (rule main_runs [OF f4_bus.bus_driver_axioms _ _ _ assms(2-4) _ assms(6,7)])
  show "ring_ok kRxBufSize_f4 (fst (fst ((ring_new ring, h), [] :: can_frame list)))"
    "ring_content kRxBufSize_f4 (fst (fst ((ring_new ring, h), [] :: can_frame list))) = []"
    using assms(1) by (simp_all add: ring_ok_new ring_content_new kRxBufSize_f4_def)
  show "\<forall>(t, t', req) \<in> set xs. req \<noteq> [] \<and> length req < 4096 \<and>
      length (segment 0x7E0 req) \<le> 15 \<and> unat t + 1000 < 2 ^ 32"
    using assms(5) segment_fits_f4 by fastforce
qed simp

end

text \<open>A HAL with one receive mailbox and a clock.\<close>

definition mailbox_hal :: "(can_frame option \<times> u32) bx_hal" where
  "mailbox_hal = \<lparr>CAN_ID_EXT = 4, CAN_ID_STD = 0, CAN_FILTER_FIFO0 = 0, CAN_FILTER_FIFO1 = 1,
     HAL_CAN_AddTxMessage = (\<lambda>hdr data h. (True, h)),
     HAL_CAN_GetRxMessage = (\<lambda>fifo (m, t). case m of
        None \<Rightarrow> (None, (None, t))
      | Some f \<Rightarrow> (Some (\<lparr>StdId = cf_id f, ExtId = cf_id f, IDE = (if cf_extended f then 4 else 0),
          DLC = ucast (cf_dlc f)\<rparr>, cf_data f), (None, t))),
     HAL_GetTick = snd, HAL_CAN_ConfigFilter = (\<lambda>flt h. (True, h))\<rparr>"

definition mailbox_arrive :: "can_frame \<Rightarrow> can_frame option \<times> u32 \<Rightarrow> can_frame option \<times> u32" where
  "mailbox_arrive f = (\<lambda>(m, t). (Some f, t))"

definition mailbox_clock :: "u32 \<Rightarrow> can_frame option \<times> u32 \<Rightarrow> can_frame option \<times> u32" where
  "mailbox_clock t = (\<lambda>(m, _). (m, t))"

interpretation mailbox: bx_bus mailbox_hal fifo mailbox_arrive mailbox_clock for fifo
  by unfold_locales
    (auto simp: mailbox_hal_def mailbox_arrive_def mailbox_clock_def bx_frame_def split: prod.splits)

text \<open>The identification number on the F4 driver.\<close>

lemma f4_reports_vin:
  "\<exists>srv w. conversation (logged (f4_on_bus mailbox_hal 0)) snd
      (f4_deliver mailbox_hal 0 mailbox_arrive mailbox_clock) 0 [(100, 300, [0x22, 0xF1, 0x90])]
      (main_server (replicate 4096 0) (replicate 4096 0) (replicate 4096 0),
       main_app ((ring_new (replicate 16 zero_frame), (None, 0)), [])) = Some (srv, w) \<and>
    snd (app_can w) = segment 0x7E8 (0x62 # 0xF1 # 0x90 # kVin)"
proof -
  have t: "app_rdbi (main_app ()) = [vin_entry, sw_entry]" by (rule main_tables)
  obtain s where "spec_run [(100, 300, [0x22, 0xF1, 0x90])] spec_init =
      ([0x62 # 0xF1 # 0x90 # kVin], s)"
    using t by (auto simp: spec_vin spec_tick_def spec_init_def)
  from mailbox.program_answers [OF _ _ _ _ _ this, of "replicate 16 zero_frame"
      "replicate 4096 0" "replicate 4096 0" "replicate 4096 0" 0 0 "(None, 0)"]
  show ?thesis by (auto simp: exchange_frames_def fc_reply_def segment_def kVin_def)
qed

end
