(* ===== verification/Ecu_Reference.thy ===== *)
theory Ecu_Reference
  imports Ecu_Spec
begin

text \<open>
  The example program as a table of requests and answers: what a tester can rely on, written on
  the bytes of the messages alone. It has no buffers, no callbacks, no tables of identifiers,
  levels or routines and no handler of the library; its state is what the answers depend on. The
  abstract ECU of \<open>Ecu_Spec\<close>, whose services are the handlers of the code, is shown to give
  the same answers, and with it the program on every bus.
\<close>

section \<open>The state\<close>

text \<open>
  The active session, the software version, the state of the seed generator, the seed that
  waits for its key, the lock of the security level, and the codes with their status.
\<close>

record ecu =
  e_session :: SessionType
  e_version :: "u8 list"
  e_random :: u32
  e_challenge :: "u32 option"
  e_unlocked :: bool
  e_fails :: u8
  e_locked :: u32
  e_clock :: u32
  e_dtcs :: "(u32 \<times> u8) list"

definition ref_init :: ecu where
  "ref_init = \<lparr>e_session = Default, e_version = [1, 0, 5, 0], e_random = 0xDEADBEEF,
     e_challenge = None, e_unlocked = False, e_fails = 0, e_locked = 0, e_clock = 0,
     e_dtcs = [(0x010101, 0x50), (0x020202, 0x50)]\<rparr>"

section \<open>The answers\<close>

definition refuse :: "u8 \<Rightarrow> u8 \<Rightarrow> u8 list" where
  "refuse sid code = [0x7F, sid, code]"

text \<open>A positive answer whose sub-function may ask for silence.\<close>

definition unless_silent :: "u8 \<Rightarrow> u8 list \<Rightarrow> u8 list" where
  "unless_silent sub bs = (if sub AND 0x80 \<noteq> 0 then [] else bs)"

fun ref_tester_present :: "u8 list \<Rightarrow> u8 list" where
  "ref_tester_present [] = refuse 0x3E 0x13"
| "ref_tester_present (s # _) =
     (if s AND 0x7F \<noteq> 0 then refuse 0x3E 0x12 else unless_silent s [0x7E, 0])"

text \<open>P2 is 50 ms, P2* is 500 times 10 ms.\<close>

fun ref_session :: "u8 list \<Rightarrow> SessionType \<Rightarrow> u8 list \<times> SessionType" where
  "ref_session [] st = (refuse 0x10 0x13, st)"
| "ref_session (s # _) st =
     (let sub = s AND 0x7F; ok = unless_silent s [0x50, sub, 0x00, 0x32, 0x01, 0xF4] in
      if sub = 1 then (ok, Default)
      else if sub = 2 then (if st = Default then (ok, Programming) else (refuse 0x10 0x22, st))
      else if sub = 3 then (ok, Extended)
      else (refuse 0x10 0x12, st))"

fun ref_reset :: "u8 list \<Rightarrow> u8 list" where
  "ref_reset [] = refuse 0x11 0x13"
| "ref_reset (s # _) =
     (let sub = s AND 0x7F in
      if sub \<in> {1, 2, 3} then unless_silent s [0x51, sub] else refuse 0x11 0x12)"

definition ref_data :: "u8 list \<Rightarrow> u8 \<Rightarrow> u8 \<Rightarrow> u8 list option" where
  "ref_data version a b =
     (if a = 0xF1 \<and> b = 0x90 then Some kVin
      else if a = 0xF1 \<and> b = 0x89 then Some version else None)"

text \<open>The answer grows from \<open>acc\<close>; there is room for 4096 bytes.\<close>

fun ref_read_from :: "u8 list \<Rightarrow> u8 list \<Rightarrow> u8 list \<Rightarrow> u8 list" where
  "ref_read_from version (a # b # ids) acc =
     (case ref_data version a b of
        None \<Rightarrow> refuse 0x22 0x31
      | Some bs \<Rightarrow>
          if length acc + 2 > 4095 then refuse 0x22 0x14
          else if length acc + 2 + length bs > 4096 then refuse 0x22 0x22
          else ref_read_from version ids (acc @ a # b # bs))"
| "ref_read_from version ids acc = acc"

definition ref_read :: "u8 list \<Rightarrow> u8 list \<Rightarrow> u8 list" where
  "ref_read ids version =
     (if ids = [] \<or> odd (length ids) then refuse 0x22 0x13 else ref_read_from version ids [0x62])"

fun ref_write :: "u8 list \<Rightarrow> u8 list \<Rightarrow> u8 list \<times> u8 list" where
  "ref_write (a # b # d # ds) version =
     (if a \<noteq> 0xF1 \<or> b \<noteq> 0x89 then (refuse 0x2E 0x31, version)
      else if length ds \<noteq> 3 then (refuse 0x2E 0x72, version)
      else ([0x6E, 0xF1, 0x89], d # ds))"
| "ref_write _ version = (refuse 0x2E 0x13, version)"

text \<open>Seeds and keys: the mask is \<open>0xDEAD1234\<close>, three attempts, ten seconds of delay.\<close>

definition ref_seed :: "ecu \<Rightarrow> u8 list \<times> ecu" where
  "ref_seed e =
     (if e_unlocked e then ([0x67, 0x01, 0, 0, 0, 0], e)
      else let seed = xorshift32 (e_random e)
           in (0x67 # 0x01 # word_bytes seed, e\<lparr>e_random := seed, e_challenge := Some seed\<rparr>))"

definition ref_key :: "u8 list \<Rightarrow> ecu \<Rightarrow> u8 list \<times> ecu" where
  "ref_key key e =
     (case e_challenge e of
        None \<Rightarrow> (refuse 0x27 0x24, e)
      | Some seed \<Rightarrow>
          let e = e\<lparr>e_challenge := None\<rparr> in
          if key = word_bytes (seed XOR 0xDEAD1234)
          then ([0x67, 0x02], e\<lparr>e_unlocked := True, e_fails := 0\<rparr>)
          else if e_fails e + 1 \<ge> 3
          then (refuse 0x27 0x36, e\<lparr>e_fails := e_fails e + 1, e_locked := e_clock e + 10000\<rparr>)
          else (refuse 0x27 0x35, e\<lparr>e_fails := e_fails e + 1\<rparr>))"

fun ref_security :: "u8 list \<Rightarrow> ecu \<Rightarrow> u8 list \<times> ecu" where
  "ref_security [] e = (refuse 0x27 0x13, e)"
| "ref_security (s # key) e =
     (if s \<notin> {1, 2} then (refuse 0x27 0x12, e)
      else if e_locked e \<noteq> 0 \<and> e_clock e < e_locked e then (refuse 0x27 0x37, e)
      else if e_session e \<noteq> Extended then (refuse 0x27 0x7F, e)
      else if s = 1 then ref_seed e else ref_key key e)"

fun ref_routine :: "u8 list \<Rightarrow> SessionType \<Rightarrow> u8 list" where
  "ref_routine (s # a # b # _) st =
     (if s \<notin> {1, 2, 3} then refuse 0x31 0x12
      else if a \<noteq> 3 \<or> b \<noteq> 1 then refuse 0x31 0x31
      else if st \<noteq> Programming then refuse 0x31 0x7F
      else if s = 1 then [0x71, 0x01, 0x03, 0x01, 0x10]
      else if s = 2 then refuse 0x31 0x12
      else refuse 0x31 0x24)"
| "ref_routine _ st = refuse 0x31 0x13"

definition ref_selected :: "u8 \<Rightarrow> (u32 \<times> u8) list \<Rightarrow> (u32 \<times> u8) list" where
  "ref_selected msk = filter (\<lambda>(c, st). msk = 0xFF \<or> st AND msk \<noteq> 0)"

fun ref_read_dtc :: "u8 list \<Rightarrow> (u32 \<times> u8) list \<Rightarrow> u8 list" where
  "ref_read_dtc [] dtcs = refuse 0x19 0x13"
| "ref_read_dtc [s] dtcs = refuse 0x19 (if s \<in> {0x01, 0x02, 0x0A} then 0x13 else 0x12)"
| "ref_read_dtc (s # msk # _) dtcs =
     (if s = 0x01 then [0x59, 0x01, 0xFF, 0x01, 0, of_nat (length (ref_selected msk dtcs))]
      else if s \<in> {0x02, 0x0A} then
        0x59 # s # 0xFF # concat (map (\<lambda>(c, st). [byte_at 2 c, byte_at 1 c, byte_at 0 c, st AND msk])
          (ref_selected msk dtcs))
      else refuse 0x19 0x12)"

fun ref_clear_dtc :: "u8 list \<Rightarrow> (u32 \<times> u8) list \<Rightarrow> u8 list \<times> (u32 \<times> u8) list" where
  "ref_clear_dtc (g1 # g2 # g3 # _) dtcs =
     (let group = be24 g1 g2 g3 in
      ([0x54], map (\<lambda>(c, st). (c, if group = 0xFFFFFF \<or> c AND group = group then 0x50 else st)) dtcs))"
| "ref_clear_dtc _ dtcs = (refuse 0x14 0x13, dtcs)"

fun ref_control_dtc :: "u8 list \<Rightarrow> SessionType \<Rightarrow> u8 list" where
  "ref_control_dtc [] st = refuse 0x85 0x13"
| "ref_control_dtc (s # _) st =
     (let sub = s AND 0x7F in
      if sub \<notin> {1, 2} then refuse 0x85 0x12
      else if st = Default then refuse 0x85 0x7F
      else unless_silent s [0xC5, sub])"

fun ref_answer :: "u8 list \<Rightarrow> ecu \<Rightarrow> u8 list \<times> ecu" where
  "ref_answer [] e = ([], e)"
| "ref_answer (sid # data) e =
     (if sid = 0x3E then (ref_tester_present data, e)
      else if sid = 0x10 then
        (case ref_session data (e_session e) of (bs, st) \<Rightarrow> (bs, e\<lparr>e_session := st\<rparr>))
      else if sid = 0x11 then (ref_reset data, e)
      else if sid = 0x22 then (ref_read data (e_version e), e)
      else if sid = 0x2E then
        (case ref_write data (e_version e) of (bs, v) \<Rightarrow> (bs, e\<lparr>e_version := v\<rparr>))
      else if sid = 0x27 then ref_security data e
      else if sid = 0x31 then (ref_routine data (e_session e), e)
      else if sid = 0x19 then (ref_read_dtc data (e_dtcs e), e)
      else if sid = 0x14 then
        (case ref_clear_dtc data (e_dtcs e) of (bs, dtcs) \<Rightarrow> (bs, e\<lparr>e_dtcs := dtcs\<rparr>))
      else if sid = 0x85 then (ref_control_dtc data (e_session e), e)
      else (refuse sid 0x11, e))"

definition ref_tick :: "u32 \<Rightarrow> ecu \<Rightarrow> ecu" where
  "ref_tick t e =
     (let e = e\<lparr>e_clock := t\<rparr> in
      if e_locked e > 0 \<and> t \<ge> e_locked e then e\<lparr>e_locked := 0, e_fails := 0\<rparr> else e)"

fun ref_run :: "(u32 \<times> u32 \<times> u8 list) list \<Rightarrow> ecu \<Rightarrow> u8 list list \<times> ecu" where
  "ref_run [] e = ([], e)"
| "ref_run ((t, t', req) # xs) e =
     (case ref_answer req (ref_tick t e) of
        (bs, e) \<Rightarrow> (case ref_run xs (ref_tick t' e) of (bss, e) \<Rightarrow> (bs # bss, e)))"

section \<open>The state of the program as a state of the reference\<close>

definition abs_ecu :: "ecu_state \<Rightarrow> ecu" where
  "abs_ecu = (\<lambda>(st, a). let s = app_sec a; l = hd (sa_levels s) in
     \<lparr>e_session = st, e_version = kSwVer a, e_random = app_lfsr a,
      e_challenge = (if seed_sent l then Some (bytes_word (ls_seed l)) else None),
      e_unlocked = unlocked l, e_fails = fail_count l, e_locked = locked_until l,
      e_clock = sa_current_tick s,
      e_dtcs = map (\<lambda>e. (dtc_code e, dtc_status e)) (m_dtcs (app_dtc a))\<rparr>)"

definition example_level :: "u8 \<Rightarrow> u32 level_state \<Rightarrow> bool" where
  "example_level active l \<longleftrightarrow> ls_cfg l = xor_level 1 0xDEAD1234 Extended \<and> length (ls_seed l) = 16 \<and>
     (seed_sent l \<longrightarrow> active = 1 \<and> ls_seed_len l = 4)"

definition one_level :: "u32 security \<Rightarrow> bool" where
  "one_level s \<longleftrightarrow> (\<exists>l. sa_levels s = [l] \<and> example_level (sa_active_level s) l)"

text \<open>The tables as \<open>main\<close> fills them.\<close>

definition as_registered :: "unit ecu_app \<Rightarrow> bool" where
  "as_registered a \<longleftrightarrow> app_rdbi a = [vin_entry, sw_entry] \<and> app_wdbi a = [sw_entry] \<and>
     app_routines a = [erase_entry] \<and> length (kSwVer a) = 4 \<and> one_level (app_sec a) \<and>
     length (m_dtcs (app_dtc a)) \<le> 64"

text \<open>What goes on the bus of a reply.\<close>

definition sent_bytes :: "reply \<Rightarrow> u8 list" where
  "sent_bytes r = (if r_send r then reply_bytes r else [])"

lemma sent_nrc [simp]: "sent_bytes (nrc_reply sid nrc resp) = refuse (sid_byte sid) (nrc_byte nrc)"
  by (simp add: sent_bytes_def refuse_def)

lemma sent_pos [simp]:
  "sent_bytes (pos_reply send sid bs resp) = (if send then (sid_byte sid + 0x40) # bs else [])"
  by (simp add: sent_bytes_def)

lemma sent_buf: "length bs = n \<Longrightarrow> n \<le> length resp \<Longrightarrow>
    sent_bytes \<lparr>r_send = True, r_buf = put 0 bs resp, r_len = n\<rparr> = bs"
  by (simp add: sent_bytes_def reply_bytes_def put_simps)

section \<open>The services one by one\<close>

lemma sub_1_to_3: "(if (sub :: u8) < 1 \<or> sub > 3 then x else y) = (if sub \<in> {1, 2, 3} then y else x)"
  using sub_cases [of sub] by auto

lemma dsc_ref:
  assumes "m_timing s = kDefaultTiming" "dsc_handle None (sid # data) resp (s, w) = (r, s', w')"
  shows "ref_session data (m_session s) = (sent_bytes r, m_session s') \<and> w' = w"
proof (cases data)
  case (Cons b bs)
  consider "b AND 0x7F \<notin> {1, 2, 3}" | "b AND 0x7F = 1" | "b AND 0x7F = 2" | "b AND 0x7F = 3" by blast
  then show ?thesis
    using assms Cons unfolding dsc_handle_def Let_def sub_1_to_3
    by cases (auto simp: session_of_byte_def unless_silent_def session_transition_def
        session_reset_def kDefaultTiming_def hi8_def lo8_def call_if_def split: if_splits)
qed (use assms in \<open>auto simp: dsc_handle_def\<close>)

lemma tester_present_ref:
  "sent_bytes (fst (tester_present_handle (sid # data) resp s)) = ref_tester_present data"
  "m_session (snd (tester_present_handle (sid # data) resp s)) = m_session s"
  by (cases data; simp add: tester_present_handle_def Let_def unless_silent_def session_keep_alive_def)+

lemma reset_ref: "sent_bytes (fst (ecu_reset_handle cb (sid # data) resp w)) = ref_reset data"
  unfolding ecu_reset_handle_def Let_def sub_1_to_3
  by (cases data) (auto simp: unless_silent_def)

lemma control_dtc_ref:
  "control_dtc_handle None s (sid # data) resp w = (r, w') \<Longrightarrow>
    sent_bytes r = ref_control_dtc data (m_session s) \<and> w' = w"
  by (cases data) (auto simp: control_dtc_handle_def Let_def unless_silent_def call_if_def
      split: if_splits)

subsection \<open>Data identifiers\<close>

lemma be16_inject: "be16 a b = be16 c d \<longleftrightarrow> a = c \<and> b = d"
  by (metis hi8_be16 lo8_be16)

lemma did_codes: "(0xF190 :: u16) = be16 0xF1 0x90" "(0xF189 :: u16) = be16 0xF1 0x89"
  by (simp_all add: be16_def)

lemma did_none: "ref_data sw a b = None \<longleftrightarrow> find_did (be16 a b) [vin_entry, sw_entry] = None"
  by (auto simp: ref_data_def find_did_def vin_entry_def sw_entry_def did_codes be16_inject)

text \<open>A registered identifier has a reader that yields its data when they fit.\<close>

lemma did_some:
  assumes "ref_data sw a b = Some bs" "length sw = 4"
  obtains e f where "find_did (be16 a b) [vin_entry, sw_entry] = Some e" "read_fn e = Some f" "bs \<noteq> []"
    "\<And>buf n. f buf n sw = (if n < length bs then (0, buf, sw) else (length bs, put 0 bs buf, sw))"
proof (cases "a = 0xF1 \<and> b = 0x90")
  case True
  with assms show ?thesis
    by (intro that [of vin_entry did_vin])
      (auto simp: ref_data_def find_did_def vin_entry_def did_codes be16_inject did_vin_def kVin_def)
next
  case False
  with assms show ?thesis
    by (intro that [of sw_entry did_sw])
      (auto simp: ref_data_def find_did_def vin_entry_def sw_entry_def did_codes be16_inject did_sw_def
        split: if_splits)
qed

lemma rdbi_loop_ref:
  "length sw = 4 \<Longrightarrow> length resp = kMaxResp \<Longrightarrow> length acc \<le> kMaxResp \<Longrightarrow> take (length acc) resp = acc \<Longrightarrow>
    acc \<noteq> [] \<Longrightarrow> even (length ids) \<Longrightarrow>
    rdbi_loop [vin_entry, sw_entry] ids resp (length acc) sw = (r, sw') \<Longrightarrow>
    sent_bytes r = ref_read_from sw ids acc \<and> sw' = sw"
proof (induction sw ids acc arbitrary: resp rule: ref_read_from.induct)
  case (1 sw a b ids acc)
  show ?case
  proof (cases "ref_data sw a b")
    case None
    then have "find_did (be16 a b) [vin_entry, sw_entry] = None" by (simp add: did_none)
    with None "1.prems" show ?thesis by auto
  next
    case (Some bs)
    obtain e f where e: "find_did (be16 a b) [vin_entry, sw_entry] = Some e" "read_fn e = Some f" "bs \<noteq> []"
      and f: "\<And>buf n. f buf n sw = (if n < length bs then (0, buf, sw) else (length bs, put 0 bs buf, sw))"
      using did_some [OF Some "1.prems"(1)] by blast
    let ?n = "length acc" and ?h = "put (length acc) [a, b] resp"
    have step: "rdbi_loop [vin_entry, sw_entry] (a # b # ids) resp ?n sw =
        (if ?n + 2 > 4095 then (nrc_reply ReadDataByIdentifier ResponseTooLong resp, sw)
         else if ?n + 2 + length bs > 4096
         then (nrc_reply ReadDataByIdentifier ConditionsNotCorrect ?h, sw)
         else rdbi_loop [vin_entry, sw_entry] ids (put ?n (a # b # bs) resp)
           (length (acc @ a # b # bs)) sw)"
      using e f "1.prems"(2) put_within [of "?n + 2" bs ?h]
      by (auto simp: Let_def byte_simps kMaxResp_def length_put put_put_at)
    note run = "1.prems"(7) [unfolded step]
    show ?thesis
    proof (cases "?n + 2 > 4095 \<or> ?n + 2 + length bs > 4096")
      case True
      with run Some show ?thesis by (auto split: if_splits)
    next
      case False
      moreover have "take (length (acc @ a # b # bs)) (put ?n (a # b # bs) resp) = acc @ a # b # bs"
        using "1.prems"(4) by (simp add: put_def)
      ultimately show ?thesis
        using "1.IH" [OF Some, of "put ?n (a # b # bs) resp"] "1.prems" run Some
        by (simp add: length_put kMaxResp_def)
    qed
  qed
qed (auto simp: sent_bytes_def reply_bytes_def)

lemma rdbi_ref:
  assumes "length sw = 4" "length resp = kMaxResp"
    and "rdbi_handle [vin_entry, sw_entry] (0x22 # ids) resp sw = (r, sw')"
  shows "sent_bytes r = ref_read ids sw \<and> sw' = sw"
proof (cases "ids = [] \<or> odd (length ids)")
  case True
  with assms(3) show ?thesis
    by (cases ids) (auto simp: rdbi_handle_def ref_read_def split: if_splits)
next
  case False
  have "take 1 (put 0 [0x62] resp) = [0x62]" by (simp add: put_def)
  with False assms rdbi_loop_ref [OF assms(1), of "put 0 [0x62] resp" "[0x62]" ids r sw'] show ?thesis
    by (cases ids; cases "tl ids") (auto simp: rdbi_handle_def ref_read_def length_put kMaxResp_def)
qed

lemma wdbi_ref:
  assumes "length sw = 4" "wdbi_handle [sw_entry] (sid # data) resp sw = (r, sw')"
  shows "ref_write data sw = (sent_bytes r, sw') \<and> length sw' = 4"
  using assms
  by (cases "(data, sw)" rule: ref_write.cases)
    (auto simp: wdbi_handle_def Let_def find_did_def sw_entry_def did_codes be16_inject did_sw_wr_def
      put_def byte_simps split: if_splits)

subsection \<open>The routine\<close>

lemma routine_ref:
  assumes "length resp = kMaxResp"
  shows "sent_bytes (fst (routine_handle [erase_entry] s (sid # data) resp u)) =
    ref_routine data (m_session s)"
proof (cases "(data, m_session s)" rule: ref_routine.cases)
  case (1 sub a b rest st)
  have id: "find_routine (be16 a b) [erase_entry] = (if a = 3 \<and> b = 1 then Some erase_entry else None)"
    using be16_inject [of a b 3 1] by (simp add: find_routine_def erase_entry_def be16_def)
  have erase: "sent_bytes (fst (routine_answer (put 0 [0x71, 1, 3, 1] resp)
      (routine_erase opt (drop 4 (put 0 [0x71, 1, 3, 1] resp)) u))) = [0x71, 1, 3, 1, 0x10]" for opt
    using one_byte_answer [of resp 1 3 1 "0x10" u] assms(1)
    by (simp add: routine_erase_def kMaxResp_def sent_buf)
  show ?thesis
  proof (cases "a = 3 \<and> b = 1 \<and> sub \<in> {1, 2, 3} \<and> m_session s = Programming")
    case True
    then show ?thesis
      using 1 erase id by (auto simp: routine_handle_def byte_simps erase_entry_def Let_def)
  next
    case False
    with 1 id show ?thesis
      unfolding routine_handle_def Let_def sub_1_to_3
      by (cases "sub \<in> {1, 2, 3}"; cases "a = 3 \<and> b = 1")
        (auto simp: erase_entry_def simp del: insert_iff)
  qed
qed (simp_all add: routine_handle_def)

subsection \<open>Trouble codes\<close>

lemma selected_ref: "ref_selected msk (map (\<lambda>e. (dtc_code e, dtc_status e)) es) =
    map (\<lambda>e. (dtc_code e, dtc_status e)) (filter (status_selected msk) es)"
  by (induction es) (auto simp: ref_selected_def status_selected_def)

lemma read_dtc_ref:
  assumes "length resp = kMaxResp" "length (m_dtcs m) \<le> 64"
    and "read_dtc_handle (sid # data) resp m = (r, m')"
  shows "sent_bytes r = ref_read_dtc data (map (\<lambda>e. (dtc_code e, dtc_status e)) (m_dtcs m)) \<and> m' = m"
proof (cases "\<exists>sub msk rest. data = sub # msk # rest \<and> sub \<in> {0x01, 0x02, 0x0A}")
  case True
  then obtain sub msk rest where data: "data = sub # msk # rest" and sub: "sub \<in> {0x01, 0x02, 0x0A}" by blast
  let ?sel = "filter (status_selected msk) (m_dtcs m)"
  have n: "length ?sel \<le> 64" using assms(2) order_trans [OF length_filter_le] by blast
  then have t: "take ((length resp - 3) div 4) ?sel = ?sel" using assms(1) by (simp add: kMaxResp_def)
  have recs: "concat (map (\<lambda>(c, st). [byte_at 2 c, byte_at 1 c, byte_at 0 c, st AND msk])
      (map (\<lambda>e. (dtc_code e, dtc_status e)) ?sel)) = concat (map (dtc_record msk) ?sel)"
    by (rule arg_cong [where f = concat]) (simp add: dtc_record_def)
  show ?thesis
  proof (cases "sub = 1")
    case True
    then show ?thesis
      using count_reply [of "sid # data" resp m] n assms(1,3) data
      by (auto simp: Let_def count_selected selected_ref sent_buf kMaxResp_def)
  next
    case False
    then have s: "sub = 0x02 \<or> sub = 0x0A" using sub by blast
    have len: "3 + length (concat (map (dtc_record msk) ?sel)) \<le> length resp"
      using n assms(1) unfolding length_dtc_records by (simp add: kMaxResp_def)
    show ?thesis
      using report_reply [of "sid # data" resp m] s False t assms(1,3) data len recs
      by (auto simp: Let_def selected_ref sent_buf kMaxResp_def)
  qed
next
  case False
  with assms(3) show ?thesis
    by (cases "(data, [] :: (u32 \<times> u8) list)" rule: ref_read_dtc.cases)
      (auto simp: read_dtc_handle_def Let_def split: if_splits)
qed

lemma clear_dtc_ref:
  assumes "clear_dtc_handle (sid # data) resp m = (r, m')"
  shows "ref_clear_dtc data (map (\<lambda>e. (dtc_code e, dtc_status e)) (m_dtcs m)) =
    (sent_bytes r, map (\<lambda>e. (dtc_code e, dtc_status e)) (m_dtcs m'))"
    "length (m_dtcs m') = length (m_dtcs m)"
  using assms
  by (cases "(data, [] :: (u32 \<times> u8) list)" rule: ref_clear_dtc.cases;
      auto simp: clear_dtc_handle_def Let_def clear_all_def clear_group_def cleared_status group_matches_def
        be24_mask)+

subsection \<open>Seeds and keys\<close>

lemma seed_sub_1: "seed_sub sub = 1 \<longleftrightarrow> sub = 1 \<or> sub = 2"
proof -
  have "sub - 1 = 1 \<longleftrightarrow> sub = 2" by (simp add: diff_eq_eq)
  then show ?thesis by (auto simp: seed_sub_def)
qed

lemma seed_word: "bytes_word (put 0 (word_bytes x) seed) = x" "bytes_word (take 4 seed) = bytes_word seed"
  using bytes_word_bytes [of x] by (simp_all add: bytes_word_def put_def nth_append word_bytes_def)

lemma xor_level_callbacks:
  "generate_seed (xor_level L k st) seed 16 g = (4, put 0 (word_bytes (xorshift32 g)) seed, xorshift32 g)"
  "verify_key (xor_level L k st) seed 4 key g = (key = word_bytes (bytes_word seed XOR k), g)"
  if "length seed = 16"
  using that
  by (simp_all add: xor_level_def xor_generate_seed_def word_bytes_def Let_def xor_verify_key_iff
      xor_key_def seed_word)

text \<open>The lock as the reference sees it.\<close>

definition with_lock :: "u32 level_state \<Rightarrow> u32 \<Rightarrow> u32 \<Rightarrow> ecu \<Rightarrow> ecu" where
  "with_lock l t g e = e\<lparr>e_random := g,
     e_challenge := (if seed_sent l then Some (bytes_word (ls_seed l)) else None),
     e_unlocked := unlocked l, e_fails := fail_count l, e_locked := locked_until l, e_clock := t\<rparr>"

lemma abs_lock:
  "sa_levels s = [l] \<Longrightarrow> abs_ecu (st, a\<lparr>app_sec := s, app_lfsr := g\<rparr>) =
     with_lock l (sa_current_tick s) g (abs_ecu (st, a))"
  by (simp add: abs_ecu_def with_lock_def Let_def)

lemma seed_ref:
  assumes "sa_levels s = [l]" "example_level (sa_active_level s) l"
    and "request_seed 1 0 l resp (s, g) = (r, s', g')"
  shows "\<exists>l'. sa_levels s' = [l'] \<and> example_level (sa_active_level s') l' \<and>
    ref_seed (with_lock l (sa_current_tick s) g e) =
      (sent_bytes r, with_lock l' (sa_current_tick s') g' e)"
proof (cases "unlocked l")
  case True
  have "replicate 4 (0 :: u8) = [0, 0, 0, 0]" by (simp add: numeral_eq_Suc)
  with True have "s' = s \<and> g' = g \<and> sent_bytes r = [0x67, 1, 0, 0, 0, 0]"
    using assms by (auto simp: request_seed_def example_level_def xor_level_def)
  with assms(1,2) True show ?thesis by (simp add: ref_seed_def with_lock_def)
next
  case False
  have cfg: "ls_cfg l = xor_level 1 0xDEAD1234 Extended" and len: "length (ls_seed l) = 16"
    using assms(2) by (simp_all add: example_level_def)
  let ?x = "xorshift32 g" and ?seed = "put 0 (word_bytes (xorshift32 g)) (ls_seed l)"
  let ?l = "l\<lparr>ls_seed := ?seed, ls_seed_len := 4, seed_sent := True\<rparr>"
  have "s' = (set_level 0 ?l s)\<lparr>sa_active_level := 1\<rparr>" "g' = ?x"
    "r = pos_reply True SecurityAccess (1 # take 4 ?seed) resp"
    using assms(3) False by (auto simp: request_seed_def cfg xor_level_callbacks(1) [OF len] Let_def)
  moreover have "take 4 ?seed = word_bytes ?x" by (simp add: put_def)
  moreover have "length ?seed = 16" using len by (simp add: length_put)
  ultimately show ?thesis
    using assms(1) False cfg
    by (intro exI [of _ ?l]) (simp add: example_level_def ref_seed_def with_lock_def seed_word set_level_def Let_def)
qed

lemma key_ref:
  assumes "sa_levels s = [l]" "example_level (sa_active_level s) l"
    and "send_key 2 0 l key resp (s, g) = (r, s', g')"
  shows "\<exists>l'. sa_levels s' = [l'] \<and> example_level (sa_active_level s') l' \<and>
    ref_key key (with_lock l (sa_current_tick s) g e) =
      (sent_bytes r, with_lock l' (sa_current_tick s') g' e)"
proof (cases "seed_sent l")
  case False
  then have "s' = s \<and> g' = g \<and> sent_bytes r = refuse 0x27 0x24"
    using assms(3) by (auto simp: send_key_def)
  with assms(1,2) False show ?thesis by (simp add: ref_key_def with_lock_def)
next
  case True
  have l: "ls_cfg l = xor_level 1 0xDEAD1234 Extended" "length (ls_seed l) = 16"
      "sa_active_level s = 1" "ls_seed_len l = 4"
    using assms(2) True by (simp_all add: example_level_def)
  let ?ok = "key = word_bytes (bytes_word (ls_seed l) XOR 0xDEAD1234)"
  have v: "verify_key (ls_cfg l) (ls_seed l) (ls_seed_len l) key g = (?ok, g)"
    by (simp add: l xor_level_callbacks(2))
  show ?thesis
  proof (cases ?ok)
    case ok: True
    let ?l = "l\<lparr>unlocked := True, fail_count := 0, seed_sent := False\<rparr>"
    have "s' = set_level 0 ?l s \<and> g' = g \<and> sent_bytes r = [0x67, 2]"
      using assms(3) True ok v l(3) by (auto simp: send_key_def Let_def)
    with assms(1) l True ok show ?thesis
      by (intro exI [of _ ?l]) (simp add: example_level_def ref_key_def with_lock_def set_level_def)
  next
    case bad: False
    let ?l = "l\<lparr>fail_count := fail_count l + 1, seed_sent := False\<rparr>"
    let ?l' = "?l\<lparr>locked_until := sa_current_tick s + 10000\<rparr>"
    show ?thesis
    proof (cases "fail_count l + 1 \<ge> 3")
      case full: True
      have "s' = set_level 0 ?l' s \<and> g' = g \<and> sent_bytes r = refuse 0x27 0x36"
        using assms(3) True bad full v l(3)
        by (auto simp: send_key_def Let_def kMaxAttempts_def kDelayAfterFail_def)
      with assms(1) l True bad full show ?thesis
        by (intro exI [of _ ?l']) (simp add: example_level_def ref_key_def with_lock_def set_level_def Let_def)
    next
      case False
      have "s' = set_level 0 ?l s \<and> g' = g \<and> sent_bytes r = refuse 0x27 0x35"
        using assms(3) True bad False v l(3) by (auto simp: send_key_def Let_def kMaxAttempts_def)
      with assms(1) l True bad False show ?thesis
        by (intro exI [of _ ?l]) (simp add: example_level_def ref_key_def with_lock_def set_level_def Let_def)
    qed
  qed
qed

lemma security_ref:
  assumes "one_level s" "m_session session = st"
    and "security_handle session (sid # data) resp (s, g) = (r, s', g')"
  shows "one_level s' \<and>
    ref_security data (abs_ecu (st, a\<lparr>app_sec := s, app_lfsr := g\<rparr>)) =
      (sent_bytes r, abs_ecu (st, a\<lparr>app_sec := s', app_lfsr := g'\<rparr>))"
proof -
  obtain l where l: "sa_levels s = [l]" "example_level (sa_active_level s) l"
    using assms(1) by (auto simp: one_level_def)
  have cfg: "sl_level (ls_cfg l) = 1" "sl_required_session (ls_cfg l) = Extended"
    using l(2) by (simp_all add: example_level_def xor_level_def)
  let ?e = "abs_ecu (st, a)" and ?t = "sa_current_tick s"
  have e: "e_locked (with_lock l ?t g ?e) = locked_until l" "e_clock (with_lock l ?t g ?e) = ?t"
    "e_session (with_lock l ?t g ?e) = st"
    by (simp_all add: with_lock_def abs_ecu_def Let_def)
  have "\<exists>l'. sa_levels s' = [l'] \<and> example_level (sa_active_level s') l' \<and>
      ref_security data (with_lock l ?t g ?e) = (sent_bytes r, with_lock l' (sa_current_tick s') g' ?e)"
  proof (cases data)
    case Nil
    then show ?thesis using assms(3) l by (auto simp: security_handle_def)
  next
    case (Cons sub key)
    have find: "find_level sub s = (if sub = 1 \<or> sub = 2 then Some 0 else None)"
      by (simp add: find_level_def l level_of_def cfg seed_sub_1)
    show ?thesis
    proof (cases "sub \<notin> {1, 2} \<or> locked_until l \<noteq> 0 \<and> ?t < locked_until l \<or> st \<noteq> Extended")
      case True
      with assms(2,3) Cons l find cfg e show ?thesis
        by (auto simp: security_handle_def Let_def split: if_splits)
    next
      case False
      then consider "sub = 1" "request_seed 1 0 l resp (s, g) = (r, s', g')"
        | "sub = 2" "send_key 2 0 l key resp (s, g) = (r, s', g')"
        using assms(2,3) Cons find l(1) cfg by (auto simp: security_handle_def Let_def)
      then show ?thesis
      proof cases
        case 1
        with seed_ref [OF l 1(2), of ?e] False Cons e show ?thesis by auto
      next
        case 2
        with key_ref [OF l 2(2), of ?e] False Cons e show ?thesis by auto
      qed
    qed
  qed
  with l(1) show ?thesis by (auto simp: abs_lock one_level_def)
qed

section \<open>The abstract ECU gives the answers of the reference\<close>

definition registered_state :: "ecu_state \<Rightarrow> bool" where
  "registered_state = (\<lambda>(st, a). as_registered a)"

lemma abs_ecu_simps [simp]:
  "e_session (abs_ecu (st, a)) = st" "e_version (abs_ecu (st, a)) = kSwVer a"
  "e_dtcs (abs_ecu (st, a)) = map (\<lambda>e. (dtc_code e, dtc_status e)) (m_dtcs (app_dtc a))"
  "(abs_ecu (st, a))\<lparr>e_session := st'\<rparr> = abs_ecu (st', a)"
  "(abs_ecu (st, a))\<lparr>e_version := v\<rparr> = abs_ecu (st, a\<lparr>kSwVer := v\<rparr>)"
  "(abs_ecu (st, a))\<lparr>e_dtcs := map (\<lambda>e. (dtc_code e, dtc_status e)) (m_dtcs m)\<rparr> =
    abs_ecu (st, a\<lparr>app_dtc := m\<rparr>)"
  by (simp_all add: abs_ecu_def Let_def)

text \<open>The answer of the abstract ECU, service by service.\<close>

definition served :: "reply \<times> unit ecu_app uds_session \<times> unit ecu_app \<Rightarrow> u8 list \<times> ecu_state" where
  "served = (\<lambda>(r, session, a). (sent_bytes r, (m_session session, a)))"

lemma spec_answer_services:
  "spec_answer (sid # data) (st, a) =
    (let req = sid # data; resp = replicate kMaxResp 0; s = (session_new kDefaultTiming)\<lparr>m_session := st\<rparr> in
     if sid = 0x3E then (case tester_present_handle req resp s of (r, s) \<Rightarrow> served (r, s, a))
     else if sid = 0x10 then served (dsc_handle None req resp (s, a))
     else if sid = 0x11 then served (fst (ecu_reset_handle (Some on_reset) req resp ()), s, a)
     else if sid = 0x22 then
       (case rdbi_handle (app_rdbi a) req resp (kSwVer a) of (r, sw) \<Rightarrow> served (r, s, a\<lparr>kSwVer := sw\<rparr>))
     else if sid = 0x2E then
       (case wdbi_handle (app_wdbi a) req resp (kSwVer a) of (r, sw) \<Rightarrow> served (r, s, a\<lparr>kSwVer := sw\<rparr>))
     else if sid = 0x27 then
       (case security_handle s req resp (app_sec a, app_lfsr a) of
          (r, sec, g) \<Rightarrow> served (r, s, a\<lparr>app_sec := sec, app_lfsr := g\<rparr>))
     else if sid = 0x31 then served (fst (routine_handle (app_routines a) s req resp ()), s, a)
     else if sid = 0x19 then
       (case read_dtc_handle req resp (app_dtc a) of (r, m) \<Rightarrow> served (r, s, a\<lparr>app_dtc := m\<rparr>))
     else if sid = 0x14 then
       (case clear_dtc_handle req resp (app_dtc a) of (r, m) \<Rightarrow> served (r, s, a\<lparr>app_dtc := m\<rparr>))
     else if sid = 0x85 then served (fst (control_dtc_handle None s req resp ()), s, a)
     else (refuse sid 0x11, (st, a)))"
  by (simp add: spec_answer_def main_services_def app_service_def tester_present_service_def served_def
      sent_bytes_def Let_def refuse_def split: prod.split)

lemma session_services_ref:
  assumes "as_registered a" "spec_answer (sid # data) (st, a) = (bs, s')"
    and "sid \<notin> {0x22, 0x2E, 0x27, 0x31, 0x19, 0x14}"
  shows "registered_state s' \<and> ref_answer (sid # data) (abs_ecu (st, a)) = (bs, abs_ecu s')"
proof -
  let ?R = "replicate kMaxResp 0 :: u8 list"
  let ?s = "(session_new kDefaultTiming)\<lparr>m_session := st\<rparr> :: unit ecu_app uds_session"
  have s: "m_session ?s = st" "m_timing ?s = kDefaultTiming" by (simp_all add: session_new_def)
  note run = assms(2) [unfolded spec_answer_services Let_def]
  consider "sid = 0x3E" | "sid = 0x10" | "sid = 0x11" | "sid = 0x85"
    | "sid \<notin> {0x3E, 0x10, 0x11, 0x22, 0x2E, 0x27, 0x31, 0x19, 0x14, 0x85}" using assms(3) by blast
  then show ?thesis
  proof cases
    case 1
    with run assms(1) show ?thesis
      using tester_present_ref [of sid data ?R ?s] s(1)
      by (auto simp: served_def registered_state_def split: prod.splits)
  next
    case 2
    obtain r s1 w where h: "dsc_handle None (sid # data) ?R (?s, a) = (r, s1, w)" by (metis prod_cases3)
    with run assms(1) 2 dsc_ref [OF s(2) h] s(1) show ?thesis
      by (auto simp: served_def registered_state_def)
  next
    case 3
    with run assms(1) s(1) show ?thesis by (auto simp: served_def registered_state_def reset_ref)
  next
    case 4
    obtain r u where h: "control_dtc_handle None ?s (0x85 # data) ?R () = (r, u)" by (rule prod.exhaust)
    with run assms(1) 4 control_dtc_ref [OF h] s(1) show ?thesis
      by (auto simp: served_def registered_state_def)
  next
    case 5
    with run assms(1) show ?thesis by (auto simp: registered_state_def)
  qed
qed

lemma data_services_ref:
  assumes "as_registered a" "spec_answer (sid # data) (st, a) = (bs, s')"
    and "sid \<in> {0x22, 0x2E, 0x27, 0x31, 0x19, 0x14}"
  shows "registered_state s' \<and> ref_answer (sid # data) (abs_ecu (st, a)) = (bs, abs_ecu s')"
proof -
  let ?R = "replicate kMaxResp 0 :: u8 list"
  let ?s = "(session_new kDefaultTiming)\<lparr>m_session := st\<rparr> :: unit ecu_app uds_session"
  have R: "length ?R = kMaxResp" and s: "m_session ?s = st" by (simp_all add: session_new_def)
  have a: "app_rdbi a = [vin_entry, sw_entry]" "app_wdbi a = [sw_entry]" "app_routines a = [erase_entry]"
      "length (kSwVer a) = 4" "one_level (app_sec a)" "length (m_dtcs (app_dtc a)) \<le> 64"
    using assms(1) by (simp_all add: as_registered_def)
  note run = assms(2) [unfolded spec_answer_services Let_def]
  consider "sid = 0x22" | "sid = 0x2E" | "sid = 0x27" | "sid = 0x31" | "sid = 0x19" | "sid = 0x14"
    using assms(3) by blast
  then show ?thesis
  proof cases
    case 1
    obtain r sw where h: "rdbi_handle [vin_entry, sw_entry] (0x22 # data) ?R (kSwVer a) = (r, sw)" by fastforce
    with run assms 1 rdbi_ref [OF a(4) R h] a(1) s show ?thesis
      by (auto simp: served_def registered_state_def)
  next
    case 2
    obtain r sw where h: "wdbi_handle [sw_entry] (0x2E # data) ?R (kSwVer a) = (r, sw)" by fastforce
    with run assms 2 wdbi_ref [OF a(4) h] a(2) s show ?thesis
      by (auto simp: served_def registered_state_def as_registered_def)
  next
    case 3
    obtain r sec g where h: "security_handle ?s (0x27 # data) ?R (app_sec a, app_lfsr a) = (r, sec, g)"
      by (metis prod_cases3)
    with run assms 3 security_ref [OF a(5) s h, of a] s show ?thesis
      by (auto simp: served_def registered_state_def as_registered_def)
  next
    case 4
    with run assms a(3) s show ?thesis
      by (auto simp: served_def registered_state_def routine_ref [OF R])
  next
    case 5
    obtain r m where h: "read_dtc_handle (0x19 # data) ?R (app_dtc a) = (r, m)" by fastforce
    with run assms 5 read_dtc_ref [OF R a(6) h] s show ?thesis
      by (auto simp: served_def registered_state_def)
  next
    case 6
    obtain r m where h: "clear_dtc_handle (0x14 # data) ?R (app_dtc a) = (r, m)" by fastforce
    with run assms 6 clear_dtc_ref [OF h] s show ?thesis
      by (auto simp: served_def registered_state_def as_registered_def)
  qed
qed

lemma spec_answer_ref:
  assumes "as_registered a" "req \<noteq> []" "spec_answer req (st, a) = (bs, s')"
  shows "registered_state s' \<and> ref_answer req (abs_ecu (st, a)) = (bs, abs_ecu s')"
proof -
  obtain sid data where "req = sid # data" using assms(2) by (cases req) auto
  with assms session_services_ref data_services_ref show ?thesis by blast
qed

lemma spec_tick_ref:
  assumes "registered_state s"
  shows "registered_state (spec_tick t s) \<and> ref_tick t (abs_ecu s) = abs_ecu (spec_tick t s)"
proof -
  obtain st a where s: "s = (st, a)" by (cases s)
  obtain l where l: "sa_levels (app_sec a) = [l]" "example_level (sa_active_level (app_sec a)) l"
    using assms by (auto simp: s registered_state_def as_registered_def one_level_def)
  have "one_level (security_update t (app_sec a))"
    using l by (auto simp: one_level_def security_update_def example_level_def)
  moreover have "ref_tick t (abs_ecu s) = abs_ecu (spec_tick t s)"
    using l(1) by (auto simp: s spec_tick_def ref_tick_def abs_ecu_def Let_def security_update_def level_update_def)
  ultimately show ?thesis
    using assms by (simp add: s registered_state_def as_registered_def spec_tick_def)
qed

section \<open>Runs\<close>

text \<open>
  A step that gives an output and a next state, and a reference for it on the image of the
  state under \<open>abs\<close>: what holds for the steps that keep the invariant holds for runs.
\<close>

fun steps :: "('x \<Rightarrow> 's \<Rightarrow> 'y \<times> 's) \<Rightarrow> 'x list \<Rightarrow> 's \<Rightarrow> 'y list \<times> 's" where
  "steps step [] s = ([], s)"
| "steps step (x # xs) s = (case step x s of (y, s) \<Rightarrow> (case steps step xs s of (ys, s) \<Rightarrow> (y # ys, s)))"

locale functional_refinement =
  fixes step :: "'x \<Rightarrow> 's \<Rightarrow> 'y \<times> 's"
    and ref :: "'x \<Rightarrow> 't \<Rightarrow> 'y \<times> 't"
    and abs :: "'s \<Rightarrow> 't"
    and inv :: "'s \<Rightarrow> bool"
    and valid :: "'x \<Rightarrow> bool"
  assumes step_ref: "inv s \<Longrightarrow> valid x \<Longrightarrow> step x s = (y, s') \<Longrightarrow> inv s' \<and> ref x (abs s) = (y, abs s')"
begin

lemma steps_ref:
  "inv s \<Longrightarrow> \<forall>x \<in> set xs. valid x \<Longrightarrow> steps step xs s = (ys, s') \<Longrightarrow>
    inv s' \<and> steps ref xs (abs s) = (ys, abs s')"
proof (induction xs arbitrary: s ys)
  case (Cons x xs)
  obtain y s1 where x: "step x s = (y, s1)" by fastforce
  with step_ref [of s x y s1] Cons.prems have "inv s1" "ref x (abs s) = (y, abs s1)" by simp_all
  with Cons.IH [of s1] Cons.prems x show ?case by (auto split: prod.splits)
qed simp

lemma output_ref:
  assumes "inv s" "\<forall>x \<in> set xs. valid x" "steps ref xs (abs s) = (ys, t)"
  obtains s' where "steps step xs s = (ys, s')" "abs s' = t" "inv s'"
  using steps_ref [OF assms(1,2)] assms(3) by (cases "steps step xs s") auto

end

definition spec_exchange :: "u32 \<times> u32 \<times> u8 list \<Rightarrow> ecu_state \<Rightarrow> u8 list \<times> ecu_state" where
  "spec_exchange = (\<lambda>(t, t', req) s. case spec_answer req (spec_tick t s) of (bs, s) \<Rightarrow> (bs, spec_tick t' s))"

definition ref_exchange :: "u32 \<times> u32 \<times> u8 list \<Rightarrow> ecu \<Rightarrow> u8 list \<times> ecu" where
  "ref_exchange = (\<lambda>(t, t', req) e. case ref_answer req (ref_tick t e) of (bs, e) \<Rightarrow> (bs, ref_tick t' e))"

lemma run_steps: "spec_run xs s = steps spec_exchange xs s" "ref_run xs e = steps ref_exchange xs e"
  by (induction xs arbitrary: s e) (auto simp: spec_exchange_def ref_exchange_def split: prod.splits)

interpretation reference: functional_refinement spec_exchange ref_exchange abs_ecu registered_state
  "\<lambda>(t, t', req). req \<noteq> []"
proof unfold_locales
  fix s x y s'
  assume s: "registered_state s" and "case x of (t, t', req) \<Rightarrow> req \<noteq> []" and x: "spec_exchange x s = (y, s')"
  then obtain t t' req where req: "x = (t, t', req)" "req \<noteq> []" by (cases x) auto
  note t = spec_tick_ref [OF s, of t]
  obtain st a where a: "spec_tick t s = (st, a)" "as_registered a"
    using t by (cases "spec_tick t s") (simp add: registered_state_def)
  obtain s1 where s1: "spec_answer req (st, a) = (y, s1)" "s' = spec_tick t' s1"
    using x req a(1) by (auto simp: spec_exchange_def split: prod.splits)
  from spec_answer_ref [OF a(2) req(2) s1(1)] spec_tick_ref [of s1 t'] t a(1) s1(2) req(1)
  show "registered_state s' \<and> ref_exchange x (abs_ecu s) = (y, abs_ecu s')"
    by (simp add: ref_exchange_def)
qed

section \<open>The answers fit\<close>

text \<open>An identifier of two bytes asks for at most 19 bytes of the answer.\<close>

definition ecu_ok :: "ecu \<Rightarrow> bool" where
  "ecu_ok e \<longleftrightarrow> length (e_version e) = 4 \<and> length (e_dtcs e) \<le> 64"

lemma length_refuse [simp]: "length (refuse sid code) = 3"
  by (simp add: refuse_def)

lemma length_unless_silent: "length (unless_silent sub bs) \<le> length bs"
  by (simp add: unless_silent_def)

lemma length_ref_read_from:
  "length version = 4 \<Longrightarrow>
    length (ref_read_from version ids acc) \<le> max 3 (length acc + 19 * (length ids div 2))"
proof (induction version ids acc rule: ref_read_from.induct)
  case (1 version a b ids acc)
  have "length bs \<le> 17" if "ref_data version a b = Some bs" for bs
    using that "1.prems" by (auto simp: ref_data_def kVin_def split: if_splits)
  with 1 show ?case by (fastforce split: option.split)
qed auto

lemma length_ref_read_dtc: "length dtcs \<le> 64 \<Longrightarrow> length (ref_read_dtc data dtcs) \<le> 259"
proof -
  assume d: "length dtcs \<le> 64"
  have "length (concat (map (\<lambda>(c, st). [byte_at 2 c, byte_at 1 c, byte_at 0 c, st AND msk]) ds)) = 4 * length ds"
    for msk and ds :: "(u32 \<times> u8) list" by (induction ds) auto
  moreover have "length (ref_selected msk dtcs) \<le> 64" for msk
    using d order_trans [OF length_filter_le] by (auto simp: ref_selected_def)
  ultimately show ?thesis by (cases "(data, dtcs)" rule: ref_read_dtc.cases) auto
qed

lemma short_answers:
  "length (ref_tester_present data) < 4096"
  "length (fst (ref_session data st)) < 4096"
  "length (ref_reset data) < 4096"
  "length (ref_control_dtc data st) < 4096"
  by (cases data; simp add: Let_def unless_silent_def)+

lemma short_routine_answer: "length (ref_routine data st) < 4096"
  by (cases "(data, st)" rule: ref_routine.cases) simp_all

lemma write_fits:
  "length version = 4 \<Longrightarrow>
    length (snd (ref_write data version)) = 4 \<and> length (fst (ref_write data version)) < 4096"
  by (cases "(data, version)" rule: ref_write.cases) simp_all

lemma clear_fits:
  "length (snd (ref_clear_dtc data dtcs)) = length dtcs \<and> length (fst (ref_clear_dtc data dtcs)) < 4096"
  by (cases "(data, dtcs)" rule: ref_clear_dtc.cases) (simp_all add: Let_def)

lemma security_fits:
  "ecu_ok e \<Longrightarrow> ecu_ok (snd (ref_security data e)) \<and> length (fst (ref_security data e)) < 4096"
  by (cases data) (auto simp: ecu_ok_def ref_seed_def ref_key_def Let_def split: option.splits)

lemma ref_answer_fits:
  assumes "ecu_ok e" "length req \<le> 431"
  shows "ecu_ok (snd (ref_answer req e)) \<and> length (fst (ref_answer req e)) < 4096"
proof (cases req)
  case (Cons sid data)
  have e: "length (e_version e) = 4" "length (e_dtcs e) \<le> 64" using assms(1) by (simp_all add: ecu_ok_def)
  have "length (ref_read data (e_version e)) < 4096"
    using length_ref_read_from [OF e(1), of data "[0x62]"] assms(2) Cons by (auto simp: ref_read_def)
  moreover have "length (ref_read_dtc data (e_dtcs e)) < 4096"
    using length_ref_read_dtc [OF e(2), of data] by simp
  ultimately show ?thesis
    using assms(1) e short_answers short_routine_answer write_fits [OF e(1), of data]
      clear_fits [of data "e_dtcs e"] security_fits [OF assms(1), of data]
    by (simp add: Cons ecu_ok_def split_def)
qed (use assms(1) in simp)

lemma ref_run_fits:
  "ecu_ok e \<Longrightarrow> \<forall>(t, t', req) \<in> set xs. length req \<le> 431 \<Longrightarrow>
    \<forall>bs \<in> set (fst (ref_run xs e)). length bs < 4096"
proof (induction xs e rule: ref_run.induct)
  case (2 t t' req xs e)
  have tick: "ecu_ok (ref_tick u e) \<longleftrightarrow> ecu_ok e" for u e by (simp add: ecu_ok_def ref_tick_def Let_def)
  obtain bs e1 where a: "ref_answer req (ref_tick t e) = (bs, e1)" by fastforce
  have "ecu_ok e1 \<and> length bs < 4096"
    using ref_answer_fits [of "ref_tick t e" req] 2(2,3) a by (auto simp: tick)
  with 2 a show ?case by (auto simp: tick split: prod.splits)
qed simp

section \<open>The program answers like the reference\<close>

lemma main_registered: "registered_state spec_init" "abs_ecu spec_init = ref_init" "ecu_ok ref_init"
proof -
  have sec: "app_sec (main_app ()) = demo_security" by (simp add: main_app_def)
  have dtcs: "map (\<lambda>e. (dtc_code e, dtc_status e)) (m_dtcs (app_dtc (main_app ()))) =
      [(0x010101, 0x50), (0x020202, 0x50)]" by code_simp
  show "ecu_ok ref_init" by (simp add: ecu_ok_def ref_init_def)
  show "abs_ecu spec_init = ref_init"
    using dtcs
    by (simp add: abs_ecu_def spec_init_def ref_init_def Let_def sec register_level_def security_new_def
        kMaxSecurityLevels_def fresh_level_def xor_level_def) (simp add: main_app_def lfsr_static_init_def)
  show "registered_state spec_init"
    using dtcs [THEN arg_cong [where f = length]]
    by (simp add: registered_state_def as_registered_def spec_init_def main_tables one_level_def sec
        example_level_def register_level_def security_new_def kMaxSecurityLevels_def fresh_level_def)
      (simp add: main_app_def register_routine_def kMaxRoutines_def xor_level_def)
qed

text \<open>
  C1. What a tester gets from the program of \<open>main\<close> is what the reference says, byte for byte:
  on every driver that takes the frames it is given and hands out the frames that arrive, for
  all requests of 1 to 431 bytes, whatever they hold and whenever they come, the program puts
  the answers of \<open>ref_run\<close> on the bus, segmented according to ISO-TP, and is in the state of
  the reference afterwards. The driver holds the frames of a request, and no request falls into
  the last second before the clock wraps.
\<close>

theorem main_answers_like_reference:
  assumes "bus_driver can I pending sent cap deliver"
    and "I drv" "pending drv = []" "sent drv = []"
    and "length g = 4096" "length g' = 4096" "length g'' = 4096"
    and "\<forall>(t, t', req) \<in> set xs. req \<noteq> [] \<and> length req \<le> 431 \<and>
      length (segment 0x7E0 req) \<le> cap \<and> unat t + 1000 < 2 ^ 32"
    and "ref_run xs ref_init = (bss, e)"
  shows "\<exists>srv w. conversation can sent deliver stm xs (main_server g g' g'', main_app drv) =
      Some (srv, w) \<and>
    sent (app_can w) = concat (map2 (\<lambda>(t, t', req). exchange_frames req) xs bss) \<and>
    abs_ecu (m_session (us_session srv), app_view w) = e"
proof -
  have "\<forall>x \<in> set xs. case x of (t, t', req) \<Rightarrow> req \<noteq> []" using assms(8) by auto
  moreover have "steps ref_exchange xs (abs_ecu spec_init) = (bss, e)"
    using assms(9) by (simp add: run_steps main_registered(2))
  ultimately obtain s where s: "spec_run xs spec_init = (bss, s)" "abs_ecu s = e"
    using reference.output_ref [OF main_registered(1)] unfolding run_steps by metis
  have "\<forall>(t, t', req) \<in> set xs. length req \<le> 431" using assms(8) by auto
  from ref_run_fits [OF main_registered(3) this] have "\<forall>bs \<in> set bss. length bs < 4096"
    using assms(9) by simp
  moreover have "\<forall>(t, t', req) \<in> set xs. req \<noteq> [] \<and> length req < 4096 \<and>
      length (segment 0x7E0 req) \<le> cap \<and> unat t + 1000 < 2 ^ 32"
    using assms(8) by auto
  ultimately show ?thesis
    using main_runs [OF assms(1-7) _ s(1), of stm] s(2) by auto
qed

text \<open>
  A tester unlocks the level of the example in the extended session, goes back to the default
  session, enters the programming session without asking for an answer, and starts the routine.
  The level is still open then.
\<close>

definition demo_requests :: "(u32 \<times> u32 \<times> u8 list) list" where
  "demo_requests =
     [(10, 20, [0x10, 0x03]), (30, 40, [0x27, 0x01]), (50, 60, [0x27, 0x02, 0x99, 0xD0, 0x32, 0x83]),
      (70, 80, [0x10, 0x01]), (90, 100, [0x10, 0x82]), (110, 120, [0x31, 0x01, 0x03, 0x01])]"

lemma demo_answers:
  "fst (ref_run demo_requests ref_init) =
     [[0x50, 0x03, 0x00, 0x32, 0x01, 0xF4], [0x67, 0x01, 0x47, 0x7D, 0x20, 0xB7], [0x67, 0x02],
      [0x50, 0x01, 0x00, 0x32, 0x01, 0xF4], [], [0x71, 0x01, 0x03, 0x01, 0x10]]"
  "e_unlocked (snd (ref_run demo_requests ref_init))"
  "e_session (snd (ref_run demo_requests ref_init)) = Programming"
  by code_simp+

theorem main_answers_like_reference_witness:
  "\<exists>srv w. conversation (logged test_can_if) snd test_deliver 0 demo_requests
      (main_server (replicate 4096 0) (replicate 4096 0) (replicate 4096 0),
       main_app (test_can_new (replicate 32 zero_frame) (replicate 32 zero_frame), [])) =
      Some (srv, w) \<and>
    snd (app_can w) = map (sf_frame 0x7E8)
      [[0x50, 0x03, 0x00, 0x32, 0x01, 0xF4], [0x67, 0x01, 0x47, 0x7D, 0x20, 0xB7], [0x67, 0x02],
       [0x50, 0x01, 0x00, 0x32, 0x01, 0xF4], [0x71, 0x01, 0x03, 0x01, 0x10]] \<and>
    m_session (us_session srv) = Programming"
proof -
  let ?drv = "(test_can_new (replicate 32 zero_frame) (replicate 32 zero_frame), [])"
  let ?run = "ref_run demo_requests ref_init"
  have "\<exists>srv w. conversation (logged test_can_if) snd test_deliver 0 demo_requests
      (main_server (replicate 4096 0) (replicate 4096 0) (replicate 4096 0), main_app ?drv) =
      Some (srv, w) \<and>
    snd (app_can w) = concat (map2 (\<lambda>(t, t', req). exchange_frames req) demo_requests (fst ?run)) \<and>
    abs_ecu (m_session (us_session srv), app_view w) = snd ?run"
    by (rule main_answers_like_reference [OF test_bus.bus_driver_axioms _ _ _ _ _ _ _ prod.collapse [symmetric]])
      (use test_can_fresh in \<open>auto simp: segment_def demo_requests_def\<close>)
  then obtain srv w where w: "conversation (logged test_can_if) snd test_deliver 0 demo_requests
      (main_server (replicate 4096 0) (replicate 4096 0) (replicate 4096 0), main_app ?drv) = Some (srv, w)"
    "snd (app_can w) = concat (map2 (\<lambda>(t, t', req). exchange_frames req) demo_requests (fst ?run))"
    "abs_ecu (m_session (us_session srv), app_view w) = snd ?run" by blast
  have "m_session (us_session srv) = Programming"
    using w(3) [THEN arg_cong [where f = e_session]] demo_answers(3) by simp
  moreover have "snd (app_can w) = map (sf_frame 0x7E8)
      [[0x50, 0x03, 0x00, 0x32, 0x01, 0xF4], [0x67, 0x01, 0x47, 0x7D, 0x20, 0xB7], [0x67, 0x02],
       [0x50, 0x01, 0x00, 0x32, 0x01, 0xF4], [0x71, 0x01, 0x03, 0x01, 0x10]]"
    unfolding w(2) demo_answers(1)
    by (simp add: demo_requests_def exchange_frames_def fc_reply_def segment_def)
  ultimately show ?thesis using w(1) by blast
qed

end
