(* ===== verification/Standard_Names.thy ===== *)
theory Standard_Names
  imports Ecu_Reference Flash_Routine
begin

text \<open>
  The names of ISO 14229 and of CAN FD that the headers declare next to the classes: data
  identifiers, routine identifiers, severities and groups of trouble codes, and the
  configuration of ISO-TP over CAN FD. No code of the library uses them; the theorems say what
  the code does when a tester or an integrator does.
\<close>

section \<open>Data identifiers\<close>

datatype StandardDid = BootSoftwareId | AppSoftwareId | AppDataId | BootSoftwareVersion
  | AppSoftwareVersion | AppDataVersion | ActiveSession | VehicleManufId | SystemSupplierEcuId
  | VinId | VehicleManufEcuHwNum | EcuSerialNumber

fun standard_did :: "StandardDid \<Rightarrow> u16" where
  "standard_did BootSoftwareId = 0xF180"
| "standard_did AppSoftwareId = 0xF181"
| "standard_did AppDataId = 0xF182"
| "standard_did BootSoftwareVersion = 0xF183"
| "standard_did AppSoftwareVersion = 0xF184"
| "standard_did AppDataVersion = 0xF185"
| "standard_did ActiveSession = 0xF186"
| "standard_did VehicleManufId = 0xF18A"
| "standard_did SystemSupplierEcuId = 0xF18C"
| "standard_did VinId = 0xF190"
| "standard_did VehicleManufEcuHwNum = 0xF191"
| "standard_did EcuSerialNumber = 0xF18B"

text \<open>
  Of the identifiers the header names, the example serves the vehicle identification number
  only; its software version has a number of its own.
\<close>

lemma standard_dids_served:
  "fst (ref_answer [0x22, hi8 (standard_did d), lo8 (standard_did d)] e) =
    (if d = VinId then 0x62 # 0xF1 # 0x90 # kVin else refuse 0x22 0x31)"
  by (cases d) (simp_all add: ref_read_def ref_data_def hi8_def lo8_def kVin_def)

text \<open>A write of the wrong length is refused as a failed programming, not as a wrong length.\<close>

lemma version_of_wrong_length:
  "length ds \<noteq> 3 \<Longrightarrow> ref_answer (0x2E # 0xF1 # 0x89 # d # ds) e = (refuse 0x2E 0x72, e)"
  by simp

section \<open>Routine identifiers\<close>

datatype StandardRoutine = EraseMemory | CheckProgrammingDep | CheckMemory | EraseFlashSector
  | VerifyFlash

fun standard_routine :: "StandardRoutine \<Rightarrow> u16" where
  "standard_routine EraseMemory = 0xFF00"
| "standard_routine CheckProgrammingDep = 0xFF01"
| "standard_routine CheckMemory = 0x0202"
| "standard_routine EraseFlashSector = 0x0301"
| "standard_routine VerifyFlash = 0x0302"

text \<open>
  With both ready-made routines registered, the last two names are served and the other three
  are refused with requestOutOfRange.
\<close>

lemma standard_routines_served:
  assumes "m_session session = Programming" "length resp = kMaxResp"
  shows "find_routine (standard_routine n) [make_erase_routine flash, make_verify_routine flash] =
      (case n of EraseFlashSector \<Rightarrow> Some (make_erase_routine flash)
       | VerifyFlash \<Rightarrow> Some (make_verify_routine flash) | _ \<Rightarrow> None)"
    and "n \<notin> {EraseFlashSector, VerifyFlash} \<Longrightarrow> sub \<in> {1, 2, 3} \<Longrightarrow>
      routine_handle [make_erase_routine flash, make_verify_routine flash] session
        (0x31 # sub # hi8 (standard_routine n) # lo8 (standard_routine n) # opt) resp w =
      (nrc_reply RoutineControl RequestOutOfRange resp, w)"
proof -
  show f: "find_routine (standard_routine n) [make_erase_routine flash, make_verify_routine flash] =
      (case n of EraseFlashSector \<Rightarrow> Some (make_erase_routine flash)
       | VerifyFlash \<Rightarrow> Some (make_verify_routine flash) | _ \<Rightarrow> None)"
    by (cases n) (simp_all add: find_routine_def make_erase_routine_def make_verify_routine_def)
  assume n: "n \<notin> {EraseFlashSector, VerifyFlash}" and sub: "sub \<in> {1, 2, 3}"
  from n have "find_routine (standard_routine n) [make_erase_routine flash, make_verify_routine flash] = None"
    unfolding f by (cases n) simp_all
  then show "routine_handle [make_erase_routine flash, make_verify_routine flash] session
        (0x31 # sub # hi8 (standard_routine n) # lo8 (standard_routine n) # opt) resp w =
      (nrc_reply RoutineControl RequestOutOfRange resp, w)"
    using sub by (auto simp: routine_handle_def byte_simps)
qed

section \<open>Trouble codes\<close>

datatype DtcSeverity = NoSeverity | Maintenance | CheckAtNextHalt | CheckImmediately

fun severity_byte :: "DtcSeverity \<Rightarrow> u8" where
  "severity_byte NoSeverity = 0x00"
| "severity_byte Maintenance = 0x20"
| "severity_byte CheckAtNextHalt = 0x40"
| "severity_byte CheckImmediately = 0x80"

datatype DtcFunctionalGroup = AllDtcs | EmissionSystem | SafetySystem

fun group_code :: "DtcFunctionalGroup \<Rightarrow> u32" where
  "group_code AllDtcs = 0xFFFFFF"
| "group_code EmissionSystem = 0xFEFFFF"
| "group_code SafetySystem = 0xFDFFFF"

text \<open>
  The severity given at registration is stored and never looked at: it changes nothing in any
  answer about trouble codes.
\<close>

lemma severity_unused:
  "map (\<lambda>e. (dtc_code e, dtc_status e)) (m_dtcs (snd (register_dtc c (severity_byte s) m))) =
    map (\<lambda>e. (dtc_code e, dtc_status e)) (m_dtcs (snd (register_dtc c (severity_byte s') m)))"
  by (simp add: register_dtc_def fresh_dtc_def)

text \<open>
  The emission and safety groups are read as bit masks of codes: a clear request for one of
  them resets the code with this very number and the code FFFFFF, and no other code of the
  vehicle.
\<close>

lemma all_but_one_bit:
  assumes "(c :: u32) AND 0xFFFFFF = c" "c AND g = g" "NOT g AND 0xFFFFFF = push_bit n 1"
  shows "c = g \<or> c = g OR push_bit n 1"
proof -
  have "c = (c AND g) OR (c AND NOT g)" by (rule bit_word_eqI) (auto simp: bit_simps)
  moreover have "c AND NOT g = c AND push_bit n 1"
  proof -
    have "c AND NOT g = (c AND 0xFFFFFF) AND NOT g" unfolding assms(1) ..
    also have "\<dots> = c AND (NOT g AND 0xFFFFFF)" by (simp only: ac_simps)
    finally show ?thesis unfolding assms(3) .
  qed
  moreover have "c AND push_bit n 1 = (if bit c n then push_bit n 1 else 0)"
    by (rule bit_word_eqI) (auto simp: bit_simps)
  ultimately show ?thesis using assms(2) by (auto split: if_splits)
qed

lemma functional_groups_clear_nothing:
  assumes "g \<noteq> AllDtcs" "c AND 0xFFFFFF = c" "c \<noteq> group_code g" "c \<noteq> 0xFFFFFF"
  shows "dtc_status_of c (clear_group (group_code g) m) = dtc_status_of c m"
proof -
  obtain n where "NOT (group_code g) AND 0xFFFFFF = push_bit n 1" "group_code g OR push_bit n 1 = 0xFFFFFF"
    "group_code g \<noteq> 0xFFFFFF" "group_code g AND 0xFFFFFF = group_code g"
  proof (cases g)
    case EmissionSystem
    then show ?thesis by (intro that [of 16]) simp_all
  next
    case SafetySystem
    then show ?thesis by (intro that [of 17]) simp_all
  qed (use assms(1) in simp)
  with all_but_one_bit [OF assms(2), of "group_code g" n] assms(2-4) show ?thesis
    by (auto simp: status_of_clear_group group_matches_def)
qed

section \<open>CAN FD\<close>

text \<open>The configuration of ISO-TP over CAN FD extends the classic one.\<close>

record FdIsoTpConfig = IsoTpConfig +
  fd_enabled :: bool
  sf_max_len :: u8
  ff_min_len :: u8

definition kFdMaxPayload :: nat where "kFdMaxPayload = 4095"
definition kFdSfMaxLen :: u8 where "kFdSfMaxLen = 62"

text \<open>
  The configuration has no reader, and the transport layer speaks classic ISO-TP only: a
  single frame of CAN FD, with its length in the second byte, and a long first frame, with a
  length of 32 bits after \<open>10 00\<close>, are refused whatever they carry, and leave the state alone.
\<close>

definition fd_single_frame :: "u8 list \<Rightarrow> bool" where
  "fd_single_frame bs \<longleftrightarrow> 2 \<le> length bs \<and> bs ! 0 = 0x00 \<and> bs ! 1 \<ge> 8 \<and> bs ! 1 \<le> kFdSfMaxLen"

definition fd_first_frame :: "u8 list \<Rightarrow> bool" where
  "fd_first_frame bs \<longleftrightarrow> 6 \<le> length bs \<and> bs ! 0 = 0x10 \<and> bs ! 1 = 0x00"

lemma fd_frames_refused:
  assumes "fd_single_frame (cf_data f) \<or> fd_first_frame (cf_data f)"
  shows "process_frame can st f s w = Some (Error, s, w)"
  using assms
  by (auto simp: fd_single_frame_def fd_first_frame_def process_frame_def handle_sf_def handle_ff_def be16_def)

text \<open>
  The limit of the FD configuration is the one that holds for the classic transport, too: the
  header of a first frame has room for 4095, one less than the buffer.
\<close>

lemma fd_max_payload: "kFdMaxPayload = 2 ^ 12 - 1 \<and> kFdMaxPayload + 1 = MAX_PAYLOAD"
  by (simp add: kFdMaxPayload_def MAX_PAYLOAD_def)

end
