(* ===== verification/Hal_Timer.thy ===== *)
theory Hal_Timer
  imports Uds_Prelude
begin

text \<open>
  The software timers of \<open>include/uds/hal/hal_timer.hpp\<close>. \<open>ITimer\<close> is the interface the
  integrator implements: a function \<open>'w \<Rightarrow> u32\<close> that reads the millisecond tick of the
  environment. The counter wraps after 2^32 ms; real time is a natural number \<open>T\<close> and
  the tick at that time is \<open>of_nat T\<close>.
\<close>

type_synonym 'w itimer = "'w \<Rightarrow> u32"

definition is_elapsed :: "u32 \<Rightarrow> u32 \<Rightarrow> u32 \<Rightarrow> bool" where
  "is_elapsed start current timeout \<longleftrightarrow> current - start \<ge> timeout"

record soft_timer =
  st_start :: u32
  st_running :: bool

definition soft_new :: soft_timer where
  "soft_new = \<lparr>st_start = 0, st_running = False\<rparr>"

definition soft_start :: "'w itimer \<Rightarrow> 'w \<Rightarrow> soft_timer \<Rightarrow> soft_timer" where
  "soft_start get_tick_ms w t = t\<lparr>st_start := get_tick_ms w, st_running := True\<rparr>"

definition soft_stop :: "soft_timer \<Rightarrow> soft_timer" where
  "soft_stop t = t\<lparr>st_running := False\<rparr>"

definition soft_restart :: "'w itimer \<Rightarrow> 'w \<Rightarrow> soft_timer \<Rightarrow> soft_timer" where
  "soft_restart get_tick_ms w t = t\<lparr>st_start := get_tick_ms w\<rparr>"

definition soft_is_expired :: "'w itimer \<Rightarrow> 'w \<Rightarrow> soft_timer \<Rightarrow> u32 \<Rightarrow> bool" where
  "soft_is_expired get_tick_ms w t timeout_ms =
     (if \<not> st_running t then False
      else is_elapsed (st_start t) (get_tick_ms w) timeout_ms)"

definition soft_elapsed_ms :: "'w itimer \<Rightarrow> 'w \<Rightarrow> soft_timer \<Rightarrow> u32" where
  "soft_elapsed_ms get_tick_ms w t =
     (if \<not> st_running t then 0 else get_tick_ms w - st_start t)"

record periodic_timer =
  pt_period :: u32
  pt_next :: u32
  pt_started :: bool

definition periodic_new :: "u32 \<Rightarrow> periodic_timer" where
  "periodic_new period_ms = \<lparr>pt_period = period_ms, pt_next = 0, pt_started = False\<rparr>"

definition periodic_start :: "'w itimer \<Rightarrow> 'w \<Rightarrow> periodic_timer \<Rightarrow> periodic_timer" where
  "periodic_start get_tick_ms w t =
     t\<lparr>pt_next := get_tick_ms w + pt_period t, pt_started := True\<rparr>"

definition periodic_tick ::
  "'w itimer \<Rightarrow> 'w \<Rightarrow> periodic_timer \<Rightarrow> bool \<times> periodic_timer" where
  "periodic_tick get_tick_ms w t =
     (if \<not> pt_started t then (False, t)
      else let now = get_tick_ms w in
        if now \<ge> pt_next t then (True, t\<lparr>pt_next := now + pt_period t\<rparr>)
        else (False, t))"

text \<open>The difference of two ticks is the time between them, as long as it is below 2^32.\<close>

lemma unat_tick_diff:
  assumes "T0 \<le> T" "T - T0 < 2 ^ 32"
  shows "unat (of_nat T - of_nat T0 :: u32) = T - T0"
proof -
  have "of_nat T - of_nat T0 = (of_nat (T - T0) :: u32)"
    using assms(1) by (simp add: of_nat_diff)
  then show ?thesis using assms(2) by (simp add: unat_of_nat)
qed

lemma soft_expired_iff:
  assumes "get_tick_ms w0 = of_nat T0" "get_tick_ms w = of_nat T"
    and "T0 \<le> T" "T - T0 < 2 ^ 32"
  shows "soft_is_expired get_tick_ms w (soft_start get_tick_ms w0 t) timeout_ms \<longleftrightarrow>
    unat timeout_ms \<le> T - T0"
  using assms by (simp add: soft_is_expired_def soft_start_def is_elapsed_def
    word_le_nat_alt unat_tick_diff)

section \<open>Properties\<close>

text \<open>
  The one-shot timer survives the wrap of the tick counter: started at real time
  \<open>T0\<close> and polled at \<open>T\<close> less than 2^32 ms later, it is expired exactly when \<open>timeout_ms\<close>
  milliseconds have passed, and \<open>elapsed_ms\<close> is the time passed, wherever in the 32 bit
  range the two ticks lie.
\<close>

theorem soft_timer_exact:
  assumes "get_tick_ms w0 = of_nat T0" and "get_tick_ms w = of_nat T"
    and "T0 \<le> T" and "T - T0 < 2 ^ 32"
  shows "(soft_is_expired get_tick_ms w (soft_start get_tick_ms w0 t) timeout_ms \<longleftrightarrow>
           unat timeout_ms \<le> T - T0) \<and>
         unat (soft_elapsed_ms get_tick_ms w (soft_start get_tick_ms w0 t)) = T - T0"
  using soft_expired_iff [of get_tick_ms w0 T0 w T t timeout_ms] assms
  by (simp add: soft_elapsed_ms_def soft_start_def unat_tick_diff)

theorem soft_timer_exact_witness:
  "soft_is_expired of_nat (2 ^ 32 + 100 :: nat) (soft_start of_nat (2 ^ 32 - 256) soft_new) 356"
  using soft_timer_exact [of of_nat "2 ^ 32 - 256 :: nat" "2 ^ 32 - 256"
    "2 ^ 32 + 100" "2 ^ 32 + 100" soft_new 356]
  by simp

text \<open>
  The periodic timer compares ticks directly. While \<open>now + period\<close> stays in the 32 bit
  range, a timer that fired at \<open>now\<close> fires again exactly when the tick has reached
  \<open>now + period\<close>; when that sum wraps, it fires again at once, at the very same tick.
\<close>

theorem periodic_timer_refire:
  assumes "pt_started t" and "pt_next t \<le> get_tick_ms w" and "get_tick_ms w \<le> get_tick_ms w'"
  shows "fst (periodic_tick get_tick_ms w' (snd (periodic_tick get_tick_ms w t))) \<longleftrightarrow>
    unat (get_tick_ms w) + unat (pt_period t) \<le> unat (get_tick_ms w') \<or>
    2 ^ 32 \<le> unat (get_tick_ms w) + unat (pt_period t)"
proof -
  let ?n = "get_tick_ms w" and ?n' = "get_tick_ms w'" and ?p = "pt_period t"
  have b: "unat ?n < 2 ^ 32" "unat ?p < 2 ^ 32"
    using unat_u32_lt [of ?n] unat_u32_lt [of ?p] by simp_all
  have "unat (?n + ?p) =
      (if unat ?n + unat ?p < 2 ^ 32 then unat ?n + unat ?p else unat ?n + unat ?p - 2 ^ 32)"
    using b by (simp add: unat_word_ariths mod_if)
  moreover have "unat ?n \<le> unat ?n'" using assms(3) by (simp add: word_le_nat_alt)
  ultimately have "?n + ?p \<le> ?n' \<longleftrightarrow>
      unat ?n + unat ?p \<le> unat ?n' \<or> 2 ^ 32 \<le> unat ?n + unat ?p"
    using b unfolding word_le_nat_alt by (auto split: if_splits)
  then show ?thesis using assms(1,2) by (simp add: periodic_tick_def Let_def)
qed

theorem periodic_timer_refire_witness:
  "fst (periodic_tick id 0xFFFFFFFF (snd (periodic_tick id 0xFFFFFFFF
     \<lparr>pt_period = 1000, pt_next = 5, pt_started = True\<rparr>)))"
  using periodic_timer_refire [of "\<lparr>pt_period = 1000, pt_next = 5, pt_started = True\<rparr>"
    id "0xFFFFFFFF" "0xFFFFFFFF"] by simp

text \<open>
  A tick of \<open>0x62\<close> is 354 ms after a tick of \<open>0xFFFFFF00\<close>, so a timeout of 99 ms that
  began there has elapsed; \<open>test_is_elapsed_overflow\<close> in \<open>tests/test_timing.cpp\<close> expects
  that it has not.
\<close>

lemma is_elapsed_test_case: "is_elapsed 0xFFFFFF00 0x63 99" "is_elapsed 0xFFFFFF00 0x62 99"
  by (simp_all add: is_elapsed_def)

end
