(* ===== verification/Test_Suites.thy ===== *)
theory Test_Suites
  imports Test_Can Iso_Tp Uds_Session Hal_Timer
begin

text \<open>
  The three unit test programs of the repository (\<open>tests/\<close>). A test function is the list of
  its checks in order: each \<open>TEST(cond)\<close> is the value of its condition in the state the
  function has reached; the memory a program does not initialise is an argument. \<open>None\<close> is a
  read outside an array. The exit code of a program is 0 when all its checks hold.
\<close>

definition fail_count :: "bool list \<Rightarrow> nat" where
  "fail_count checks = length (filter (\<lambda>c. \<not> c) checks)"

definition test_exit :: "bool list \<Rightarrow> int" where
  "test_exit checks = (if fail_count checks > 0 then 1 else 0)"

section \<open>\<open>test_isotp.cpp\<close>\<close>

definition test_single_frame_rx :: "u8 list \<Rightarrow> u8 list \<Rightarrow> test_can \<Rightarrow> bool list option" where
  "test_single_frame_rx garbage buf can =
     (let tp = isotp_new garbage (kDefaultIsoTpConfig\<lparr>cfg_rx_id := 0x7E0, cfg_tx_id := 0x7E8\<rparr>);
          sf = zero_frame\<lparr>cf_id := 0x7E0, cf_dlc := 5,
                 cf_data := put 0 [0x04, 0x22, 0xF1, 0x90, 0x00] (cf_data zero_frame)\<rparr>
      in case process_frame test_can_if (\<lambda>_. []) sf tp can of
           None \<Rightarrow> None
         | Some (r, tp, can) \<Rightarrow>
             (case isotp_get_data (Some buf) (length buf) tp of
                (len, buf', tp') \<Rightarrow>
                  let buf = (case buf' of None \<Rightarrow> buf | Some b \<Rightarrow> b)
                  in Some [r = Ok, m_data_ready tp, len = 4, buf ! 0 = 0x22, buf ! 1 = 0xF1,
                           buf ! 2 = 0x90]))"

definition test_single_frame_tx :: "u8 list \<Rightarrow> test_can \<Rightarrow> bool list option" where
  "test_single_frame_tx garbage can =
     (let tp = isotp_new garbage (kDefaultIsoTpConfig\<lparr>cfg_rx_id := 0x7E8, cfg_tx_id := 0x7E0\<rparr>);
          dat = [0x62, 0xF1, 0x90, 0x41, 0x42, 0x43]
      in case isotp_send test_can_if (\<lambda>_. dat) (Some 0) (length dat) tp can of
           None \<Rightarrow> None
         | Some (r, tp, can) \<Rightarrow>
             Some [r = Ok, tc_sent_count can = 1, cf_data (tc_sent can ! 0) ! 0 = 0x06,
                   cf_data (tc_sent can ! 0) ! 1 = 0x62])"

definition test_sf_wrong_id :: "u8 list \<Rightarrow> test_can \<Rightarrow> bool list option" where
  "test_sf_wrong_id garbage can =
     (let tp = isotp_new garbage (kDefaultIsoTpConfig\<lparr>cfg_rx_id := 0x7E0\<rparr>);
          sf = zero_frame\<lparr>cf_id := 0x7E8, cf_dlc := 2, cf_data := put 0 [0x01] (cf_data zero_frame)\<rparr>
      in map_option (\<lambda>(r, tp, can). [r = Error]) (process_frame test_can_if (\<lambda>_. []) sf tp can))"

definition test_sf_invalid_length :: "u8 list \<Rightarrow> test_can \<Rightarrow> bool list option" where
  "test_sf_invalid_length garbage can =
     (let tp = isotp_new garbage (kDefaultIsoTpConfig\<lparr>cfg_rx_id := 0x7E0\<rparr>);
          sf = zero_frame\<lparr>cf_id := 0x7E0, cf_dlc := 1, cf_data := put 0 [0x00] (cf_data zero_frame)\<rparr>
      in map_option (\<lambda>(r, tp, can). [r = Error]) (process_frame test_can_if (\<lambda>_. []) sf tp can))"

definition test_isotp_main :: "u8 list \<Rightarrow> u8 list \<Rightarrow> test_can \<Rightarrow> int option" where
  "test_isotp_main garbage buf can =
     (case (test_single_frame_rx garbage buf can, test_single_frame_tx garbage can,
            test_sf_wrong_id garbage can, test_sf_invalid_length garbage can) of
        (Some a, Some b, Some c, Some d) \<Rightarrow> Some (test_exit (a @ b @ c @ d))
      | _ \<Rightarrow> None)"

section \<open>\<open>test_session.cpp\<close>\<close>

definition test_initial_state :: "bool list" where
  "test_initial_state =
     (let s = session_new kDefaultTiming :: unit uds_session
      in [m_session s = Default, \<not> m_timed_out s])"

definition test_transition_to_extended :: "bool list" where
  "test_transition_to_extended =
     (case session_transition Extended (session_new kDefaultTiming :: unit uds_session) of
        (ok, s) \<Rightarrow> [ok, m_session s = Extended])"

definition test_programming_from_default_only :: "bool list" where
  "test_programming_from_default_only =
     (case session_transition Programming (session_new kDefaultTiming :: unit uds_session) of
        (ok, s) \<Rightarrow> [ok, m_session s = Programming])"

definition test_programming_from_extended_fail :: "bool list" where
  "test_programming_from_extended_fail =
     (let s = snd (session_transition Extended (session_new kDefaultTiming :: unit uds_session))
      in case session_transition Programming s of (ok, s) \<Rightarrow> [\<not> ok, m_session s = Extended])"

definition test_s3_timeout :: "bool list" where
  "test_s3_timeout =
     (let timing = \<lparr>p2_ms = 50, p2_star_ms = 5000, s3_ms = 100\<rparr>;
          s = snd (session_transition Extended (session_new timing :: unit uds_session));
          s = session_keep_alive 0 s;
          s = fst (session_update 50 s ());
          c1 = \<not> m_timed_out s;
          s = fst (session_update 101 s ())
      in [c1, m_timed_out s, m_session s = Default])"

definition test_keepalive_resets_timer :: "bool list" where
  "test_keepalive_resets_timer =
     (let timing = \<lparr>p2_ms = 50, p2_star_ms = 5000, s3_ms = 100\<rparr>;
          s = snd (session_transition Extended (session_new timing :: unit uds_session));
          s = session_keep_alive 0 s;
          s = fst (session_update 90 s ());
          s = session_keep_alive 90 s;
          s = fst (session_update 180 s ())
      in [\<not> m_timed_out s])"

definition test_session_main :: int where
  "test_session_main =
     test_exit (test_initial_state @ test_transition_to_extended @
       test_programming_from_default_only @ test_programming_from_extended_fail @
       test_s3_timeout @ test_keepalive_resets_timer)"

section \<open>\<open>test_timing.cpp\<close>\<close>

text \<open>\<open>MockTimer\<close>: the environment is its tick.\<close>

definition mock_timer :: "u32 itimer" where
  "mock_timer tick = tick"

definition test_is_elapsed_overflow :: "bool list" where
  "test_is_elapsed_overflow =
     [is_elapsed 0xFFFFFF00 0x00000063 99, \<not> is_elapsed 0xFFFFFF00 0x00000062 99]"

definition test_soft_timer :: "bool list" where
  "test_soft_timer =
     (let t = soft_start mock_timer 0 soft_new
      in [\<not> soft_is_expired mock_timer 0 t 100, soft_is_expired mock_timer 100 t 100])"

definition test_soft_timer_overflow :: "bool list" where
  "test_soft_timer_overflow =
     (let t = soft_start mock_timer 0xFFFFFF00 soft_new
      in [soft_is_expired mock_timer 0x00000064 t 100])"

definition test_timing_main :: int where
  "test_timing_main =
     test_exit (test_is_elapsed_overflow @ test_soft_timer @ test_soft_timer_overflow)"

section \<open>The outcome\<close>

lemma test_session_passes: "test_session_main = 0"
  by code_simp

lemma test_timing_checks:
  "test_is_elapsed_overflow @ test_soft_timer @ test_soft_timer_overflow =
    [True, False, True, True, True]"
  by code_simp

lemma rx_checks:
  assumes "length garbage = 4096" "length buf = 64"
  shows "test_single_frame_rx garbage buf can = Some [True, True, True, True, True, True]"
  using assms
  by (simp add: test_single_frame_rx_def process_frame_def handle_sf_def mem_read_def zero_frame_def
      isotp_get_data_def isotp_new_def put_def kDefaultIsoTpConfig_def MAX_PAYLOAD_def Let_def)

lemma tx_checks:
  assumes "length sent = 32"
  shows "test_single_frame_tx garbage (test_can_new sent queue) = Some [True, True, True, True]"
  using assms
  by (simp add: test_single_frame_tx_def isotp_send_def tx_read_def mem_read_def zero_frame_def
      isotp_new_def put_def MAX_PAYLOAD_def test_can_if_def test_can_send_def test_can_new_def Let_def)

lemma error_checks:
  "test_sf_wrong_id garbage can = Some [True]" "test_sf_invalid_length garbage can = Some [True]"
  by (simp_all add: test_sf_wrong_id_def test_sf_invalid_length_def process_frame_def handle_sf_def
      zero_frame_def isotp_new_def put_def kDefaultIsoTpConfig_def MAX_PAYLOAD_def Let_def)

lemma test_isotp_passes:
  assumes "length garbage = 4096" "length buf = 64" "length sent = 32"
  shows "test_isotp_main garbage buf (test_can_new sent queue) = Some 0"
  using assms
  by (simp add: test_isotp_main_def rx_checks tx_checks error_checks test_exit_def fail_count_def)

text \<open>
  The unit tests of the repository: the transport tests and the session tests pass,
  whatever the uninitialised memory holds, and the timing tests do not: their second check,
  that 99 ms have not passed between the ticks 0xFFFFFF00 and 0x62, fails, because it is the
  only one that does not hold of the code.
\<close>

theorem unit_tests_outcome:
  assumes "length garbage = 4096" "length buf = 64" "length sent = 32"
  shows "test_isotp_main garbage buf (test_can_new sent queue) = Some 0 \<and>
    test_session_main = 0 \<and> test_timing_main = 1 \<and>
    test_is_elapsed_overflow @ test_soft_timer @ test_soft_timer_overflow =
      [True, False, True, True, True]"
  using test_isotp_passes [OF assms] test_session_passes test_timing_checks
  by (simp add: test_timing_main_def test_exit_def fail_count_def)

theorem unit_tests_outcome_witness:
  "test_isotp_main (replicate 4096 0xCC) (replicate 64 0xCC)
    (test_can_new (replicate 32 zero_frame) (replicate 32 zero_frame)) = Some 0 \<and>
   test_session_main = 0 \<and> test_timing_main = 1"
  using unit_tests_outcome [of "replicate 4096 0xCC" "replicate 64 0xCC" "replicate 32 zero_frame"
      "replicate 32 zero_frame"] by simp

end
