(* ===== verification/Sub_Functions.thy ===== *)
theory Sub_Functions
  imports Services_Session Services_Data Services_Dtc
begin

text \<open>
  The sub-functions the service headers declare (\<open>include/uds/services/\<close>), with the bytes
  they stand for in a request, and which of them the handlers carry out.
\<close>

section \<open>The enumerations\<close>

datatype ReadDtcSubFunc =
    ReportNumberOfDtcByStatusMask
  | ReportDtcByStatusMask
  | ReportDtcSnapshotIdentification
  | ReportDtcSnapshotRecordByDtcNumber
  | ReportDtcExtendedDataRecordByDtcNum
  | ReportSupportedDtc
  | ReportFirstTestFailedDtc
  | ReportFirstConfirmedDtc
  | ReportMostRecentTestFailedDtc
  | ReportMostRecentConfirmedDtc
  | ReportDtcWithPermanentStatus

fun read_dtc_byte :: "ReadDtcSubFunc \<Rightarrow> u8" where
  "read_dtc_byte ReportNumberOfDtcByStatusMask = 0x01"
| "read_dtc_byte ReportDtcByStatusMask = 0x02"
| "read_dtc_byte ReportDtcSnapshotIdentification = 0x03"
| "read_dtc_byte ReportDtcSnapshotRecordByDtcNumber = 0x04"
| "read_dtc_byte ReportDtcExtendedDataRecordByDtcNum = 0x06"
| "read_dtc_byte ReportSupportedDtc = 0x0A"
| "read_dtc_byte ReportFirstTestFailedDtc = 0x0B"
| "read_dtc_byte ReportFirstConfirmedDtc = 0x0C"
| "read_dtc_byte ReportMostRecentTestFailedDtc = 0x0D"
| "read_dtc_byte ReportMostRecentConfirmedDtc = 0x0E"
| "read_dtc_byte ReportDtcWithPermanentStatus = 0x15"

datatype CommControlSubFunc =
    EnableRxAndTx | EnableRxAndDisableTx | DisableRxAndEnableTx | DisableRxAndTx

fun comm_control_byte :: "CommControlSubFunc \<Rightarrow> u8" where
  "comm_control_byte EnableRxAndTx = 0x00"
| "comm_control_byte EnableRxAndDisableTx = 0x01"
| "comm_control_byte DisableRxAndEnableTx = 0x02"
| "comm_control_byte DisableRxAndTx = 0x03"

datatype DtcSettingType = DtcSettingOn | DtcSettingOff

fun dtc_setting_byte :: "DtcSettingType \<Rightarrow> u8" where
  "dtc_setting_byte DtcSettingOn = 0x01"
| "dtc_setting_byte DtcSettingOff = 0x02"

datatype LinkControlSubFunc =
    VerifyBaudrateTransitionWithFixedBaudrate
  | VerifyBaudrateTransitionWithSpecificBaudrate
  | TransitionBaudrate

fun link_control_byte :: "LinkControlSubFunc \<Rightarrow> u8" where
  "link_control_byte VerifyBaudrateTransitionWithFixedBaudrate = 0x01"
| "link_control_byte VerifyBaudrateTransitionWithSpecificBaudrate = 0x02"
| "link_control_byte TransitionBaudrate = 0x03"

datatype RoeSubFunc =
    StopResponseOnEvent | OnDtcStatusChange | OnTimerInterrupt | OnChangeOfDataId
  | StartResponseOnEvent | ClearResponseOnEvent

fun roe_byte :: "RoeSubFunc \<Rightarrow> u8" where
  "roe_byte StopResponseOnEvent = 0x00"
| "roe_byte OnDtcStatusChange = 0x01"
| "roe_byte OnTimerInterrupt = 0x02"
| "roe_byte OnChangeOfDataId = 0x03"
| "roe_byte StartResponseOnEvent = 0x05"
| "roe_byte ClearResponseOnEvent = 0x06"

datatype RoutineSubFunc = StartRoutine | StopRoutine | RequestResults

fun routine_byte :: "RoutineSubFunc \<Rightarrow> u8" where
  "routine_byte StartRoutine = 0x01"
| "routine_byte StopRoutine = 0x02"
| "routine_byte RequestResults = 0x03"

text \<open>The types of EcuReset; those of DiagnosticSessionControl are \<open>session_byte\<close>.\<close>

fun reset_byte :: "ResetType \<Rightarrow> u8" where
  "reset_byte HardReset = 0x01"
| "reset_byte KeyOffOnReset = 0x02"
| "reset_byte SoftReset = 0x03"

lemma reset_of_reset_byte: "reset_of_byte (reset_byte t) = t"
  by (cases t) (simp_all add: reset_of_byte_def)

text \<open>Two parameters that are enumerations in the headers.\<close>

datatype CommunicationType = NormalCommunication | NmCommunication | NetworkManagement

fun communication_type_byte :: "CommunicationType \<Rightarrow> u8" where
  "communication_type_byte NormalCommunication = 0x01"
| "communication_type_byte NmCommunication = 0x02"
| "communication_type_byte NetworkManagement = 0x03"

datatype IoControlAction = ReturnControlToEcu | ResetToDefault | FreezeCurrentState | ShortTermAdjustment

fun io_action_byte :: "IoControlAction \<Rightarrow> u8" where
  "io_action_byte ReturnControlToEcu = 0x00"
| "io_action_byte ResetToDefault = 0x01"
| "io_action_byte FreezeCurrentState = 0x02"
| "io_action_byte ShortTermAdjustment = 0x03"

text \<open>What a routine offers for a sub-function.\<close>

fun routine_offers :: "'w routine_entry \<Rightarrow> RoutineSubFunc \<Rightarrow> bool" where
  "routine_offers e StartRoutine = (routine_start e \<noteq> None)"
| "routine_offers e StopRoutine = (routine_stop e \<noteq> None)"
| "routine_offers e RequestResults = (routine_results e \<noteq> None)"

section \<open>Which sub-functions are carried out\<close>

lemma routine_answer_supported:
  assumes "4 \<le> length resp"
  shows "\<not> negative_reply RoutineControl SubFunctionNotSupported
    (fst (routine_answer (put 0 (0x71 # bs) resp) x))"
proof -
  obtain ok part n w where x: "x = (ok, part, n, w)" by (cases x)
  obtain c cs where resp: "resp = c # cs" using assms by (cases resp) auto
  show ?thesis
  proof (cases ok)
    case False
    then show ?thesis by (simp add: x routine_answer_def Let_def)
  next
    case True
    have "take (4 + n) (0x71 # ys) \<noteq> [0x7F, 0x31, 0x12]" for ys :: "u8 list" by (simp add: take_Cons')
    with True show ?thesis
      by (auto simp: x routine_answer_def Let_def negative_reply_def reply_bytes_def put_def resp)
  qed
qed

lemma routine_refuses:
  assumes "find_routine (be16 i j) t = Some e" "4 \<le> length resp"
    and "routine_required_session e = Default \<or> routine_required_session e = m_session session"
  shows "negative_reply RoutineControl SubFunctionNotSupported
      (fst (routine_handle t session [0x31, routine_byte f, i, j] resp w)) \<longleftrightarrow>
    f \<noteq> RequestResults \<and> \<not> routine_offers e f"
  using assms
  by (cases f) (auto simp: routine_handle_def Let_def routine_answer_supported split: option.split)

lemma read_dtc_refuses:
  assumes "6 \<le> length resp"
  shows "negative_reply ReadDtcInformation SubFunctionNotSupported
      (fst (read_dtc_handle [0x19, read_dtc_byte f, msk] resp m)) \<longleftrightarrow>
    f \<notin> {ReportNumberOfDtcByStatusMask, ReportDtcByStatusMask, ReportSupportedDtc}"
proof -
  let ?req = "[0x19, read_dtc_byte f, msk]"
  consider (count) "f = ReportNumberOfDtcByStatusMask"
    | (report) "f = ReportDtcByStatusMask \<or> f = ReportSupportedDtc"
    | (other) "f \<notin> {ReportNumberOfDtcByStatusMask, ReportDtcByStatusMask, ReportSupportedDtc}" by blast
  then show ?thesis
  proof cases
    case count
    with count_reply [of ?req resp m] assms show ?thesis
      by (auto simp: Let_def negative_reply_def reply_bytes_def put_simps)
  next
    case report
    let ?rs = "concat (map (dtc_record msk)
      (take ((length resp - 3) div 4) (filter (status_selected msk) (m_dtcs m))))"
    have "fst (read_dtc_handle ?req resp m) = \<lparr>r_send = True,
        r_buf = put 0 ([0x59, read_dtc_byte f, 0xFF] @ ?rs) resp,
        r_len = length ([0x59, read_dtc_byte f, 0xFF] @ ?rs)\<rparr>"
      using report_reply [of ?req resp m] assms report by (auto simp: Let_def)
    moreover have "length ?rs \<le> length resp - 3" unfolding length_dtc_records by simp
    ultimately show ?thesis
      using assms report by (auto simp: negative_reply_def reply_bytes_def put_simps)
  next
    case other
    then show ?thesis by (cases f) (simp_all add: read_dtc_handle_def)
  qed
qed

text \<open>
  C35. Of the sub-functions that the headers declare as enumerations, the handlers refuse exactly
  these with subFunctionNotSupported: of ReadDtcInformation all but the two reports by status mask and
  the report of supported codes, of LinkControl the verification of a specific baud rate, of
  ResponseOnEvent the three that would set up an event, and of RoutineControl starting and
  stopping a routine that has no such function. CommunicationControl and ControlDtcSetting refuse
  none of theirs, EcuReset answers each of its three types positively and calls its callback with
  it, and DiagnosticSessionControl refuses none of its three sessions with this code. The requests
  are complete and the session is not the default one.
\<close>

theorem sub_functions_refused:
  assumes "length resp = 4096" "m_session session \<noteq> Default"
    and "find_routine (be16 i j) t = Some e"
      "routine_required_session e = Default \<or> routine_required_session e = m_session session"
  shows "(negative_reply ReadDtcInformation SubFunctionNotSupported
        (fst (read_dtc_handle [0x19, read_dtc_byte f, msk] resp m)) \<longleftrightarrow>
      f \<notin> {ReportNumberOfDtcByStatusMask, ReportDtcByStatusMask, ReportSupportedDtc}) \<and>
    (negative_reply LinkControl SubFunctionNotSupported
        (fst (link_control_handle cb session [0x87, link_control_byte l, b, b'] resp lc)) \<longleftrightarrow>
      l = VerifyBaudrateTransitionWithSpecificBaudrate) \<and>
    (negative_reply ResponseOnEvent SubFunctionNotSupported
        (fst (roe_handle [0x86, roe_byte ev, win, ty] resp roe)) \<longleftrightarrow>
      ev \<in> {OnDtcStatusChange, OnTimerInterrupt, OnChangeOfDataId}) \<and>
    (negative_reply RoutineControl SubFunctionNotSupported
        (fst (routine_handle t session [0x31, routine_byte rf, i, j] resp w)) \<longleftrightarrow>
      rf \<noteq> RequestResults \<and> \<not> routine_offers e rf) \<and>
    \<not> negative_reply CommunicationControl SubFunctionNotSupported
        (fst (comm_control_handle ccb session [0x28, comm_control_byte c, ct] resp v)) \<and>
    \<not> negative_reply ControlDtcSetting SubFunctionNotSupported
        (fst (control_dtc_handle dcb session [0x85, dtc_setting_byte d] resp v)) \<and>
    reply_bytes (fst (ecu_reset_handle (Some rcb) [0x11, reset_byte rt] resp v)) = [0x51, reset_byte rt] \<and>
    snd (ecu_reset_handle (Some rcb) [0x11, reset_byte rt] resp v) = rcb rt v \<and>
    \<not> negative_reply DiagnosticSessionControl SubFunctionNotSupported
        (fst (dsc_handle scb [0x10, session_byte st] resp (session, v)))"
proof (intro conjI)
  show "negative_reply ReadDtcInformation SubFunctionNotSupported
        (fst (read_dtc_handle [0x19, read_dtc_byte f, msk] resp m)) \<longleftrightarrow>
      f \<notin> {ReportNumberOfDtcByStatusMask, ReportDtcByStatusMask, ReportSupportedDtc}"
    by (rule read_dtc_refuses) (simp add: assms(1))
  show "negative_reply LinkControl SubFunctionNotSupported
        (fst (link_control_handle cb session [0x87, link_control_byte l, b, b'] resp lc)) \<longleftrightarrow>
      l = VerifyBaudrateTransitionWithSpecificBaudrate"
    using assms(2) by (cases lc; cases l) (simp_all add: link_control_handle_def Let_def)
  show "negative_reply ResponseOnEvent SubFunctionNotSupported
        (fst (roe_handle [0x86, roe_byte ev, win, ty] resp roe)) \<longleftrightarrow>
      ev \<in> {OnDtcStatusChange, OnTimerInterrupt, OnChangeOfDataId}"
    by (cases ev) (simp_all add: roe_handle_def Let_def)
  show "negative_reply RoutineControl SubFunctionNotSupported
        (fst (routine_handle t session [0x31, routine_byte rf, i, j] resp w)) \<longleftrightarrow>
      rf \<noteq> RequestResults \<and> \<not> routine_offers e rf"
    by (rule routine_refuses) (simp_all add: assms)
  show "\<not> negative_reply CommunicationControl SubFunctionNotSupported
        (fst (comm_control_handle ccb session [0x28, comm_control_byte c, ct] resp v))"
    using assms(2) by (cases c) (simp_all add: comm_control_handle_def Let_def)
  show "\<not> negative_reply ControlDtcSetting SubFunctionNotSupported
        (fst (control_dtc_handle dcb session [0x85, dtc_setting_byte d] resp v))"
    using assms(2) by (cases d) (simp_all add: control_dtc_handle_def Let_def)
  show "reply_bytes (fst (ecu_reset_handle (Some rcb) [0x11, reset_byte rt] resp v)) = [0x51, reset_byte rt]"
    "snd (ecu_reset_handle (Some rcb) [0x11, reset_byte rt] resp v) = rcb rt v"
    by (cases rt; simp add: ecu_reset_handle_def Let_def call_if_def reset_of_byte_def)+
  show "\<not> negative_reply DiagnosticSessionControl SubFunctionNotSupported
        (fst (dsc_handle scb [0x10, session_byte st] resp (session, v)))"
    by (cases st) (auto simp: dsc_handle_def Let_def split: prod.split bool.split)
qed

theorem sub_functions_refused_witness:
  "negative_reply ReadDtcInformation SubFunctionNotSupported
      (fst (read_dtc_handle [0x19, 0x06, 0xFF] (replicate 4096 0) dtc_manager_new)) \<and>
    negative_reply ResponseOnEvent SubFunctionNotSupported
      (fst (roe_handle [0x86, 0x01, 0, 0] (replicate 4096 0) (roe_new 0))) \<and>
    snd (ecu_reset_handle (Some (\<lambda>t ts. ts @ [t])) [0x11, 0x03] (replicate 4096 0) []) = [SoftReset]"
proof -
  have "find_routine (be16 0 1) [bound_routine\<lparr>routine_id := 1\<rparr>] = Some (bound_routine\<lparr>routine_id := 1\<rparr>)"
    by (simp add: find_routine_def be16_def)
  from sub_functions_refused [OF _ _ this, of "replicate 4096 0"
      "(session_new kDefaultTiming)\<lparr>m_session := routine_required_session bound_routine\<rparr> :: ResetType list uds_session"
      ReportDtcExtendedDataRecordByDtcNum "0xFF" dtc_manager_new None TransitionBaudrate 0 0
      "(link_control_new, ())" OnDtcStatusChange 0 0 "roe_new 0" StartRoutine 0 None EnableRxAndTx 0
      "[]" None DtcSettingOn "\<lambda>t ts. ts @ [t]" SoftReset None Default]
  show ?thesis by (simp add: bound_routine_def)
qed

text \<open>
  Unlike the sub-functions, these parameters are not compared with their enumerations: the
  control function of an identifier is called with every action byte, and the callback of
  CommunicationControl with every low half of a byte.
\<close>

lemma unchecked_parameters:
  assumes "find_io (be16 i j) t = Some e" "4 \<le> length resp" "m_session session \<noteq> Default"
    and "io_required_session e = Default \<or> io_required_session e = m_session session"
  shows "snd (io_handle t session [0x2F, i, j, a] resp w) =
      snd (snd (snd (io_control e a None (drop 4 resp) (length resp - 4) w))) \<and>
    snd (comm_control_handle (Some cb) session [0x28, comm_control_byte c, ct] resp v) =
      cb (comm_control_byte c) (ct AND 0x0F) v"
proof
  have "drop 4 (put 0 [b0, b1, b2, b3] resp) = drop 4 resp" for b0 b1 b2 b3
    using assms(2) by (simp add: put_def eval_nat_numeral)
  then show "snd (io_handle t session [0x2F, i, j, a] resp w) =
      snd (snd (snd (io_control e a None (drop 4 resp) (length resp - 4) w)))"
    using assms by (auto simp: io_handle_def Let_def size_sub_def split: prod.split)
  show "snd (comm_control_handle (Some cb) session [0x28, comm_control_byte c, ct] resp v) =
      cb (comm_control_byte c) (ct AND 0x0F) v"
    using assms(3) by (cases c) (simp_all add: comm_control_handle_def Let_def call_if_def)
qed

lemma actions_outside_enumeration: "0x04 \<notin> range io_action_byte" "0x0F \<notin> range communication_type_byte"
proof -
  have "io_action_byte x \<noteq> 0x04" for x by (cases x) simp_all
  then show "0x04 \<notin> range io_action_byte" by (metis rangeE)
  have "communication_type_byte x \<noteq> 0x0F" for x by (cases x) simp_all
  then show "0x0F \<notin> range communication_type_byte" by (metis rangeE)
qed

end
