(* ===== verification/Session_Matrix.thy ===== *)
theory Session_Matrix
  imports Service_Objects
begin

text \<open>
  Which services look at the diagnostic session, for all service classes of the library: the
  matrix of \<open>docs/session_timing_matrix.md\<close> as the code has it.
\<close>

section \<open>Rows of the matrix\<close>

text \<open>A service that does not look at the session, and one that is refused outside some sessions.\<close>

definition session_free :: "'s service \<Rightarrow> bool" where
  "session_free svc \<longleftrightarrow> (\<forall>req resp session st w.
     handle svc req resp (session\<lparr>m_session := st\<rparr>, w) =
       (case handle svc req resp (session, w) of (r, _, w') \<Rightarrow> (r, session\<lparr>m_session := st\<rparr>, w')) \<and>
     fst (snd (handle svc req resp (session, w))) = session)"

definition session_bound :: "SessionType set \<Rightarrow> 's service \<Rightarrow> bool" where
  "session_bound S svc \<longleftrightarrow> (\<forall>req resp session w. m_session session \<notin> S \<longrightarrow>
     (\<exists>nrc. reply_bytes (fst (handle svc req resp (session, w))) = [0x7F, service_id svc, nrc_byte nrc]) \<and>
     snd (handle svc req resp (session, w)) = (session, w))"

lemma session_free_app: "session_free (app_service sid rd wr (\<lambda>_. h))"
  by (simp add: session_free_def app_service_def split_def)

lemma free_services:
  "session_free (ecu_reset_service f1)" "session_free clear_dtc_service" "session_free read_dtc_service"
  "session_free rdbi_service" "session_free (read_memory_service f2)" "session_free wdbi_service"
  "session_free (upload_service f3)" "session_free (transfer_service f4)"
  "session_free (transfer_exit_service f5)" "session_free (write_memory_service f6)"
  "session_free roe_object"
  unfolding service_object_defs by (rule session_free_app)+

lemma session_bound_app:
  assumes "\<And>req resp session x. m_session session \<notin> S \<Longrightarrow>
      \<exists>nrc. h session req resp x = (nrc_reply sid nrc resp, x)"
    and "\<And>w. wr (rd w) w = w"
  shows "session_bound S (app_service sid rd wr h)"
  unfolding session_bound_def
proof (intro allI impI)
  fix req resp :: "u8 list" and session :: "'a uds_session" and w
  assume "m_session session \<notin> S"
  with assms(1) [of session req resp "rd w"] obtain nrc
    where "h session req resp (rd w) = (nrc_reply sid nrc resp, rd w)" by blast
  then show "(\<exists>nrc. reply_bytes (fst (handle (app_service sid rd wr h) req resp (session, w))) =
      [0x7F, service_id (app_service sid rd wr h), nrc_byte nrc]) \<and>
    snd (handle (app_service sid rd wr h) req resp (session, w)) = (session, w)"
    using assms(2) by (simp add: app_service_def)
qed

lemma bound_services:
  "session_bound {Programming, Extended} (comm_control_service f1)"
  "session_bound {Programming, Extended} (control_dtc_service f2)"
  "session_bound {Programming, Extended} (link_control_service f3)"
  "session_bound {Programming} (download_service f4)"
proof -
  have d: "m_session session \<notin> {Programming, Extended} \<longleftrightarrow> m_session session = Default"
    for session :: "'v uds_session"
    by (cases "m_session session") simp_all
  show "session_bound {Programming, Extended} (comm_control_service f1)"
    unfolding comm_control_service_def
    by (rule session_bound_app) (unfold d, auto simp: comm_control_handle_def Let_def)
  show "session_bound {Programming, Extended} (control_dtc_service f2)"
    unfolding control_dtc_service_def
    by (rule session_bound_app) (unfold d, auto simp: control_dtc_handle_def Let_def)
  show "session_bound {Programming, Extended} (link_control_service f3)"
    unfolding link_control_service_def
    by (rule session_bound_app) (unfold d, auto simp: link_control_handle_def Let_def)
  show "session_bound {Programming} (download_service f4)"
    unfolding download_service_def
    by (rule session_bound_app) (auto simp: request_download_handle_def)
qed

lemma matrix_rows:
  "\<forall>svc \<in> set (library_services cbs).
    (service_id svc \<in> {0x11, 0x14, 0x19, 0x22, 0x23, 0x2E, 0x35, 0x36, 0x37, 0x3D, 0x86} \<longrightarrow>
      session_free svc) \<and>
    (service_id svc \<in> {0x28, 0x85, 0x87} \<longrightarrow> session_bound {Programming, Extended} svc) \<and>
    (service_id svc = 0x34 \<longrightarrow> session_bound {Programming} svc)"
  unfolding library_services_def list.set ball_simps
  by (intro conjI impI TrueI free_services bound_services; simp add: service_object_defs)

section \<open>The matrix\<close>

text \<open>
  C22. The session matrix of the library: eleven of its service classes, among them the ones that
  write data and memory and take the blocks of a download, answer and act the same way in every
  session; CommunicationControl, ControlDTCSetting and LinkControl are refused in the default
  session, and RequestDownload in every session but the programming session. A refused request
  changes nothing.
\<close>

theorem session_matrix:
  assumes "svc \<in> set (library_services cbs)"
    and "handle svc req resp (session, w) = (r, session', w')"
  shows "(service_id svc \<in> {0x11, 0x14, 0x19, 0x22, 0x23, 0x2E, 0x35, 0x36, 0x37, 0x3D, 0x86} \<longrightarrow>
      handle svc req resp (session\<lparr>m_session := st\<rparr>, w) = (r, session\<lparr>m_session := st\<rparr>, w') \<and>
      session' = session) \<and>
    (service_id svc \<in> {0x28, 0x85, 0x87} \<and> m_session session = Default \<or>
     service_id svc = 0x34 \<and> m_session session \<noteq> Programming \<longrightarrow>
      (\<exists>nrc. reply_bytes r = [0x7F, service_id svc, nrc_byte nrc]) \<and> session' = session \<and> w' = w)"
proof (intro conjI impI)
  assume "service_id svc \<in> {0x11, 0x14, 0x19, 0x22, 0x23, 0x2E, 0x35, 0x36, 0x37, 0x3D, 0x86}"
  then have "session_free svc" using matrix_rows assms(1) by blast
  then have "handle svc req resp (session\<lparr>m_session := st\<rparr>, w) =
      (case handle svc req resp (session, w) of (r, _, w') \<Rightarrow> (r, session\<lparr>m_session := st\<rparr>, w'))"
    "fst (snd (handle svc req resp (session, w))) = session"
    unfolding session_free_def by blast+
  then show "handle svc req resp (session\<lparr>m_session := st\<rparr>, w) = (r, session\<lparr>m_session := st\<rparr>, w')"
    "session' = session"
    using assms(2) by simp_all
next
  assume "service_id svc \<in> {0x28, 0x85, 0x87} \<and> m_session session = Default \<or>
     service_id svc = 0x34 \<and> m_session session \<noteq> Programming"
  then obtain S where "session_bound S svc" "m_session session \<notin> S"
  proof (elim disjE conjE)
    assume d: "service_id svc \<in> {0x28, 0x85, 0x87}" "m_session session = Default"
    then have "session_bound {Programming, Extended} svc" using matrix_rows assms(1) by blast
    with d(2) that show thesis by simp
  next
    assume d: "service_id svc = 0x34" "m_session session \<noteq> Programming"
    then have "session_bound {Programming} svc" using matrix_rows assms(1) by blast
    with d(2) that show thesis by simp
  qed
  then have "\<exists>nrc. reply_bytes (fst (handle svc req resp (session, w))) = [0x7F, service_id svc, nrc_byte nrc]"
    "snd (handle svc req resp (session, w)) = (session, w)"
    unfolding session_bound_def by blast+
  then show "\<exists>nrc. reply_bytes r = [0x7F, service_id svc, nrc_byte nrc]" "session' = session" "w' = w"
    using assms(2) by simp_all
qed

theorem session_matrix_witness:
  "handle wdbi_service [0x2E, 0xF1, 0x89, 0xFF] (replicate 4096 0)
      ((session_new kDefaultTiming)\<lparr>m_session := Extended\<rparr>, ecu_objects_new () () 0 [] [] [] [] [] []) =
    (case handle wdbi_service [0x2E, 0xF1, 0x89, 0xFF] (replicate 4096 0)
        (session_new kDefaultTiming, ecu_objects_new () () 0 [] [] [] [] [] []) of
      (r, session, w) \<Rightarrow> (r, session\<lparr>m_session := Extended\<rparr>, w))"
proof -
  let ?w = "ecu_objects_new () () 0 [] [] [] [] [] []"
  obtain r session' w' where h: "handle wdbi_service [0x2E, 0xF1, 0x89, 0xFF] (replicate 4096 0)
      (session_new kDefaultTiming, ?w) = (r, session', w')" by (metis prod_cases3)
  have svc: "wdbi_service \<in> set (library_services cbs)" for cbs by (simp add: library_services_def)
  have "service_id (wdbi_service :: (unit, unit) ecu_objects service) = 0x2E"
    by (simp add: wdbi_service_def)
  with session_matrix [OF svc h, of Extended] h show ?thesis by simp
qed

end
