(* ===== verification/Spec2Isabelle.thy ===== *)
theory Spec2Isabelle
  imports Crc_Utils Flash_Routine Library_Ecu F4_Bus Standard_Names Test_Suites Sub_Functions Session_Matrix
begin

text \<open>
  \<^bold>\<open>A model of pulse-ecu, a UDS (ISO 14229) server for STM32 microcontrollers.\<close>

  \<^bold>\<open>The program and its parts.\<close> Frames arrive through a CAN driver
  (\<open>stm32/\<close>), the transport layer \<open>IsoTp\<close>
  (\<open>src/uds/transport/isotp.cpp\<close>) assembles them to requests,
  \<open>UdsServer\<close> (\<open>src/uds/uds_server.cpp\<close>) looks up the service for the
  first byte of a request and calls its handler on the session
  (\<open>src/uds/uds_session.cpp\<close>), and the reply goes back through the transport layer.
  The services (\<open>src/uds/services/\<close>) work on tables the application fills at
  start-up, on the table of trouble codes (\<open>src/uds/dtc/dtc_manager.cpp\<close>), and on
  callbacks. \<open>examples/stm32f4/main.cpp\<close> puts the parts together and runs them in an
  endless loop.

  \<^bold>\<open>How the model reads the code.\<close> An object is a record of its members and a
  member function is a function on that record; reference parameters are returned. Everything
  outside the library (hardware, application data, the state behind a callback's user pointer) is
  one environment value, a type parameter, which callbacks and drivers map to a new one. Integers
  are machine words of their width and wrap; \<open>size_t\<close> is a natural number, with the
  32 bit wrap written out where the code can reach it (\<open>size_sub\<close>,
  \<open>size_add\<close>, \<open>write_memory_handle\<close>). An array is a list of its
  elements, \<open>put\<close> a run of writes to it; a write past the end makes the list longer,
  so that a theorem on the length of an array says that no write leaves it. In the transport layer
  and for the data it sends, a read past the end is \<open>None\<close>, so that a result says that
  no read leaves its array. The handlers read the bytes of their request with \<open>!\<close>,
  \<open>take\<close> and \<open>drop\<close> after their length checks, as the code does with its
  pointer into the request buffer: such a read is not a fault of the model, and what a handler does
  on a short request is stated by the theorems about it. Uninitialised arrays are parameters. The pointer \<open>m_tx_data\<close> of
  \<open>IsoTp\<close>, which outlives the call that sets it, is an address of a
  \<open>store\<close>, so that the aliasing with the response buffer is visible.

  \<^bold>\<open>Theories.\<close>
  \<^item> \<open>Uds_Prelude\<close>: words, buffers and byte packing, with the collections
    \<open>put_simps\<close> and \<open>byte_simps\<close>. \<open>Uds_Types\<close>:
    \<open>include/uds/uds_types.hpp\<close>.
  \<^item> \<open>Uds_Session\<close>: \<open>UdsSession\<close>, as operations and as the state
    machine \<open>session_step\<close>. \<open>Hal_Timer\<close>:
    \<open>include/uds/hal/hal_timer.hpp\<close>.
  \<^item> \<open>Can_Interface\<close>: frames, \<open>ICanInterface\<close> as the record
    \<open>can_if\<close>, and the locales \<open>can_driver\<close> and
    \<open>lossless_driver\<close> of what the transport layer needs of a driver.
    \<open>Can_Ring\<close>: the receive ring of the drivers as a bounded queue (locale
    \<open>bounded_fifo\<close>) and against its interrupt handler step by step
    (\<open>ring_step\<close>). \<open>Stm32_Can\<close>: the drivers of the F4, F1 and H7, over
    the vendor HAL as a parameter.
  \<^item> \<open>Iso_Tp\<close>: all operations of \<open>IsoTp\<close>. \<open>Iso_Tp_Rx\<close>
    and \<open>Iso_Tp_Tx\<close>: the invariants of reception and transmission.
    \<open>Iso_Tp_Link\<close>: the frames of a segmented message as a reference.
    \<open>Iso_Tp_Props\<close>: two endpoints together.
  \<^item> \<open>Crc_Utils\<close>, \<open>Seed_Key\<close>:
    \<open>src/uds/utils/crc.cpp\<close>, \<open>src/uds/security/seed_key.cpp\<close>.
  \<^item> \<open>Registry\<close>: the locales \<open>registry\<close> and
    \<open>unique_registry\<close> of a table that is filled from the front and searched from the
    front, interpreted on the six tables of the program.
  \<^item> \<open>Dtc_Manager\<close>: the table of trouble codes.
  \<^item> \<open>Service_Base\<close>: replies and the contract \<open>uds_service\<close> of
    \<open>IService\<close>, interpreted on every handler. \<open>Services_Session\<close>,
    \<open>Services_Data\<close>, \<open>Services_Memory\<close>, \<open>Services_Dtc\<close>,
    \<open>Security_Access\<close>: the handlers. \<open>Flash_Routine\<close>: the ready-made
    flash routines. \<open>Security_Props\<close>: runs of the security service, with the locale
    \<open>seed_key_scheme\<close>. \<open>Sub_Functions\<close>: the sub-functions the headers
    declare, and which of them are refused. \<open>Session_Matrix\<close>: which services look at
    the session.
  \<^item> \<open>Services_Blind\<close>: the contract \<open>blind_service\<close>, which extends
    \<open>uds_service\<close>: what a service answers and does is independent of the bytes the
    response buffer held before; it is interpreted on every handler.
  \<^item> \<open>Uds_Server\<close>: \<open>UdsServer\<close> and its safety in any
    \<open>ecu_environment\<close>. \<open>Server_Props\<close>: requests from the last received
    frame to the last frame of the reply.
  \<^item> \<open>Service_Objects\<close>: the service classes as objects, one record of their
    members and one constructor each. \<open>Library_Ecu\<close>: an ECU that registers all twenty
    of them, its runs over frames, calls of \<open>process\<close> and calls of the application
    (ticks of the security service, results, clears and cycles of trouble codes, \<open>start\<close>
    and \<open>reset\<close> of transfers; tables are filled before the run), and the locale \<open>ecu_invariant\<close>.
  \<^item> \<open>Example_Main\<close>: the program of \<open>main.cpp\<close> over any driver.
    \<open>Example_Props\<close>: the locale \<open>draining_driver\<close> and the theorems about the
    program. \<open>Ring_Drivers\<close>: the locale \<open>ring_driver\<close>, interpreted on the
    drivers of the F4, F1 and H7, and the program on each of them. \<open>Bus_Driver\<close>: the
    locale \<open>bus_driver\<close> of a driver on a bus with one tester. \<open>Ecu_Spec\<close>:
    the abstract ECU and the refinement. \<open>Ecu_Reference\<close>: the answers of the example as
    a function of the bytes of a request, with the locale \<open>functional_refinement\<close> that
    carries the equivalence from single requests to conversations. \<open>F4_Bus\<close>: the F4 driver as a
    \<open>bus_driver\<close>, over the locale \<open>bx_bus\<close> of what is needed of the HAL.
  \<^item> \<open>Standard_Names\<close>: the identifiers, severities and groups the headers
    name, and the configuration for CAN FD, with what the code does with them.
  \<^item> \<open>Test_Can\<close>, \<open>Test_Suites\<close>: the loopback driver and the
    programs of \<open>tests/\<close>; the driver is one more \<open>bus_driver\<close>.

  \<^bold>\<open>The program and its specification.\<close> \<open>spec_answer\<close> takes a
  request and the state of the session and the application and gives the bytes of the answer: it
  has no frames, no buffers and no loop. \<open>main_implements_spec\<close> states that on every
  \<open>bus_driver\<close> the program of \<open>main\<close> puts exactly these answers on the
  bus, in two passes of its loop per request, and keeps the same state. It rests on the transport
  (a message of 1 to 4095 bytes is assembled and sent whole), on the dispatch, and on the
  blindness of the services, which lets the abstract ECU use an empty response buffer.
  \<open>ref_answer\<close> goes one step further: it has no handler of the library either, only
  the bytes of the request, the answer, and a state of nine values (session, version, seed
  generator, pending seed, lock, clock, trouble codes). \<open>abs_ecu\<close> maps the state of the
  program to it, and \<open>main_answers_like_reference\<close> states that the program answers any
  conversation byte for byte as the reference does; there the bound of 431 bytes per request
  keeps every answer below the 4096 bytes of the buffer (\<open>ref_answer_fits\<close>).

  \<^bold>\<open>What the theorems show.\<close> Safety: no frame and no pass of the main loop makes the
  transport layer read outside an array, and no handler writes past the end of the response buffer,
  from every reachable state (\<open>main_never_faults\<close>,
  \<open>library_never_faults\<close>, \<open>server_safe\<close>,
  \<open>process_frame_safe\<close>), under the contract of the services, which each of them is
  shown to keep; for the example \<open>main_ok\<close> lists the arrays, with the four bytes of
  \<open>kSwVer\<close>. What the callback of WriteMemoryByAddress does with a length beyond the
  data of the request has no effect on a run (\<open>same_within\<close>), but for the lengths
  with which the check wraps around; no byte of an earlier reply leaks into a later one. Function: messages cross the
  link unchanged, requests are answered by their service, data identifiers, memory, downloads,
  snapshots and reports carry the bytes they should; the status byte of a trouble code is a
  function of its history, with a warningIndicatorRequested bit that is never set; the ring buffer loses no accepted frame whatever the interrupts do.
  Protection: seeds and keys, attempts and the lockout, the guards of writing and of LinkControl
  (which switches to the last verified rate only, \<open>open_rate\<close>),
  the sessions the services ask for.
  Defects: some theorems describe what the code does where that is not what its comments or
  documents say, each with the exact condition: flow control of the library itself, replies
  overwritten while they wait, sessions ended by TesterPresent or never ended, the length check of
  WriteMemoryByAddress, downloads that never get past their first request, an answer of exactly
  4096 bytes (\<open>answer_fills_buffer\<close>), the CRC-32 table.

  \<^bold>\<open>Loops and bounds.\<close> The loops over requests, tables and buffers are
  recursive functions with a structural argument or a measure; \<open>receive_loop\<close>, whose
  end depends on the driver, is a partial function, and its result is shown to exist for drivers
  that hold finitely many frames. The endless loop of \<open>main\<close> is cut after any number
  of passes. No fuel is used. A \<open>bus_driver\<close> names how many frames it holds between
  two passes: 31 for the driver of the tests, 15 for the F4 driver, which is a request of up to
  104 bytes. Timing statements name their range: they hold while the sum of tick and timeout does
  not wrap, and the wrap is a theorem of its own.

  \<^bold>\<open>Assumptions.\<close> The bus is classic CAN: frames have eight data bytes and a
  dlc of at most 8 (\<open>classic_frame\<close>, \<open>hal_classic\<close>,
  \<open>fd_hal_classic\<close>); what happens beyond is stated separately. Callbacks of the application report only what they wrote
  (\<open>reader_ok\<close>, \<open>io_ok\<close>, \<open>routine_ok\<close>,
  \<open>generator_ok\<close>, \<open>read_cb_ok\<close>, \<open>exit_cb_ok\<close>). An interrupt
  runs between two memory accesses of the main loop; accesses to the indices are atomic, as they
  are on the target. Of the vendor HAL \<open>bx_bus\<close> asks that a transmission is accepted
  and that an interrupt reads the frame that has arrived; \<open>library_never_faults\<close> and
  \<open>main_never_faults\<close> ask neither.

  \<^bold>\<open>Not modelled.\<close> \<open>version.hpp\<close>, the interfaces \<open>IRng\<close> and \<open>INvs\<close>, and the
  record types of \<open>dtc.hpp\<close> without a user: declarations no code uses. The vendor HAL
  and the flash device: parameters. The drivers built without a HAL: every operation is a constant
  there. Of the tests the printed output; what their checks give is
  \<open>unit_tests_outcome\<close>. Three places that do not compile as written (members after
  the end of their class or namespace) are read as they are meant.
\<close>

end
